(* ===== verification/Prelude.thy ===== *)
theory Prelude
  imports Main "HOL-Library.AList" "HOL-Library.Multiset" "HOL-Library.Sublist"
begin

text \<open>
  Vocabulary shared by every component: Go maps as association lists, the iteration order of a
  \<^verbatim>\<open>range\<close> over a map as an explicit parameter, loops of client calls that stop at the first
  error, and the string functions of Go's standard library that the sources use.
\<close>

named_theorems gomap_simps \<open>rewriting of lookups in updated Go maps\<close>
named_theorems range_simps \<open>facts about ranging over a Go map\<close>


section \<open>Go maps\<close>

text \<open>
  A Go map with string keys is an association list with distinct keys; a missing map (nil) and
  an empty one are both \<open>[]\<close>. \<open>AList.update\<close> is \<^verbatim>\<open>m[k] = v\<close>, \<open>AList.delete\<close> is
  \<^verbatim>\<open>delete(m, k)\<close>, \<open>map_of m k\<close> is the two-valued lookup.
\<close>

type_synonym 'v gomap = "(string \<times> 'v) list"

abbreviation wf_map :: "'v gomap \<Rightarrow> bool" where
  "wf_map m \<equiv> distinct (map fst m)"

text \<open>The one-valued lookup \<^verbatim>\<open>m[k]\<close>, which yields the zero value for a missing key.\<close>

definition lookup_or :: "'v \<Rightarrow> 'v gomap \<Rightarrow> string \<Rightarrow> 'v" where
  "lookup_or z m k = (case map_of m k of Some v \<Rightarrow> v | None \<Rightarrow> z)"

text \<open>Equality of two maps as \<^verbatim>\<open>reflect.DeepEqual\<close> sees it: same keys, same values.\<close>

definition map_eq :: "'v gomap \<Rightarrow> 'v gomap \<Rightarrow> bool" where
  "map_eq a b \<longleftrightarrow> list_all (\<lambda>kv. map_of b (fst kv) = Some (snd kv)) a \<and>
                  list_all (\<lambda>kv. map_of a (fst kv) = Some (snd kv)) b"

lemma map_eq_iff:
  assumes "wf_map a" "wf_map b"
  shows "map_eq a b \<longleftrightarrow> map_of a = map_of b"
proof
  assume eq: "map_eq a b"
  show "map_of a = map_of b"
  proof
    fix k show "map_of a k = map_of b k"
    proof (cases "map_of a k")
      case None
      have "map_of b k \<noteq> Some v" for v
        using eq None by (fastforce simp: map_eq_def list_all_iff dest: map_of_SomeD)
      with None show ?thesis by (cases "map_of b k") auto
    next
      case (Some v)
      then have "(k, v) \<in> set a" by (rule map_of_SomeD)
      then have "map_of b k = Some v" using eq by (fastforce simp: map_eq_def list_all_iff)
      with Some show ?thesis by simp
    qed
  qed
next
  assume "map_of a = map_of b"
  moreover have "\<forall>x \<in> set a. map_of a (fst x) = Some (snd x)"
    "\<forall>x \<in> set b. map_of b (fst x) = Some (snd x)"
    using assms by (simp_all add: map_of_is_SomeI)
  ultimately show "map_eq a b" by (simp add: map_eq_def list_all_iff)
qed

lemma map_eq_refl: "wf_map a \<Longrightarrow> map_eq a a"
  by (simp add: map_eq_iff)

lemmas alist_lookup [gomap_simps] = AList.update_conv' AList.delete_conv'

lemma wf_map_update [simp, intro]: "wf_map m \<Longrightarrow> wf_map (AList.update k v m)"
  by (rule AList.distinct_update)

lemma wf_map_delete [simp, intro]: "wf_map m \<Longrightarrow> wf_map (AList.delete k m)"
  by (rule AList.distinct_delete)

lemma dom_keys: "dom (map_of m) = fst ` set m"
  by (rule dom_map_of_conv_image_fst)

lemma alist_empty_iff: "m = [] \<longleftrightarrow> map_of m = Map.empty"
  by simp

lemma update_not_nil [simp]: "AList.update k v m \<noteq> []"
  by (cases m) (auto split: prod.split)


section \<open>Ranging over a map\<close>

text \<open>
  Go leaves the iteration order of a map open. Each \<^verbatim>\<open>for ... range m\<close> of the sources has a
  number, and the parameter \<open>ord\<close> says in which order that loop visits the keys. The theorems
  are about every \<open>ord\<close> that only permutes.
\<close>

type_synonym order = "nat \<Rightarrow> string list \<Rightarrow> string list"

definition range_order :: "order \<Rightarrow> bool" where
  "range_order ord \<longleftrightarrow> (\<forall>l ks. mset (ord l ks) = mset ks)"

definition go_range :: "order \<Rightarrow> nat \<Rightarrow> 'v gomap \<Rightarrow> 'v gomap" where
  "go_range ord l m = List.map_filter (\<lambda>k. map_option (Pair k) (map_of m k)) (ord l (map fst m))"

lemma range_orderD:
  assumes "range_order ord"
  shows "mset (ord l ks) = mset ks" "set (ord l ks) = set ks" "distinct (ord l ks) = distinct ks"
proof -
  show m: "mset (ord l ks) = mset ks" using assms by (simp add: range_order_def)
  show "set (ord l ks) = set ks" using m by (metis set_mset_mset)
  show "distinct (ord l ks) = distinct ks" using m by (metis mset_eq_imp_distinct_iff)
qed

lemma range_order_id [simp]: "range_order (\<lambda>l ks. ks)"
  by (simp add: range_order_def)

lemma range_order_rev [simp]: "range_order (\<lambda>l ks. rev ks)"
  by (simp add: range_order_def)

lemma go_range_id: "wf_map m \<Longrightarrow> go_range (\<lambda>l ks. ks) l m = m"
proof -
  assume wf: "wf_map m"
  have "List.map_filter (\<lambda>k. map_option (Pair k) (map_of m k)) (map fst xs) = xs"
    if "set xs \<subseteq> set m" for xs
    using that
  proof (induction xs)
    case (Cons x xs)
    then have "map_of m (fst x) = Some (snd x)" using wf by (simp add: map_of_is_SomeI)
    with Cons show ?case by (simp add: map_filter_simps)
  qed (simp add: map_filter_simps)
  then show ?thesis by (simp add: go_range_def)
qed

lemma mset_go_range [range_simps]:
  assumes "range_order ord" "wf_map m"
  shows "mset (go_range ord l m) = mset m"
proof -
  let ?f = "\<lambda>k. (k, the (map_of m k))"
  have eq: "List.map_filter (\<lambda>k. map_option (Pair k) (map_of m k)) ks = map ?f ks"
    if "set ks \<subseteq> fst ` set m" for ks
    using that
  proof (induction ks)
    case (Cons k ks)
    then obtain v where "map_of m k = Some v"
      by (metis domD dom_keys insert_subset list.set(2))
    with Cons show ?case by (simp add: map_filter_simps)
  qed (simp add: map_filter_simps)
  have "set (ord l (map fst m)) \<subseteq> fst ` set m"
    using range_orderD[OF assms(1)] by simp
  then have "mset (go_range ord l m) = image_mset ?f (mset (map fst m))"
    unfolding go_range_def by (simp add: eq range_orderD[OF assms(1)])
  also have "\<dots> = mset (map (\<lambda>kv. ?f (fst kv)) m)"
    by (simp only: mset_map image_mset.compositionality comp_def)
  also have "map (\<lambda>kv. ?f (fst kv)) m = m"
    using assms(2) by (intro map_idI) (auto simp: map_of_is_SomeI)
  finally show ?thesis .
qed

lemma go_range_facts [range_simps]:
  assumes "range_order ord" "wf_map m"
  shows "set (go_range ord l m) = set m" "wf_map (go_range ord l m)"
    "map_of (go_range ord l m) = map_of m" "length (go_range ord l m) = length m"
proof -
  note m = mset_go_range[OF assms, of l]
  show s: "set (go_range ord l m) = set m" using m by (metis set_mset_mset)
  have "mset (map fst (go_range ord l m)) = mset (map fst m)" using m by simp
  then show w: "wf_map (go_range ord l m)"
    using assms(2) mset_eq_imp_distinct_iff by blast
  show "map_of (go_range ord l m) = map_of m"
    using map_of_inject_set[OF w assms(2)] s by simp
  show "length (go_range ord l m) = length m" using m by (metis size_mset)
qed

lemma go_range_Nil [simp]: "range_order ord \<Longrightarrow> go_range ord l [] = []"
  using go_range_facts(4)[of ord "[]" l] by simp


section \<open>Loops of client calls\<close>

text \<open>
  A call of a Kubernetes client takes the world to a result and the next world; \<open>Inl\<close> is the
  returned error. \<open>write_all\<close> is the loop
  \<^verbatim>\<open>for k, x := range m { if err = f(ctx, &x); err != nil { return ..., err } }\<close>.
\<close>

fun write_all :: "('o \<Rightarrow> 'w \<Rightarrow> ('e + 'r) \<times> 'w) \<Rightarrow> 'o gomap \<Rightarrow> 'w \<Rightarrow> 'e option \<times> 'w" where
  "write_all f [] w = (None, w)"
| "write_all f (kx # xs) w =
     (case f (snd kx) w of
        (Inl e, w') \<Rightarrow> (Some e, w')
      | (Inr _, w') \<Rightarrow> write_all f xs w')"

text \<open>The same loop over a list.\<close>

fun write_list :: "('o \<Rightarrow> 'w \<Rightarrow> ('e + 'r) \<times> 'w) \<Rightarrow> 'o list \<Rightarrow> 'w \<Rightarrow> 'e option \<times> 'w" where
  "write_list f [] w = (None, w)"
| "write_list f (x # xs) w =
     (case f x w of
        (Inl e, w') \<Rightarrow> (Some e, w')
      | (Inr _, w') \<Rightarrow> write_list f xs w')"

lemma write_all_list: "write_all f m w = write_list f (map snd m) w"
  by (induction m arbitrary: w) (auto split: prod.splits sum.splits)

lemma write_list_append:
  "write_list f (xs @ ys) w =
     (case write_list f xs w of (Some e, w') \<Rightarrow> (Some e, w') | (None, w') \<Rightarrow> write_list f ys w')"
  by (induction xs arbitrary: w) (auto split: prod.splits sum.splits)

text \<open>What every step of a successful loop keeps, the loop keeps.\<close>

lemma write_list_invariant:
  assumes "write_list f xs w = (r, w')" "I w"
    and "\<And>x w r w'. x \<in> set xs \<Longrightarrow> f x w = (r, w') \<Longrightarrow> I w \<Longrightarrow> I w'"
  shows "I w'"
  using assms
proof (induction xs arbitrary: w)
  case (Cons x xs)
  then show ?case by (fastforce split: prod.splits sum.splits)
qed simp

lemma write_all_invariant:
  assumes "write_all f m w = (r, w')" "I w"
    and "\<And>k x w r w'. (k, x) \<in> set m \<Longrightarrow> f x w = (r, w') \<Longrightarrow> I w \<Longrightarrow> I w'"
  shows "I w'"
  using assms(1,2) unfolding write_all_list
  by (rule write_list_invariant) (use assms(3) in auto)


section \<open>Strings\<close>

text \<open>
  Go's \<^verbatim>\<open>strings.ReplaceAll(s, old, new)\<close> for a non-empty \<open>old\<close>: the occurrences are taken
  from the left and do not overlap. The sources never pass an empty \<open>old\<close>.
\<close>

function replace_all :: "string \<Rightarrow> string \<Rightarrow> string \<Rightarrow> string" where
  "replace_all old new [] = []"
| "replace_all old new (c # cs) =
     (if old \<noteq> [] \<and> prefix old (c # cs)
      then new @ replace_all old new (drop (length old) (c # cs))
      else c # replace_all old new cs)"
  by pat_completeness auto
termination
  by (relation "measure (\<lambda>(old, new, s). length s)") auto

lemma replace_all_char: "replace_all [a] [b] s = map (\<lambda>c. if c = a then b else c) s"
  by (induction s) auto

text \<open>Without the first character of the pattern nothing is replaced.\<close>

lemma replace_all_absent: "c \<notin> set s \<Longrightarrow> replace_all (c # old) new s = s"
  by (induction s) (auto simp: prefix_def)

lemma replace_all_prefix_absent:
  "c \<notin> set l \<Longrightarrow> replace_all (c # old) new (l @ s) = l @ replace_all (c # old) new s"
  by (induction l) (auto simp: prefix_def)

lemma split_at_first:
  "xs @ c # r = ys @ c # s \<Longrightarrow> c \<notin> set xs \<Longrightarrow> c \<notin> set ys \<Longrightarrow> xs = ys"
proof -
  assume "xs @ c # r = ys @ c # s" and no: "c \<notin> set xs" "c \<notin> set ys"
  then have "takeWhile (\<lambda>x. x \<noteq> c) (xs @ c # r) = takeWhile (\<lambda>x. x \<noteq> c) (ys @ c # s)" by simp
  moreover have "takeWhile (\<lambda>x. x \<noteq> c) (zs @ c # t) = zs" if "c \<notin> set zs" for zs t
    using that by (induction zs) auto
  ultimately show "xs = ys" using no by simp
qed

text \<open>The verb \<^verbatim>\<open>%d\<close>.\<close>

definition show_digit :: "nat \<Rightarrow> char" where
  "show_digit n = char_of (48 + n)"

fun show_nat :: "nat \<Rightarrow> string" where
  "show_nat n = (if n < 10 then [show_digit n] else show_nat (n div 10) @ [show_digit (n mod 10)])"

declare show_nat.simps [simp del]

definition show_int :: "int \<Rightarrow> string" where
  "show_int i = (if i < 0 then ''-'' @ show_nat (nat (- i)) else show_nat (nat i))"

end
