(* ===== verification/Errors.thy ===== *)
theory Errors
  imports Prelude
begin

text \<open>
  The errors of the program (\<^verbatim>\<open>helpers/errors\<close>): the four error types that implement the
  \<^verbatim>\<open>ControllerError\<close> interface, next to the errors that come from elsewhere. The API server's
  "not found" is kept apart because \<^verbatim>\<open>client.IgnoreNotFound\<close> looks for it; \<open>PlainError\<close> is
  \<^verbatim>\<open>errors.New\<close> and \<^verbatim>\<open>fmt.Errorf\<close>; \<open>Panic\<close> is a nil dereference of the source.
\<close>

datatype database_type = DatabaseTypeMongo | DatabaseTypeMysql | DatabaseTypeRedis

record environment_config =
  ec_service_name :: string
  ec_site_name :: string
  ec_environment :: string

datatype go_error =
    NotFound string
  | ApiError string
  | PlainError string
  | Panic string
  | DatabaseCreationError database_type environment_config string
  | DatabaseInitError string string string
  | DatabaseMigrationError string string string
  | UnresolvedTemplatesError "string list" "string list" string string

fun database_type_string :: "database_type \<Rightarrow> string" where
  "database_type_string DatabaseTypeMongo = ''Mongo''"
| "database_type_string DatabaseTypeMysql = ''Mysql''"
| "database_type_string DatabaseTypeRedis = ''Redis''"

text \<open>The verb \<^verbatim>\<open>%v\<close> on a slice of strings.\<close>

definition show_slice :: "string list \<Rightarrow> string" where
  "show_slice xs = ''['' @ concat (map (\<lambda>ix. (if fst ix = 0 then [] else '' '') @ snd ix)
     (enumerate 0 xs)) @ '']''"

definition DatabaseCreationError_Error :: "database_type \<Rightarrow> environment_config \<Rightarrow> string \<Rightarrow> string"
where
  "DatabaseCreationError_Error t ec reason =
     ''Failed to create '' @ database_type_string t @ '' database for site '' @ ec_site_name ec @
     '', service '' @ ec_service_name ec @ '' in environment '' @ ec_environment ec @
     (if reason = [] then [] else ''. Reason: '' @ reason)"

definition DatabaseInitError_Error :: "string \<Rightarrow> string \<Rightarrow> string \<Rightarrow> string" where
  "DatabaseInitError_Error site service reason =
     ''Database initialisation failed for site '' @ site @ '', service '' @ service @
     (if reason = [] then [] else ''. Reason: '' @ reason)"

definition DatabaseMigrationError_Error :: "string \<Rightarrow> string \<Rightarrow> string \<Rightarrow> string" where
  "DatabaseMigrationError_Error site service reason =
     ''Database migration failed for site '' @ site @ '', service '' @ service @
     (if reason = [] then [] else ''. Reason: '' @ reason)"

definition UnresolvedTemplatesError_Error ::
  "string list \<Rightarrow> string list \<Rightarrow> string \<Rightarrow> string \<Rightarrow> string" where
  "UnresolvedTemplatesError_Error unresolved available entity key =
     ''Not all templates have been resolved in the '' @ entity @
     (if key = [] then [] else '' at key '' @ key) @
     ''. Unresolved template variables: '' @ show_slice unresolved @
     ''. Available template variables: '' @ show_slice available"

text \<open>The method \<^verbatim>\<open>Error()\<close>.\<close>

fun error_string :: "go_error \<Rightarrow> string" where
  "error_string (NotFound m) = m"
| "error_string (ApiError m) = m"
| "error_string (PlainError m) = m"
| "error_string (Panic m) = m"
| "error_string (DatabaseCreationError t ec r) = DatabaseCreationError_Error t ec r"
| "error_string (DatabaseInitError s v r) = DatabaseInitError_Error s v r"
| "error_string (DatabaseMigrationError s v r) = DatabaseMigrationError_Error s v r"
| "error_string (UnresolvedTemplatesError u a t k) = UnresolvedTemplatesError_Error u a t k"

text \<open>
  The type assertion to \<^verbatim>\<open>ControllerError\<close>, which \<^verbatim>\<open>errors.As\<close> also performs: the types that
  have an \<^verbatim>\<open>IsFinal\<close> method.
\<close>

fun IsControllerError :: "go_error \<Rightarrow> bool" where
  "IsControllerError (DatabaseCreationError t ec r) = True"
| "IsControllerError (DatabaseInitError s v r) = True"
| "IsControllerError (DatabaseMigrationError s v r) = True"
| "IsControllerError (UnresolvedTemplatesError u a t k) = True"
| "IsControllerError _ = False"

text \<open>Every \<^verbatim>\<open>IsFinal\<close> method returns true; errors without the method are never final.\<close>

fun IsFinal :: "go_error \<Rightarrow> bool" where
  "IsFinal (DatabaseCreationError t ec r) = True"
| "IsFinal (DatabaseInitError s v r) = True"
| "IsFinal (DatabaseMigrationError s v r) = True"
| "IsFinal (UnresolvedTemplatesError u a t k) = True"
| "IsFinal _ = False"

lemma IsFinal_IsControllerError: "IsFinal e = IsControllerError e"
  by (cases e) auto

text \<open>\<^verbatim>\<open>client.IgnoreNotFound\<close> on an error that is there.\<close>

fun ignore_not_found :: "go_error \<Rightarrow> go_error option" where
  "ignore_not_found (NotFound m) = None"
| "ignore_not_found e = Some e"

lemma ignore_not_found_None: "ignore_not_found e = None \<longleftrightarrow> (\<exists>m. e = NotFound m)"
  by (cases e) auto

end
