(* ===== verification/Kube.thy ===== *)
theory Kube
  imports Errors
begin

text \<open>
  What the sources use of Kubernetes: object metadata, and the client of controller-runtime. The
  client is not part of the repository, so it is a parameter: a record of functions over a world
  \<open>'w\<close> about which nothing is assumed. Reads are functions of the world (the informer cache at
  the time of the call); writes return the object as the server sends it back, or an error, and
  the next world. \<open>kube_store\<close> states the documented behaviour of an API server that accepts
  every well-formed write, for the theorems that need it.
\<close>

section \<open>Object metadata\<close>

text \<open>Instants are nanoseconds since the epoch; a nil time pointer is \<open>None\<close>.\<close>

type_synonym time = int

record object_meta =
  om_name :: string
  om_namespace :: string
  om_labels :: "string gomap"
  om_annotations :: "string gomap"
  om_finalizers :: "string list"
  om_deletion :: "time option"
  om_creation :: time
  om_controller :: "string option"

text \<open>
  \<open>om_controller\<close> is the owner reference that has its controller flag set, which is what
  \<^verbatim>\<open>metav1.GetControllerOf\<close> returns. A fresh metadata struct has only the fields that a
  composite literal sets.
\<close>

definition new_meta :: "string \<Rightarrow> string \<Rightarrow> string gomap \<Rightarrow> object_meta" where
  "new_meta name ns labels =
     \<lparr>om_name = name, om_namespace = ns, om_labels = labels, om_annotations = [],
      om_finalizers = [], om_deletion = None, om_creation = 0, om_controller = None\<rparr>"

lemma new_meta_simps [simp]:
  "om_name (new_meta n ns l) = n" "om_namespace (new_meta n ns l) = ns"
  "om_labels (new_meta n ns l) = l" "om_finalizers (new_meta n ns l) = []"
  "om_deletion (new_meta n ns l) = None" "om_controller (new_meta n ns l) = None"
  by (simp_all add: new_meta_def)


section \<open>The client\<close>

record ('w, 'o) client =
  cl_get :: "string \<Rightarrow> string \<Rightarrow> 'w \<Rightarrow> go_error + 'o"
  cl_list :: "string \<Rightarrow> string gomap \<Rightarrow> 'w \<Rightarrow> go_error + 'o list"
  cl_list_field :: "string \<Rightarrow> string \<Rightarrow> string \<Rightarrow> 'w \<Rightarrow> go_error + 'o list"
  cl_create :: "'o \<Rightarrow> 'w \<Rightarrow> (go_error + 'o) \<times> 'w"
  cl_update :: "'o \<Rightarrow> 'w \<Rightarrow> (go_error + 'o) \<times> 'w"
  cl_update_status :: "'o \<Rightarrow> 'w \<Rightarrow> (go_error + 'o) \<times> 'w"
  cl_patch :: "'o \<Rightarrow> 'o \<Rightarrow> 'w \<Rightarrow> (go_error + 'o) \<times> 'w"
  cl_delete :: "'o \<Rightarrow> 'w \<Rightarrow> (go_error + unit) \<times> 'w"
  cl_delete_all_of :: "string \<Rightarrow> string gomap \<Rightarrow> 'w \<Rightarrow> (go_error + unit) \<times> 'w"

text \<open>
  \<open>cl_get\<close> takes namespace and name; \<open>cl_list\<close> a namespace and matching labels;
  \<open>cl_list_field\<close> a namespace, an index and its value; \<open>cl_patch\<close> the object and the state
  the merge patch starts from; \<open>cl_delete_all_of\<close> a namespace and matching labels.
\<close>

definition label_match :: "string gomap \<Rightarrow> string gomap \<Rightarrow> bool" where
  "label_match sel labels = list_all (\<lambda>kv. map_of labels (fst kv) = Some (snd kv)) sel"

lemma label_match_simps [simp]:
  "label_match [] labels" 
  "label_match ((k, v) # sel) labels \<longleftrightarrow> map_of labels k = Some v \<and> label_match sel labels"
  by (simp_all add: label_match_def)

definition obj_key :: "('o \<Rightarrow> object_meta) \<Rightarrow> 'o \<Rightarrow> string \<times> string" where
  "obj_key meta x = (om_namespace (meta x), om_name (meta x))"

definition selects :: "('o \<Rightarrow> object_meta) \<Rightarrow> string \<Rightarrow> string gomap \<Rightarrow> 'o \<Rightarrow> bool" where
  "selects meta ns sel x \<longleftrightarrow> om_namespace (meta x) = ns \<and> label_match sel (om_labels (meta x))"

text \<open>
  An API server without transient failures and with an up-to-date cache: a list returns the
  stored objects of the namespace that carry the labels; a create of a new key appends the
  object; an update of a stored key replaces the object; a delete of an object without
  finalizers removes it.
\<close>

definition kube_store ::
  "('o \<Rightarrow> object_meta) \<Rightarrow> ('w, 'o) client \<Rightarrow> ('w \<Rightarrow> 'o list) \<Rightarrow> bool" where
  "kube_store meta cl objs \<longleftrightarrow>
     (\<forall>ns sel w. cl_list cl ns sel w = Inr (filter (selects meta ns sel) (objs w))) \<and>
     (\<forall>x w. obj_key meta x \<notin> obj_key meta ` set (objs w) \<longrightarrow>
        (\<exists>w'. cl_create cl x w = (Inr x, w') \<and> objs w' = objs w @ [x])) \<and>
     (\<forall>x w. obj_key meta x \<in> obj_key meta ` set (objs w) \<longrightarrow>
        (\<exists>w'. cl_update cl x w = (Inr x, w') \<and>
              objs w' = map (\<lambda>y. if obj_key meta y = obj_key meta x then x else y) (objs w))) \<and>
     (\<forall>x w. om_finalizers (meta x) = [] \<longrightarrow>
        (\<exists>w'. cl_delete cl x w = (Inr (), w') \<and>
              objs w' = filter (\<lambda>y. obj_key meta y \<noteq> obj_key meta x) (objs w)))"

lemma kube_storeD:
  assumes "kube_store meta cl objs"
  shows "cl_list cl ns sel w = Inr (filter (selects meta ns sel) (objs w))"
    and "obj_key meta x \<notin> obj_key meta ` set (objs w) \<Longrightarrow>
        \<exists>w'. cl_create cl x w = (Inr x, w') \<and> objs w' = objs w @ [x]"
    and "obj_key meta x \<in> obj_key meta ` set (objs w) \<Longrightarrow>
        \<exists>w'. cl_update cl x w = (Inr x, w') \<and>
              objs w' = map (\<lambda>y. if obj_key meta y = obj_key meta x then x else y) (objs w)"
    and "om_finalizers (meta x) = [] \<Longrightarrow>
        \<exists>w'. cl_delete cl x w = (Inr (), w') \<and>
              objs w' = filter (\<lambda>y. obj_key meta y \<noteq> obj_key meta x) (objs w)"
  using assms unfolding kube_store_def by blast+


section \<open>External functions\<close>

text \<open>
  The other functions the sources call and do not define: the base-36 MD5 digest, the owner
  reference setter of controller-runtime, the YAML codecs of the Kubernetes types, and the
  password generator. \<open>SetControllerReference owner obj\<close> returns the metadata of \<open>obj\<close> with
  the controller reference set, or an error.
\<close>

type_synonym set_ref = "object_meta \<Rightarrow> object_meta \<Rightarrow> go_error + object_meta"
type_synonym digest = "string \<Rightarrow> string"

definition in_range :: "nat \<Rightarrow> nat \<Rightarrow> char \<Rightarrow> bool" where
  "in_range a b c \<longleftrightarrow> a \<le> of_char c \<and> of_char c \<le> b"

text \<open>The ASCII classes \<^verbatim>\<open>a-z\<close>, \<^verbatim>\<open>A-Z\<close> and \<^verbatim>\<open>0-9\<close>.\<close>

definition is_lower :: "char \<Rightarrow> bool" where "is_lower c = in_range 97 122 c"
definition is_upper :: "char \<Rightarrow> bool" where "is_upper c = in_range 65 90 c"
definition is_digit :: "char \<Rightarrow> bool" where "is_digit c = in_range 48 57 c"

lemmas char_class_defs = is_lower_def is_upper_def is_digit_def in_range_def

text \<open>
  Documented behaviour of the digest: the base-36 rendering of 128 bits, so lower-case letters
  and digits, and long enough for the ten characters that the sources slice off.
\<close>

definition digest_ok :: "digest \<Rightarrow> bool" where
  "digest_ok md5 \<longleftrightarrow>
     (\<forall>s. 10 \<le> length (md5 s) \<and> list_all (\<lambda>c. is_lower c \<or> is_digit c) (md5 s))"

text \<open>The setter changes nothing but the controller reference.\<close>

definition set_ref_ok :: "set_ref \<Rightarrow> bool" where
  "set_ref_ok sr \<longleftrightarrow>
     (\<forall>owner m m'. sr owner m = Inr m' \<longrightarrow> m'\<lparr>om_controller := om_controller m\<rparr> = m)"

lemma set_ref_okD:
  assumes "set_ref_ok sr" "sr owner m = Inr m'"
  shows "om_name m' = om_name m" "om_namespace m' = om_namespace m"
    "om_labels m' = om_labels m" "om_annotations m' = om_annotations m"
    "om_finalizers m' = om_finalizers m" "om_deletion m' = om_deletion m"
proof -
  have "m'\<lparr>om_controller := om_controller m\<rparr> = m"
    using assms by (simp add: set_ref_ok_def)
  then show "om_name m' = om_name m" "om_namespace m' = om_namespace m"
    "om_labels m' = om_labels m" "om_annotations m' = om_annotations m"
    "om_finalizers m' = om_finalizers m" "om_deletion m' = om_deletion m"
    by (cases m; cases m'; simp)+
qed

end
