(* ===== verification/StringHelper.thy ===== *)
theory StringHelper
  imports Kube
begin

text \<open>
  \<^verbatim>\<open>helpers/string_helper.go\<close> and \<^verbatim>\<open>helpers/constants.go\<close>: slices of strings, and the names of
  databases, users and Kubernetes objects, which are cut to a length and made unique again with
  ten characters of a digest. Strings are byte strings, as Go's \<^verbatim>\<open>len\<close> and slicing see them.
  The slice \<^verbatim>\<open>[0:10]\<close> is \<open>take 10\<close>; Go would panic on a shorter digest, which \<open>digest_ok\<close>
  excludes.
\<close>

definition MongoFinalizerName :: string where
  "MongoFinalizerName = ''mongo.task.finalizers.operator.kube-stager.io''"

definition MysqlFinalizerName :: string where
  "MysqlFinalizerName = ''mysql.task.finalizers.operator.kube-stager.io''"

definition SiteFinalizerName :: string where
  "SiteFinalizerName = ''stagingsite.site.finalizers.operator.kube-stager.io''"

fun SliceContainsString :: "string list \<Rightarrow> string \<Rightarrow> bool" where
  "SliceContainsString [] s = False"
| "SliceContainsString (item # items) s = (if item = s then True else SliceContainsString items s)"

fun RemoveStringFromSlice :: "string list \<Rightarrow> string \<Rightarrow> string list" where
  "RemoveStringFromSlice [] s = []"
| "RemoveStringFromSlice (item # items) s =
     (if item = s then RemoveStringFromSlice items s else item # RemoveStringFromSlice items s)"

text \<open>The class \<^verbatim>\<open>[a-zA-Z0-9_]\<close> of the regular expression.\<close>

definition db_char :: "char \<Rightarrow> bool" where
  "db_char c \<longleftrightarrow> is_lower c \<or> is_upper c \<or> is_digit c \<or> c = CHR ''_''"

definition SanitiseDbValue :: "string \<Rightarrow> string" where
  "SanitiseDbValue value = filter db_char (replace_all ''-'' ''_'' value)"

definition SanitiseAndShortenDbValue :: "digest \<Rightarrow> string \<Rightarrow> int \<Rightarrow> string" where
  "SanitiseAndShortenDbValue md5 value maxLength =
     (let value = SanitiseDbValue value
      in if int (length value) > maxLength then take 10 (md5 value) else value)"

definition ShortenHumanReadableValue :: "digest \<Rightarrow> string \<Rightarrow> int \<Rightarrow> string" where
  "ShortenHumanReadableValue md5 value maxLength =
     (if int (length value) > maxLength
      then if maxLength \<le> 11 then take 10 (md5 value)
           else take (nat (maxLength - 11)) value @ ''-'' @ take 10 (md5 value)
      else value)"

fun join_suffixes :: "string \<Rightarrow> string list \<Rightarrow> string" where
  "join_suffixes sfx [] = sfx"
| "join_suffixes sfx (s # ss) = join_suffixes (sfx @ ''-'' @ s) ss"

definition MakeObjectName :: "digest \<Rightarrow> string \<Rightarrow> string list \<Rightarrow> string" where
  "MakeObjectName md5 baseName sfxs =
     (let sfx = join_suffixes [] sfxs
      in ShortenHumanReadableValue md5 baseName (63 - int (length sfx)) @ sfx)"

definition GetKeysFromStringBoolMap :: "order \<Rightarrow> nat \<Rightarrow> bool gomap \<Rightarrow> string list" where
  "GetKeysFromStringBoolMap ord l v = map fst (go_range ord l v)"


section \<open>Slices\<close>

lemma SliceContainsString_iff [simp]: "SliceContainsString xs s \<longleftrightarrow> s \<in> set xs"
  by (induction xs) auto

lemma RemoveStringFromSlice_filter [simp]: "RemoveStringFromSlice xs s = filter (\<lambda>x. x \<noteq> s) xs"
  by (induction xs) auto


section \<open>Sanitised values\<close>

lemma db_char_no_dash: "db_char c \<Longrightarrow> c \<noteq> CHR ''-''"
  by (auto simp: db_char_def char_class_defs)

lemma SanitiseDbValue_alt:
  "SanitiseDbValue v = filter db_char (map (\<lambda>c. if c = CHR ''-'' then CHR ''_'' else c) v)"
  by (simp add: SanitiseDbValue_def replace_all_char)

lemma SanitiseDbValue_chars: "list_all db_char (SanitiseDbValue v)"
  by (simp add: SanitiseDbValue_def list_all_iff)

lemma SanitiseDbValue_clean: "list_all db_char v \<Longrightarrow> SanitiseDbValue v = v"
proof -
  assume v: "list_all db_char v"
  have "map (\<lambda>c. if c = CHR ''-'' then CHR ''_'' else c) v = v"
    using v db_char_no_dash by (intro map_idI) (auto simp: list_all_iff)
  with v show ?thesis by (simp add: SanitiseDbValue_alt list_all_iff)
qed

lemma SanitiseDbValue_append: "SanitiseDbValue (u @ v) = SanitiseDbValue u @ SanitiseDbValue v"
  by (simp add: SanitiseDbValue_alt)

lemma length_SanitiseDbValue: "length (SanitiseDbValue v) \<le> length v"
  unfolding SanitiseDbValue_alt by (rule order_trans[OF length_filter_le]) simp

lemma digest_db_chars: "digest_ok md5 \<Longrightarrow> list_all db_char (take n (md5 s))"
  unfolding digest_ok_def by (auto simp: list_all_iff db_char_def dest: in_set_takeD)

lemma digest_no_dash: "digest_ok md5 \<Longrightarrow> CHR ''-'' \<notin> set (take n (md5 s))"
  using digest_db_chars[of md5 n s] db_char_no_dash by (fastforce simp: list_all_iff)

lemma length_digest: "digest_ok md5 \<Longrightarrow> length (take 10 (md5 s)) = 10"
  unfolding digest_ok_def by (simp add: min_def le_antisym)

lemma SanitiseAndShorten_chars:
  "digest_ok md5 \<Longrightarrow> list_all db_char (SanitiseAndShortenDbValue md5 v n)"
  by (simp add: SanitiseAndShortenDbValue_def Let_def SanitiseDbValue_chars digest_db_chars)

lemma SanitiseAndShorten_length:
  "10 \<le> n \<Longrightarrow> int (length (SanitiseAndShortenDbValue md5 v n)) \<le> n"
  by (auto simp: SanitiseAndShortenDbValue_def Let_def min_def)

lemma SanitiseAndShorten_nonempty:
  "digest_ok md5 \<Longrightarrow> SanitiseDbValue v \<noteq> [] \<Longrightarrow> SanitiseAndShortenDbValue md5 v n \<noteq> []"
  using length_digest[of md5 "SanitiseDbValue v"]
  by (auto simp: SanitiseAndShortenDbValue_def Let_def)


section \<open>Shortened names\<close>

lemma Shorten_short: "int (length v) \<le> n \<Longrightarrow> ShortenHumanReadableValue md5 v n = v"
  by (simp add: ShortenHumanReadableValue_def)

lemma Shorten_length:
  "10 \<le> n \<Longrightarrow> int (length (ShortenHumanReadableValue md5 v n)) \<le> n"
  by (auto simp: ShortenHumanReadableValue_def)

lemma Shorten_long_length:
  "digest_ok md5 \<Longrightarrow> 11 < n \<Longrightarrow> n < int (length v) \<Longrightarrow>
   int (length (ShortenHumanReadableValue md5 v n)) = n"
  by (simp add: ShortenHumanReadableValue_def length_digest del: length_take) simp

lemma Shorten_collision:
  assumes "digest_ok md5" "11 < n" "n < int (length u)" "n < int (length v)"
    and "ShortenHumanReadableValue md5 u n = ShortenHumanReadableValue md5 v n"
  shows "take 10 (md5 u) = take 10 (md5 v)"
proof -
  have "take (nat (n - 11)) u @ ''-'' @ take 10 (md5 u) = take (nat (n - 11)) v @ ''-'' @ take 10 (md5 v)"
    using assms(2-5) by (simp add: ShortenHumanReadableValue_def)
  moreover have "length (take (nat (n - 11)) u) = length (take (nat (n - 11)) v)"
    using assms(2-4) by simp
  ultimately show ?thesis by (simp add: append_eq_append_conv)
qed

lemma join_suffixes_eq: "join_suffixes a ss = a @ concat (map (\<lambda>s. ''-'' @ s) ss)"
  by (induction ss arbitrary: a) auto

lemma MakeObjectName_short:
  assumes "int (length b) + int (length (join_suffixes [] ss)) \<le> 63"
  shows "MakeObjectName md5 b ss = b @ concat (map (\<lambda>s. ''-'' @ s) ss)"
  using assms by (simp add: MakeObjectName_def Shorten_short join_suffixes_eq)

lemma MakeObjectName_length:
  assumes "length (concat (map (\<lambda>s. ''-'' @ s) ss)) \<le> 53"
  shows "length (MakeObjectName md5 b ss) \<le> 63"
proof -
  let ?s = "concat (map (\<lambda>s. ''-'' @ s) ss)"
  have "int (length (ShortenHumanReadableValue md5 b (63 - int (length ?s)))) \<le> 63 - int (length ?s)"
    by (rule Shorten_length) (use assms in simp)
  then show ?thesis by (simp add: MakeObjectName_def join_suffixes_eq Let_def)
qed

lemma set_GetKeys:
  "range_order ord \<Longrightarrow> wf_map m \<Longrightarrow> set (GetKeysFromStringBoolMap ord l m) = dom (map_of m)"
  by (simp add: GetKeysFromStringBoolMap_def range_simps dom_keys)

end
