(* ===== verification/TemplateMeaning.thy ===== *)
theory TemplateMeaning
  imports Template
begin

text \<open>
  The meaning of \<^verbatim>\<open>helpers/template.go\<close>. A text is seen as a sequence of literals and references;
  on such texts the code's repeated replacement is one simultaneous substitution, whatever order
  the maps are ranged over, and the scanner reports the references without a value. The side
  conditions (no dollar sign in literals and values, no dollar sign or closing brace in names)
  are what this needs: \<open>replacement_depends_on_range_order\<close> shows a map with a reference inside a
  value, where the result depends on the order.
\<close>

section \<open>Texts as literals and references\<close>

datatype token = Lit string | Ref string

fun render_token :: "token \<Rightarrow> string" where
  "render_token (Lit s) = s"
| "render_token (Ref n) = template_ref n"

definition render :: "token list \<Rightarrow> string" where
  "render ts = concat (map render_token ts)"

text \<open>Literals contain no dollar sign, names neither a dollar sign nor a closing brace.\<close>

definition plain_text :: "string \<Rightarrow> bool" where
  "plain_text s \<longleftrightarrow> CHR ''$'' \<notin> set s"

definition ref_name :: "string \<Rightarrow> bool" where
  "ref_name n \<longleftrightarrow> CHR ''$'' \<notin> set n \<and> CHR ''}'' \<notin> set n"

fun wf_token :: "token \<Rightarrow> bool" where
  "wf_token (Lit s) = plain_text s"
| "wf_token (Ref n) = ref_name n"

fun subst_token :: "(string \<Rightarrow> string option) \<Rightarrow> token \<Rightarrow> token" where
  "subst_token \<sigma> (Lit s) = Lit s"
| "subst_token \<sigma> (Ref n) = (case \<sigma> n of Some v \<Rightarrow> Lit v | None \<Rightarrow> Ref n)"

definition values_plain :: "string gomap \<Rightarrow> bool" where
  "values_plain m \<longleftrightarrow> (\<forall>(n, v) \<in> set m. ref_name n \<and> plain_text v)"

lemma render_simps [simp]:
  "render [] = []" "render (t # ts) = render_token t @ render ts"
  by (simp_all add: render_def)

lemma replace_ref_plain:
  "plain_text l \<Longrightarrow> replace_all (template_ref n) v (l @ s) = l @ replace_all (template_ref n) v s"
  unfolding template_ref_def plain_text_def
  using replace_all_prefix_absent[of "CHR ''$''" l "CHR ''{'' # n @ ''}''" v s] by simp

lemma prefix_ref_iff:
  assumes "ref_name n" "ref_name m"
  shows "prefix (template_ref n) (template_ref m @ s) \<longleftrightarrow> n = m"
proof
  assume "prefix (template_ref n) (template_ref m @ s)"
  then obtain r where "n @ CHR ''}'' # r = m @ CHR ''}'' # s"
    by (auto simp: template_ref_def prefix_def)
  moreover have "CHR ''}'' \<notin> set n" "CHR ''}'' \<notin> set m"
    using assms by (auto simp: ref_name_def)
  ultimately show "n = m" by (rule split_at_first)
qed (simp add: template_ref_def)

lemma replace_ref_other:
  assumes "ref_name n" "ref_name m" "n \<noteq> m"
  shows "replace_all (template_ref n) v (template_ref m @ s) =
         template_ref m @ replace_all (template_ref n) v s"
proof -
  have no: "\<not> prefix (template_ref n) (template_ref m @ s)"
    using prefix_ref_iff assms by blast
  have pl: "plain_text (''{'' @ m @ ''}'')"
    using assms(2) by (auto simp: plain_text_def ref_name_def)
  have "replace_all (template_ref n) v (template_ref m @ s) =
        CHR ''$'' # replace_all (template_ref n) v ((''{'' @ m @ ''}'') @ s)"
    using no by (simp add: template_ref_def)
  also have "\<dots> = template_ref m @ replace_all (template_ref n) v s"
    unfolding replace_ref_plain[OF pl] by (simp add: template_ref_def)
  finally show ?thesis .
qed

lemma replace_ref_same:
  "replace_all (template_ref n) v (template_ref n @ s) = v @ replace_all (template_ref n) v s"
  by (simp add: template_ref_def)

lemma replace_all_render:
  assumes "ref_name n" "list_all wf_token ts"
  shows "replace_all (template_ref n) v (render ts) =
         render (map (subst_token [n \<mapsto> v]) ts)"
  using assms(2)
proof (induction ts)
  case (Cons t ts)
  show ?case
  proof (cases t)
    case (Lit l)
    with Cons show ?thesis by (simp add: replace_ref_plain)
  next
    case (Ref m)
    then show ?thesis using Cons assms(1)
      by (cases "m = n") (simp_all add: replace_ref_same replace_ref_other)
  qed
qed simp

lemma subst_token_wf:
  "plain_text v \<Longrightarrow> wf_token t \<Longrightarrow> wf_token (subst_token [n \<mapsto> v] t)"
  by (cases t) auto

lemma subst_token_compose:
  "subst_token \<sigma> (subst_token [n \<mapsto> v] t) = subst_token (\<sigma>(n \<mapsto> v)) t"
  by (cases t) auto

lemma subst_token_wf_map:
  "values_plain m \<Longrightarrow> wf_token t \<Longrightarrow> wf_token (subst_token (map_of m) t)"
  by (cases t) (auto simp: values_plain_def split: option.splits dest!: map_of_SomeD)

text \<open>One map: iterated replacement is simultaneous substitution.\<close>

lemma replace_entries_render:
  assumes "values_plain m" "wf_map m" "list_all wf_token ts"
  shows "replace_entries m (render ts) = render (map (subst_token (map_of m)) ts)"
  using assms
proof (induction m arbitrary: ts)
  case Nil
  have "subst_token Map.empty t = t" for t by (cases t) auto
  then show ?case by simp
next
  case (Cons nv m)
  obtain n v where nv: "nv = (n, v)" by fastforce
  have p: "ref_name n" "plain_text v" "values_plain m" "wf_map m"
    using Cons.prems nv by (auto simp: values_plain_def)
  let ?ts = "map (subst_token [n \<mapsto> v]) ts"
  have wf: "list_all wf_token ?ts"
    using Cons.prems(3) p(2) by (auto simp: list_all_iff subst_token_wf)
  have fresh: "(map_of m)(n \<mapsto> v) = map_of ((n, v) # m)" by simp
  have "replace_entries (nv # m) (render ts) = replace_entries m (render ?ts)"
    using nv p(1) Cons.prems(3) by (simp add: replace_all_render)
  also have "\<dots> = render (map (subst_token (map_of m)) ?ts)"
    using Cons.IH p wf by blast
  also have "map (subst_token (map_of m)) ?ts = map (subst_token (map_of (nv # m))) ts"
    using nv by (simp add: subst_token_compose)
  finally show ?case .
qed

text \<open>Several maps: an earlier one takes precedence.\<close>

lemma subst_token_add:
  "subst_token \<tau> (subst_token \<sigma> t) = subst_token (\<tau> ++ \<sigma>) t"
  by (cases t) (auto simp: map_add_def split: option.splits)

lemma ReplaceTemplate_render:
  assumes "range_order ord" "list_all wf_map maps" "list_all values_plain maps"
    and "list_all wf_token ts"
  shows "ReplaceTemplateVariablesInString ord l (render ts) maps =
         render (map (subst_token (map_of (concat maps))) ts)"
  using assms(2-)
proof (induction maps arbitrary: l ts)
  case Nil
  have "subst_token Map.empty t = t" for t by (cases t) auto
  then show ?case by simp
next
  case (Cons m maps)
  then have m: "wf_map m" "values_plain m" by simp_all
  have vp: "values_plain (go_range ord l m)"
    using m by (simp add: values_plain_def go_range_facts[OF assms(1)])
  have "replace_entries (go_range ord l m) (render ts) = render (map (subst_token (map_of m)) ts)"
    using replace_entries_render[OF vp _ Cons.prems(3)] go_range_facts[OF assms(1) m(1), of l]
    by simp
  moreover have "list_all wf_token (map (subst_token (map_of m)) ts)"
    using Cons.prems(3) m(2) by (auto simp: list_all_iff subst_token_wf_map)
  ultimately show ?case using Cons by (simp add: subst_token_add comp_def)
qed

section \<open>Unresolved references\<close>

lemma unique_entries_set: "set (unique_entries ks es) = set es - set ks"
  by (induction ks es rule: unique_entries.induct) auto

lemma unique_entries_distinct: "distinct (unique_entries ks es)"
  by (induction ks es rule: unique_entries.induct) (auto simp: unique_entries_set)

definition valid_name :: "string \<Rightarrow> bool" where
  "valid_name n \<longleftrightarrow> n \<noteq> [] \<and> list_all tmpl_char n"

lemma tmpl_char_not [simp]: "\<not> tmpl_char (CHR ''$'')" "\<not> tmpl_char (CHR ''{'')" "\<not> tmpl_char (CHR ''}'')"
  by (simp_all add: tmpl_char_def char_class_defs)

lemma find_templates_plain: "plain_text l \<Longrightarrow> find_templates (l @ s) = find_templates s"
  by (induction l) (auto simp: plain_text_def)

lemma find_templates_ref:
  assumes "ref_name n"
  shows "find_templates (template_ref n @ s) =
         (if valid_name n then template_ref n # find_templates s else find_templates s)"
proof (cases "list_all tmpl_char n")
  case True
  then have "takeWhile tmpl_char (n @ CHR ''}'' # s) = n" "dropWhile tmpl_char (n @ CHR ''}'' # s) = CHR ''}'' # s"
    by (simp_all add: list_all_iff takeWhile_append2 dropWhile_append2)
  moreover have "find_templates (''{'' @ n @ ''}'' @ s) = find_templates s"
    using find_templates_plain[of "''{'' @ n @ ''}''" s] assms by (simp add: plain_text_def ref_name_def)
  ultimately show ?thesis using True by (simp add: template_ref_def valid_name_def)
next
  case False
  have ne: "dropWhile tmpl_char n \<noteq> []" using False by (auto simp: list_all_iff)
  then have dw: "dropWhile tmpl_char (n @ CHR ''}'' # s) = dropWhile tmpl_char n @ CHR ''}'' # s"
    by (metis dropWhile_append1 dropWhile_eq_Nil_conv)
  have "hd (dropWhile tmpl_char n) \<in> set n"
    using ne by (meson hd_in_set set_dropWhileD)
  then have "hd (dropWhile tmpl_char n) \<noteq> CHR ''}''" using assms by (auto simp: ref_name_def)
  then have "hd (dropWhile tmpl_char (n @ CHR ''}'' # s)) \<noteq> CHR ''}''" using dw ne by simp
  moreover have "find_templates (''{'' @ n @ ''}'' @ s) = find_templates s"
    using find_templates_plain[of "''{'' @ n @ ''}''" s] assms by (simp add: plain_text_def ref_name_def)
  ultimately show ?thesis using False by (simp add: template_ref_def valid_name_def)
qed

fun ref_names :: "token list \<Rightarrow> string list" where
  "ref_names [] = []"
| "ref_names (Lit s # ts) = ref_names ts"
| "ref_names (Ref n # ts) = n # ref_names ts"

lemma find_templates_render:
  "list_all wf_token ts \<Longrightarrow>
   find_templates (render ts) = map template_ref (filter valid_name (ref_names ts))"
  by (induction ts rule: ref_names.induct) (simp_all add: find_templates_plain find_templates_ref)

lemma ref_names_subst:
  "ref_names (map (subst_token \<sigma>) ts) = filter (\<lambda>n. \<sigma> n = None) (ref_names ts)"
  by (induction ts rule: ref_names.induct) (auto split: option.splits)

text \<open>What is reported as unresolved: the references whose name no map defines.\<close>

lemma unresolved_after_replacement:
  assumes "range_order ord" "list_all wf_map maps" "list_all values_plain maps"
    and "list_all wf_token ts"
  shows "set (GetUnresolvedTemplatesFromString
           (ReplaceTemplateVariablesInString ord l (render ts) maps)) =
         template_ref ` {n \<in> set (ref_names ts). valid_name n \<and> n \<notin> fst ` set (concat maps)}"
proof -
  have "list_all values_plain maps \<Longrightarrow> values_plain (concat maps)"
    by (induction maps) (auto simp: values_plain_def)
  then have wf: "list_all wf_token (map (subst_token (map_of (concat maps))) ts)"
    using assms(3,4) by (auto simp: list_all_iff intro: subst_token_wf_map)
  show ?thesis
    unfolding ReplaceTemplate_render[OF assms] GetUnresolvedTemplatesFromString_def
      unique_entries_set find_templates_render[OF wf] ref_names_subst
    by (auto simp: map_of_eq_None_iff)
qed

section \<open>The scanner on arbitrary text\<close>

lemma sublist_skip:
  assumes "c \<notin> set l"
  shows "sublist (c # p) (l @ s) \<longleftrightarrow> sublist (c # p) s"
  using assms by (induction l) (auto simp: sublist_Cons_right)

lemma template_ref_split:
  assumes "valid_name n"
  shows "prefix (template_ref n) s \<longleftrightarrow>
         (\<exists>r. s = ''${'' @ r \<and> takeWhile tmpl_char r = n \<and> dropWhile tmpl_char r \<noteq> [] \<and>
              hd (dropWhile tmpl_char r) = CHR ''}'')"
proof
  assume "prefix (template_ref n) s"
  then obtain t where s: "s = ''${'' @ n @ CHR ''}'' # t"
    by (auto simp: template_ref_def prefix_def)
  have "takeWhile tmpl_char (n @ CHR ''}'' # t) = n"
    "dropWhile tmpl_char (n @ CHR ''}'' # t) = CHR ''}'' # t"
    using assms by (simp_all add: valid_name_def list_all_iff takeWhile_append2 dropWhile_append2)
  with s show "\<exists>r. s = ''${'' @ r \<and> takeWhile tmpl_char r = n \<and> dropWhile tmpl_char r \<noteq> [] \<and>
              hd (dropWhile tmpl_char r) = CHR ''}''"
    by (intro exI[of _ "n @ CHR ''}'' # t"]) simp
next
  assume "\<exists>r. s = ''${'' @ r \<and> takeWhile tmpl_char r = n \<and> dropWhile tmpl_char r \<noteq> [] \<and>
              hd (dropWhile tmpl_char r) = CHR ''}''"
  then obtain r where r: "s = ''${'' @ r" "takeWhile tmpl_char r = n" "dropWhile tmpl_char r \<noteq> []"
    "hd (dropWhile tmpl_char r) = CHR ''}''" by blast
  then have "dropWhile tmpl_char r = CHR ''}'' # tl (dropWhile tmpl_char r)"
    by (metis list.collapse)
  then have "r = n @ CHR ''}'' # tl (dropWhile tmpl_char r)"
    using r(2) by (metis takeWhile_dropWhile_id)
  then have "s = template_ref n @ tl (dropWhile tmpl_char r)"
    using r(1) by (simp add: template_ref_def)
  then show "prefix (template_ref n) s" by simp
qed

lemma valid_name_no_special:
  "valid_name n \<Longrightarrow> CHR ''$'' \<notin> set n \<and> CHR ''{'' \<notin> set n \<and> CHR ''}'' \<notin> set n"
  by (auto simp: valid_name_def list_all_iff dest: bspec)

text \<open>The scan finds a reference at a position exactly when one starts there.\<close>

definition template_here :: "char \<Rightarrow> string \<Rightarrow> bool" where
  "template_here c cs \<longleftrightarrow> c = CHR ''$'' \<and> cs \<noteq> [] \<and> hd cs = CHR ''{'' \<and> takeWhile tmpl_char (tl cs) \<noteq> [] \<and>
     dropWhile tmpl_char (tl cs) \<noteq> [] \<and> hd (dropWhile tmpl_char (tl cs)) = CHR ''}''"

lemma template_here_valid: "template_here c cs \<Longrightarrow> valid_name (takeWhile tmpl_char (tl cs))"
  by (auto simp: template_here_def valid_name_def list_all_iff dest: set_takeWhileD)

lemma template_here_split:
  assumes "template_here c cs"
  shows "c # cs = template_ref (takeWhile tmpl_char (tl cs)) @ tl (dropWhile tmpl_char (tl cs))"
proof -
  let ?n = "takeWhile tmpl_char (tl cs)" and ?rest = "tl (dropWhile tmpl_char (tl cs))"
  have "tl cs = ?n @ CHR ''}'' # ?rest"
    using assms unfolding template_here_def by (metis list.collapse takeWhile_dropWhile_id)
  moreover have "cs = CHR ''{'' # tl cs" using assms unfolding template_here_def by (metis list.collapse)
  ultimately show ?thesis
    using assms unfolding template_here_def template_ref_def by (metis append.simps append_assoc)
qed

lemma template_here_iff: "template_here c cs \<longleftrightarrow> (\<exists>n. valid_name n \<and> prefix (template_ref n) (c # cs))"
proof
  assume h: "template_here c cs"
  then show "\<exists>n. valid_name n \<and> prefix (template_ref n) (c # cs)"
    using template_here_valid[OF h] template_here_split[OF h] by (metis prefixI)
next
  assume "\<exists>n. valid_name n \<and> prefix (template_ref n) (c # cs)"
  then obtain n where n: "valid_name n" "prefix (template_ref n) (c # cs)" by blast
  then obtain r where "c # cs = ''${'' @ r" "takeWhile tmpl_char r = n" "dropWhile tmpl_char r \<noteq> []"
    "hd (dropWhile tmpl_char r) = CHR ''}''" using template_ref_split by blast
  then show "template_here c cs" using n(1) by (auto simp: template_here_def valid_name_def)
qed

lemma find_templates_set:
  "set (find_templates s) = {template_ref n | n. valid_name n \<and> sublist (template_ref n) s}"
proof (induction s rule: find_templates.induct)
  case 1
  then show ?case by (auto simp: template_ref_def)
next
  case (2 c cs)
  let ?n = "takeWhile tmpl_char (tl cs)" and ?rest = "tl (dropWhile tmpl_char (tl cs))"
  show ?case
  proof (cases "template_here c cs")
    case True
    note vn = template_here_valid[OF True] and split = template_here_split[OF True]
    have "sublist (template_ref m) (c # cs) \<longleftrightarrow> m = ?n \<or> sublist (template_ref m) ?rest"
      if m: "valid_name m" for m
    proof -
      have body: "CHR ''$'' \<notin> set (''{'' @ ?n @ ''}'')" using valid_name_no_special[OF vn] by simp
      have "sublist (template_ref m) (c # cs) \<longleftrightarrow>
            prefix (template_ref m) (template_ref ?n @ ?rest) \<or>
            sublist (template_ref m) ((''{'' @ ?n @ ''}'') @ ?rest)"
        unfolding split by (simp add: sublist_Cons_right template_ref_def)
      also have "prefix (template_ref m) (template_ref ?n @ ?rest) \<longleftrightarrow> m = ?n"
        by (rule prefix_ref_iff) (use m vn valid_name_no_special in \<open>auto simp: ref_name_def\<close>)
      also have "sublist (template_ref m) ((''{'' @ ?n @ ''}'') @ ?rest) \<longleftrightarrow> sublist (template_ref m) ?rest"
        unfolding template_ref_def using sublist_skip[OF body, of "''{'' @ m @ ''}''" ?rest] by simp
      finally show ?thesis .
    qed
    then have "{template_ref m | m. valid_name m \<and> sublist (template_ref m) (c # cs)} =
      insert (template_ref ?n) {template_ref m | m. valid_name m \<and> sublist (template_ref m) ?rest}"
      using vn by blast
    with True "2.IH"(1) show ?thesis by (simp add: template_here_def)
  next
    case False
    have "sublist (template_ref m) (c # cs) \<longleftrightarrow> sublist (template_ref m) cs" if "valid_name m" for m
      using False that unfolding template_here_iff by (auto simp: sublist_Cons_right)
    with False "2.IH"(2) show ?thesis unfolding template_here_def by auto
  qed
qed

lemma GetUnresolved_Nil:
  "GetUnresolvedTemplatesFromString s = [] \<longleftrightarrow>
   (\<nexists>n. valid_name n \<and> sublist (template_ref n) s)"
proof -
  have "GetUnresolvedTemplatesFromString s = [] \<longleftrightarrow> set (GetUnresolvedTemplatesFromString s) = {}" by simp
  then show ?thesis
    by (auto simp: GetUnresolvedTemplatesFromString_def unique_entries_set find_templates_set)
qed


section \<open>Properties\<close>

text \<open>
  C7. On a text made of literals and references, with no dollar sign in a literal or a value and none
  and no closing brace in a name, \<^verbatim>\<open>ReplaceTemplateVariablesInString\<close> computes the simultaneous
  substitution of the defined names, an earlier template getter taking precedence, for every
  iteration order of the Go maps. With a reference inside a value the order matters
  (\<open>replacement_depends_on_range_order\<close>).
\<close>

theorem replacement_is_simultaneous_substitution:
  assumes "range_order ord" "list_all wf_map maps" "list_all values_plain maps"
    and "list_all wf_token ts"
  shows "ReplaceTemplateVariablesInString ord l (render ts) maps =
         render (map (subst_token (map_of (concat maps))) ts)"
  using assms by (rule ReplaceTemplate_render)

theorem replacement_is_simultaneous_substitution_witness:
  "ReplaceTemplateVariablesInString (\<lambda>l ks. rev ks) 0
     (render [Lit ''Host '', Ref ''site.name'', Lit ''-'', Ref ''extra'', Ref ''other''])
     [[(''site.name'', ''mysite''), (''extra'', ''bonus'')], [(''extra'', ''late'')]] =
   render [Lit ''Host '', Lit ''mysite'', Lit ''-'', Lit ''bonus'', Ref ''other'']"
  by (subst replacement_is_simultaneous_substitution)
     (simp_all add: values_plain_def ref_name_def plain_text_def)

text \<open>
  \<^verbatim>\<open>GetUnresolvedTemplatesFromString\<close> returns, without duplicates, exactly the references
  \<^verbatim>\<open>${name}\<close> with a non-empty name over \<^verbatim>\<open>[-_a-zA-Z0-9.]\<close> that occur in the text.
\<close>

theorem unresolved_scanner_exact:
  "distinct (GetUnresolvedTemplatesFromString s) \<and>
   set (GetUnresolvedTemplatesFromString s) =
     {template_ref n | n. valid_name n \<and> sublist (template_ref n) s}"
  by (simp add: GetUnresolvedTemplatesFromString_def unique_entries_distinct unique_entries_set
      find_templates_set)

text \<open>
  C36. \<^verbatim>\<open>ReplaceTemplateVariablesInPodSpec\<close>, on a spec whose YAML text is made of literals and
  references, with no dollar sign in a literal or a value and none and no closing brace in a name: when every well-formed reference has a value, the result is what the codec reads
  from the substituted text; otherwise it is an \<^verbatim>\<open>UnresolvedTemplatesError\<close> for the pod spec that
  lists the references without a value in order of first occurrence, and nothing is decoded.
\<close>

theorem pod_spec_replacement:
  assumes "range_order ord" "list_all wf_map maps" "list_all values_plain maps"
    and "list_all wf_token ts" "marshal cod spec = Inr (render ts)"
  shows "ReplaceTemplateVariablesInPodSpec cod ord l spec maps =
    (let missing = filter (\<lambda>n. valid_name n \<and> n \<notin> fst ` set (concat maps)) (ref_names ts)
     in if missing = []
        then unmarshal cod (render (map (subst_token (map_of (concat maps))) ts)) spec
        else Inl (UnresolvedTemplatesError (unique_entries [] (map template_ref missing))
                    (GetTemplateVariables ord l maps) ''pod spec'' []))"
proof -
  have "list_all values_plain maps \<Longrightarrow> values_plain (concat maps)"
    by (induction maps) (auto simp: values_plain_def)
  then have wf: "list_all wf_token (map (subst_token (map_of (concat maps))) ts)"
    using assms(3,4) by (auto simp: list_all_iff intro: subst_token_wf_map)
  let ?missing = "filter (\<lambda>n. valid_name n \<and> n \<notin> fst ` set (concat maps)) (ref_names ts)"
  have u: "GetUnresolvedTemplatesFromString (ReplaceTemplateVariablesInString ord l (render ts) maps) =
        unique_entries [] (map template_ref ?missing)"
    unfolding ReplaceTemplate_render[OF assms(1-4)] GetUnresolvedTemplatesFromString_def
      find_templates_render[OF wf] ref_names_subst
    by (simp add: map_of_eq_None_iff conj_commute)
  have "unique_entries [] (map template_ref ?missing) = [] \<longleftrightarrow> ?missing = []"
    by (metis (no_types, lifting) list.map_disc_iff list.set(1) set_empty2 unique_entries_set Diff_empty)
  then show ?thesis
    using assms(5) u ReplaceTemplate_render[OF assms(1-4), of l]
    by (simp add: ReplaceTemplateVariablesInPodSpec_def replace_in_object_def Let_def)
qed

definition text_pod_codec :: "pod_spec codec" where
  "text_pod_codec =
     \<lparr>marshal = (\<lambda>p. Inr (ps_rest p)), unmarshal = (\<lambda>s p. Inr (p\<lparr>ps_rest := s\<rparr>))\<rparr>"

theorem pod_spec_replacement_witness:
  "ReplaceTemplateVariablesInPodSpec text_pod_codec (\<lambda>l ks. ks) 0
     \<lparr>ps_containers = [], ps_restart_policy = [], ps_rest = render [Lit ''image: '', Ref ''tag'']\<rparr>
     [[(''tag'', ''v1'')]] =
   Inr \<lparr>ps_containers = [], ps_restart_policy = [], ps_rest = ''image: v1''\<rparr> \<and>
   ReplaceTemplateVariablesInPodSpec text_pod_codec (\<lambda>l ks. ks) 0
     \<lparr>ps_containers = [], ps_restart_policy = [], ps_rest = render [Ref ''tag'', Ref ''x'']\<rparr>
     [[(''tag'', ''v1'')]] =
   Inl (UnresolvedTemplatesError [''${x}''] [''tag''] ''pod spec'' [])"
  by (subst pod_spec_replacement[where ts = "[Lit ''image: '', Ref ''tag'']"],
      (simp add: values_plain_def ref_name_def plain_text_def text_pod_codec_def)+,
      subst pod_spec_replacement[where ts = "[Ref ''tag'', Ref ''x'']"])
     (simp_all add: values_plain_def ref_name_def plain_text_def text_pod_codec_def valid_name_def
        template_ref_def tmpl_char_def char_class_defs go_range_id)

text \<open>
  When a value itself contains a reference, the result of the replacement depends on the
  order in which Go happens to range over the map: the same text and the same map can come out
  fully resolved or with a reference left over.
\<close>

theorem replacement_depends_on_range_order:
  "\<exists>ord1 ord2. range_order ord1 \<and> range_order ord2 \<and>
     GetUnresolvedTemplatesFromString (ReplaceTemplateVariablesInString ord1 0 ''${site.custom.a}''
       [[(''site.custom.a'', ''${site.name}''), (''site.name'', ''shop'')]]) = [] \<and>
     GetUnresolvedTemplatesFromString (ReplaceTemplateVariablesInString ord2 0 ''${site.custom.a}''
       [[(''site.custom.a'', ''${site.name}''), (''site.name'', ''shop'')]]) = [''${site.name}'']"
  by (rule exI[of _ "\<lambda>l ks. ks"], rule exI[of _ "\<lambda>l ks. rev ks"]) (intro conjI range_order_id range_order_rev; code_simp)

end
