(* ===== verification/SiteTypes.thy ===== *)
theory SiteTypes
  imports Template "HOL-Library.Word"
begin

text \<open>
  The custom resources \<^verbatim>\<open>StagingSite\<close>, \<^verbatim>\<open>ServiceConfig\<close>, \<^verbatim>\<open>MysqlConfig\<close>, \<^verbatim>\<open>MongoConfig\<close> and
  \<^verbatim>\<open>RedisConfig\<close> (\<^verbatim>\<open>apis/site/v1\<close>, \<^verbatim>\<open>apis/config/v1\<close>), the label, annotation and index names,
  and the methods of \<^verbatim>\<open>stagingsite_helpers.go\<close>. Go's int and Duration are 64-bit words, int32
  and uint32 are 32-bit words, uint16 is a 16-bit word.
\<close>

section \<open>Labels, annotations and indexes\<close>

definition labels_Site :: string where "labels_Site = ''operator.kube-stager.io/site''"
definition labels_Service :: string where "labels_Service = ''operator.kube-stager.io/service''"
definition labels_MysqlEnvironment :: string where
  "labels_MysqlEnvironment = ''operator.kube-stager.io/mysql-environment''"
definition labels_MongoEnvironment :: string where
  "labels_MongoEnvironment = ''operator.kube-stager.io/mongo-environment''"
definition labels_RedisEnvironment :: string where
  "labels_RedisEnvironment = ''operator.kube-stager.io/redis-environment''"
definition labels_Type :: string where "labels_Type = ''operator.kube-stager.io/type''"
definition labels_JobName :: string where "labels_JobName = ''operator.kube-stager.io/job-name''"
definition labels_MongoEnvironmentsPrefix :: string where
  "labels_MongoEnvironmentsPrefix = ''mongo.environments.operator.kube-stager.io/''"
definition labels_MysqlEnvironmentsPrefix :: string where
  "labels_MysqlEnvironmentsPrefix = ''mysql.environments.operator.kube-stager.io/''"
definition labels_RedisEnvironmentsPrefix :: string where
  "labels_RedisEnvironmentsPrefix = ''redis.environments.operator.kube-stager.io/''"
definition labels_ServicesPrefix :: string where
  "labels_ServicesPrefix = ''services.operator.kube-stager.io/''"

definition StagingSiteLastSpecChangeAt :: string where
  "StagingSiteLastSpecChangeAt = ''operator.kube-stager.io/last-spec-change-at''"

definition index_ShortName :: string where "index_ShortName = ''.spec.shortName''"
definition index_SiteName :: string where "index_SiteName = ''.spec.siteName''"
definition index_DefaultMongoEnvironment :: string where
  "index_DefaultMongoEnvironment = ''.spec.defaultMongoEnvironment''"
definition index_DefaultMysqlEnvironment :: string where
  "index_DefaultMysqlEnvironment = ''.spec.defaultMysqlEnvironment''"
definition index_DefaultRedisEnvironment :: string where
  "index_DefaultRedisEnvironment = ''.spec.defaultRedisEnvironment''"

lemmas label_defs = labels_Site_def labels_Service_def labels_MysqlEnvironment_def
  labels_MongoEnvironment_def labels_RedisEnvironment_def labels_Type_def labels_JobName_def

lemma labels_distinct [simp]:
  "labels_Site \<noteq> labels_Service" "labels_Service \<noteq> labels_Site"
  "labels_Site \<noteq> labels_MysqlEnvironment" "labels_Site \<noteq> labels_MongoEnvironment"
  "labels_Site \<noteq> labels_RedisEnvironment" "labels_Service \<noteq> labels_MysqlEnvironment"
  "labels_Service \<noteq> labels_MongoEnvironment" "labels_Service \<noteq> labels_RedisEnvironment"
  "labels_Site \<noteq> labels_Type" "labels_Service \<noteq> labels_Type" "labels_JobName \<noteq> labels_Type"
  "labels_Type \<noteq> labels_JobName" "labels_JobName \<noteq> labels_Site" "labels_JobName \<noteq> labels_Service"
  by (simp_all add: label_defs)


section \<open>Environment and service configurations\<close>

record mysql_config =
  myc_meta :: object_meta
  myc_host :: string
  myc_username :: string
  myc_password :: string
  myc_port :: "16 word"

record mongo_config =
  moc_meta :: object_meta
  moc_host1 :: string
  moc_host2 :: string
  moc_host3 :: string
  moc_username :: string
  moc_password :: string
  moc_port :: "16 word"

record redis_config =
  rec_meta :: object_meta
  rec_host :: string
  rec_available :: "32 word"
  rec_port :: "16 word"
  rec_tls :: "bool option"
  rec_verify :: "bool option"
  rec_password :: string

record service_config =
  sc_meta :: object_meta
  sc_short_name :: string
  sc_config_maps :: "string gomap gomap"
  sc_custom_values :: "string gomap"
  sc_deployment_pod_spec :: pod_spec
  sc_db_init_pod_spec :: "pod_spec option"
  sc_migration_pod_spec :: "pod_spec option"
  sc_backup_pod_spec :: "pod_spec option"
  sc_service_spec :: "service_spec option"
  sc_ingress_spec :: "ingress_spec option"
  sc_ingress_annotations :: "string gomap"
  sc_default_mongo :: string
  sc_default_mysql :: string
  sc_default_redis :: string

abbreviation sc_name :: "service_config \<Rightarrow> string" where
  "sc_name c \<equiv> om_name (sc_meta c)"


section \<open>Staging sites\<close>

record site_service =
  svc_image_tag :: string
  svc_replicas :: "32 word"
  svc_resource_overrides :: "string gomap"
  svc_mysql_env :: string
  svc_mongo_env :: string
  svc_redis_env :: string
  svc_include_in_backups :: bool
  svc_init_source :: string
  svc_extra_envs :: "string gomap"
  svc_custom_values :: "string gomap"

definition zero_service :: site_service where
  "zero_service =
     \<lparr>svc_image_tag = [], svc_replicas = 0, svc_resource_overrides = [], svc_mysql_env = [],
      svc_mongo_env = [], svc_redis_env = [], svc_include_in_backups = False,
      svc_init_source = [], svc_extra_envs = [], svc_custom_values = []\<rparr>"

record time_interval =
  ti_never :: bool
  ti_days :: "64 word"
  ti_hours :: "64 word"
  ti_minutes :: "64 word"

record site_spec =
  sp_domain_prefix :: string
  sp_db_name :: string
  sp_username :: string
  sp_password :: string
  sp_enabled :: bool
  sp_disable_after :: time_interval
  sp_delete_after :: time_interval
  sp_backup_before_delete :: bool
  sp_backup_hour :: "32 word option"
  sp_services :: "site_service gomap"
  sp_include_all :: bool

text \<open>The empty string is the zero value of the two enumerations.\<close>

datatype site_state = StateUnset | StatePending | StateComplete | StateFailed

datatype workload_health =
  WorkloadHealthUnset | WorkloadHealthHealthy | WorkloadHealthUnhealthy | WorkloadHealthIncomplete

record deployment_status =
  ds_ready_replicas :: "32 word"
  ds_rest :: string

record service_status =
  sst_username :: string
  sst_db_name :: string
  sst_redis_number :: "32 word"
  sst_deployment :: deployment_status

definition zero_deployment_status :: deployment_status where
  "zero_deployment_status = \<lparr>ds_ready_replicas = 0, ds_rest = []\<rparr>"

definition zero_service_status :: service_status where
  "zero_service_status =
     \<lparr>sst_username = [], sst_db_name = [], sst_redis_number = 0,
      sst_deployment = zero_deployment_status\<rparr>"

record site_status =
  su_db_created :: bool
  su_db_initialised :: bool
  su_db_migrated :: bool
  su_configs :: bool
  su_networking :: bool
  su_workloads :: bool
  su_last_applied :: "time option"
  su_disable_at :: "time option"
  su_delete_at :: "time option"
  su_enabled :: bool
  su_state :: site_state
  su_health :: workload_health
  su_error :: string
  su_services :: "service_status gomap"
  su_last_backup :: "time option"
  su_next_backup :: "time option"

record staging_site =
  st_meta :: object_meta
  st_spec :: site_spec
  st_status :: site_status

abbreviation st_name :: "staging_site \<Rightarrow> string" where
  "st_name s \<equiv> om_name (st_meta s)"

abbreviation st_namespace :: "staging_site \<Rightarrow> string" where
  "st_namespace s \<equiv> om_namespace (st_meta s)"

abbreviation site_services :: "staging_site \<Rightarrow> site_service gomap" where
  "site_services s \<equiv> sp_services (st_spec s)"


section \<open>Methods\<close>

definition GetServiceStatus :: "staging_site \<Rightarrow> string \<Rightarrow> service_status option" where
  "GetServiceStatus r serviceName = map_of (su_services (st_status r)) serviceName"

definition isTimeIntervalEmpty :: "time_interval \<Rightarrow> bool" where
  "isTimeIntervalEmpty i \<longleftrightarrow> \<not> ti_never i \<and> ti_days i = 0 \<and> ti_hours i = 0 \<and> ti_minutes i = 0"

definition site_service_of :: "staging_site \<Rightarrow> string \<Rightarrow> site_service" where
  "site_service_of r name = lookup_or zero_service (site_services r) name"

definition GetMongoConfigForService :: "staging_site \<Rightarrow> service_config \<Rightarrow> string" where
  "GetMongoConfigForService r c =
     (if svc_mongo_env (site_service_of r (sc_name c)) \<noteq> []
      then svc_mongo_env (site_service_of r (sc_name c)) else sc_default_mongo c)"

definition GetMysqlConfigForService :: "staging_site \<Rightarrow> service_config \<Rightarrow> string" where
  "GetMysqlConfigForService r c =
     (if svc_mysql_env (site_service_of r (sc_name c)) \<noteq> []
      then svc_mysql_env (site_service_of r (sc_name c)) else sc_default_mysql c)"

definition GetRedisConfigForService :: "staging_site \<Rightarrow> service_config \<Rightarrow> string" where
  "GetRedisConfigForService r c =
     (if svc_redis_env (site_service_of r (sc_name c)) \<noteq> []
      then svc_redis_env (site_service_of r (sc_name c)) else sc_default_redis c)"

text \<open>Nanoseconds in a signed 64-bit word, with Go's wrap-around.\<close>

definition ToDuration :: "time_interval \<Rightarrow> 64 word" where
  "ToDuration r =
     60000000000 * ti_minutes r + 3600000000000 * ti_hours r + 3600000000000 * 24 * ti_days r"

text \<open>\<^verbatim>\<open>time.Time.Add\<close> takes a signed duration.\<close>

definition time_add :: "time \<Rightarrow> 64 word \<Rightarrow> time" where
  "time_add t d = t + sint d"

text \<open>\<^verbatim>\<open>t.Sub(u)\<close> stops at the longest and the shortest duration.\<close>

definition time_sub :: "time \<Rightarrow> time \<Rightarrow> int" where
  "time_sub t u = max (- (2 ^ 63)) (min (2 ^ 63 - 1) (t - u))"

definition GetDummySite :: "string \<Rightarrow> string \<Rightarrow> staging_site" where
  "GetDummySite serviceName namespace =
     \<lparr>st_meta = new_meta ''dummy'' namespace [],
      st_spec =
        \<lparr>sp_domain_prefix = ''dummy'', sp_db_name = ''dummy'', sp_username = ''dummy'',
         sp_password = ''dummy'', sp_enabled = False,
         sp_disable_after = \<lparr>ti_never = True, ti_days = 0, ti_hours = 0, ti_minutes = 0\<rparr>,
         sp_delete_after = \<lparr>ti_never = True, ti_days = 0, ti_hours = 0, ti_minutes = 0\<rparr>,
         sp_backup_before_delete = False, sp_backup_hour = None,
         sp_services =
           [(serviceName, zero_service\<lparr>svc_image_tag := ''latest'', svc_replicas := 1,
               svc_include_in_backups := False, svc_init_source := ''master''\<rparr>)],
         sp_include_all = False\<rparr>,
      st_status =
        \<lparr>su_db_created = False, su_db_initialised = False, su_db_migrated = False,
         su_configs = False, su_networking = False, su_workloads = False,
         su_last_applied = None, su_disable_at = None, su_delete_at = None, su_enabled = False,
         su_state = StateUnset, su_health = WorkloadHealthUnset, su_error = [],
         su_services = [], su_last_backup = None, su_next_backup = None\<rparr>\<rparr>"


section \<open>Durations\<close>

definition interval_minutes :: "time_interval \<Rightarrow> int" where
  "interval_minutes i = sint (ti_minutes i) + 60 * sint (ti_hours i) + 1440 * sint (ti_days i)"

lemma ToDuration_of_int: "ToDuration i = of_int (60000000000 * interval_minutes i)"
  by (simp add: ToDuration_def interval_minutes_def algebra_simps)

lemma sint_of_int_64: "- (2 ^ 63) \<le> k \<Longrightarrow> k < 2 ^ 63 \<Longrightarrow> sint (word_of_int k :: 64 word) = k"
  by (simp add: sint_sbintrunc' signed_take_bit_int_eq_self)

lemma ToDuration_exact:
  assumes "- (2 ^ 63) \<le> 60000000000 * interval_minutes i" "60000000000 * interval_minutes i < 2 ^ 63"
  shows "sint (ToDuration i) = 60000000000 * interval_minutes i"
  unfolding ToDuration_of_int by (rule sint_of_int_64[OF assms])

text \<open>
  \<^verbatim>\<open>TimeInterval.ToDuration\<close> adds up days, hours and minutes as the documentation of the fields
  says, as long as the sum fits a 64-bit number of nanoseconds, and then moves an instant by
  exactly that many minutes.
\<close>

theorem interval_additive:
  assumes "- 153722867 \<le> interval_minutes i" "interval_minutes i \<le> 153722867"
  shows "time_add t (ToDuration i) = t + 60 * 10 ^ 9 *
           (sint (ti_minutes i) + 60 * sint (ti_hours i) + 24 * 60 * sint (ti_days i))"
proof -
  have "sint (ToDuration i) = 60000000000 * interval_minutes i"
    by (rule ToDuration_exact) (use assms in simp_all)
  then show ?thesis by (simp add: time_add_def interval_minutes_def)
qed

theorem interval_additive_witness:
  "time_add 0 (ToDuration \<lparr>ti_never = False, ti_days = 1, ti_hours = 25, ti_minutes = 90\<rparr>) =
   60 * 10 ^ 9 * (30 + 60 * 2 + 24 * 60 * 2)"
  by (subst interval_additive) (simp_all add: interval_minutes_def)

text \<open>
  An interval of 106752 days, which the resource accepts, wraps around to a duration in the
  past: a site that asks to be deleted after about 292 years is due for deletion at once.
\<close>

theorem long_interval_wraps:
  "sint (ToDuration \<lparr>ti_never = False, ti_days = 106752, ti_hours = 0, ti_minutes = 0\<rparr>) < 0 \<and>
   0 < sint (ToDuration \<lparr>ti_never = False, ti_days = 106751, ti_hours = 0, ti_minutes = 0\<rparr>)"
  by (simp add: ToDuration_def)

end
