(* ===== verification/Naming.thy ===== *)
theory Naming
  imports SiteTypes
begin

text \<open>
  \<^verbatim>\<open>apis/helpers.go\<close>: the names that the operator derives from a site and a service, for
  databases, database users and Kubernetes objects. The theorems say that the names are legal
  where they are used, that a site never gives two services the same name, and where two sites
  can collide.
\<close>

definition MakeDatabaseName :: "digest \<Rightarrow> staging_site \<Rightarrow> service_config \<Rightarrow> string" where
  "MakeDatabaseName md5 site service =
     replace_all ''-'' ''_''
       (ShortenHumanReadableValue md5
          (SanitiseDbValue (sp_db_name (st_spec site)) @ ''_'' @ SanitiseDbValue (sc_short_name service)) 63)"

definition MakeUsername :: "digest \<Rightarrow> staging_site \<Rightarrow> service_config \<Rightarrow> string" where
  "MakeUsername md5 site service =
     SanitiseAndShortenDbValue md5 (sp_username (st_spec site) @ ''_'' @ sc_short_name service) 16"

definition MakeConfigmapName :: "digest \<Rightarrow> staging_site \<Rightarrow> service_config \<Rightarrow> string \<Rightarrow> string" where
  "MakeConfigmapName md5 site service typeName =
     MakeObjectName md5 (st_name site) [sc_short_name service, typeName]"

definition MakeServiceName :: "digest \<Rightarrow> staging_site \<Rightarrow> service_config \<Rightarrow> string" where
  "MakeServiceName md5 site service = MakeObjectName md5 (st_name site) [sc_short_name service]"

definition MakeIngressName :: "digest \<Rightarrow> staging_site \<Rightarrow> service_config \<Rightarrow> string" where
  "MakeIngressName md5 site service = MakeObjectName md5 (st_name site) [sc_short_name service]"

definition MakeDeploymentName :: "digest \<Rightarrow> staging_site \<Rightarrow> service_config \<Rightarrow> string" where
  "MakeDeploymentName md5 site service = MakeObjectName md5 (st_name site) [sc_short_name service]"

definition MakeServiceUrl :: "digest \<Rightarrow> staging_site \<Rightarrow> string \<Rightarrow> string" where
  "MakeServiceUrl md5 site serviceName =
     MakeObjectName md5 (st_name site) [serviceName] @ ''.'' @ st_namespace site @ ''.svc.cluster.local''"

lemmas name_defs = MakeConfigmapName_def MakeServiceName_def MakeIngressName_def MakeDeploymentName_def


section \<open>Legal names\<close>

lemma clean_underscores:
  assumes "list_all (\<lambda>c. db_char c \<or> c = CHR ''-'') s"
  shows "list_all db_char (replace_all ''-'' ''_'' s)"
  using assms by (auto simp: replace_all_char list_all_iff db_char_def)

lemma Shorten_db_chars:
  assumes "digest_ok md5" "list_all db_char s"
  shows "list_all (\<lambda>c. db_char c \<or> c = CHR ''-'') (ShortenHumanReadableValue md5 s n)"
  using assms digest_db_chars[OF assms(1), of 10 s]
  by (auto simp: ShortenHumanReadableValue_def list_all_iff dest: in_set_takeD)

lemma db_char_underscore [simp]: "db_char CHR ''_''"
  by (simp add: db_char_def)

lemma MakeDatabaseName_chars:
  assumes "digest_ok md5"
  shows "list_all db_char (MakeDatabaseName md5 site service)"
  unfolding MakeDatabaseName_def
  by (intro clean_underscores Shorten_db_chars assms) (simp add: SanitiseDbValue_chars)

lemma MakeDatabaseName_length: "length (MakeDatabaseName md5 site service) \<le> 63"
  unfolding MakeDatabaseName_def
  using Shorten_length[of 63 md5] by (fastforce simp: replace_all_char)

lemma MakeDatabaseName_nonempty: "MakeDatabaseName md5 site service \<noteq> []"
  by (simp add: MakeDatabaseName_def replace_all_char ShortenHumanReadableValue_def)

lemma MakeUsername_facts:
  assumes "digest_ok md5"
  shows "length (MakeUsername md5 site service) \<le> 16" "list_all db_char (MakeUsername md5 site service)"
    "MakeUsername md5 site service \<noteq> []"
proof -
  have "int (length (MakeUsername md5 site service)) \<le> 16"
    unfolding MakeUsername_def by (rule SanitiseAndShorten_length) simp
  then show "length (MakeUsername md5 site service) \<le> 16" by simp
  show "list_all db_char (MakeUsername md5 site service)"
    unfolding MakeUsername_def by (rule SanitiseAndShorten_chars[OF assms])
  show "MakeUsername md5 site service \<noteq> []"
    unfolding MakeUsername_def by (rule SanitiseAndShorten_nonempty[OF assms])
      (simp only: SanitiseDbValue_append, simp add: SanitiseDbValue_alt)
qed

text \<open>
  Database names are legal identifiers whatever the site's database name and the service's
  short name are: at most 63 characters from \<^verbatim>\<open>a-z\<close>, \<^verbatim>\<open>A-Z\<close>, \<^verbatim>\<open>0-9\<close> and the underscore;
  user names likewise with at most 16 characters, and neither is ever empty.
\<close>

theorem database_identifiers_legal:
  assumes "digest_ok md5"
  shows "length (MakeDatabaseName md5 site service) \<le> 63 \<and>
         list_all db_char (MakeDatabaseName md5 site service) \<and>
         MakeDatabaseName md5 site service \<noteq> [] \<and>
         length (MakeUsername md5 site service) \<le> 16 \<and>
         list_all db_char (MakeUsername md5 site service) \<and> MakeUsername md5 site service \<noteq> []"
  by (intro conjI MakeDatabaseName_length MakeDatabaseName_chars[OF assms] MakeDatabaseName_nonempty
        MakeUsername_facts[OF assms])

text \<open>A digest that satisfies the law, for the witnesses.\<close>

definition toy_md5 :: digest where
  "toy_md5 s = ''0a1b2c3d4e''"

lemma digest_ok_toy: "digest_ok toy_md5"
  by (simp add: digest_ok_def toy_md5_def char_class_defs)

definition toy_service :: "string \<Rightarrow> string \<Rightarrow> service_config" where
  "toy_service name short =
     \<lparr>sc_meta = new_meta name ''ns'' [], sc_short_name = short, sc_config_maps = [],
      sc_custom_values = [],
      sc_deployment_pod_spec = \<lparr>ps_containers = [], ps_restart_policy = [], ps_rest = []\<rparr>,
      sc_db_init_pod_spec = None, sc_migration_pod_spec = None, sc_backup_pod_spec = None,
      sc_service_spec = None, sc_ingress_spec = None, sc_ingress_annotations = [],
      sc_default_mongo = [], sc_default_mysql = ''my1'', sc_default_redis = []\<rparr>"

definition toy_site :: "string \<Rightarrow> string \<Rightarrow> staging_site" where
  "toy_site name db =
     (GetDummySite ''shop'' ''ns'')\<lparr>st_meta := new_meta name ''ns'' [],
        st_spec := (st_spec (GetDummySite ''shop'' ''ns''))\<lparr>sp_db_name := db, sp_username := db\<rparr>\<rparr>"

lemma toy_names [simp]:
  "st_name (toy_site n d) = n" "st_namespace (toy_site n d) = ''ns''"
  "sp_db_name (st_spec (toy_site n d)) = d" "sp_username (st_spec (toy_site n d)) = d"
  "sc_short_name (toy_service m s) = s" "sc_name (toy_service m s) = m"
  by (simp_all add: toy_site_def toy_service_def)

theorem database_identifiers_legal_witness:
  "length (MakeDatabaseName toy_md5 (toy_site ''s'' ''d-b'') (toy_service ''shop'' ''sh'')) \<le> 63 \<and>
   MakeUsername toy_md5 (toy_site ''s'' ''d-b'') (toy_service ''shop'' ''sh'') \<noteq> []"
  using database_identifiers_legal[OF digest_ok_toy] by blast


section \<open>Distinct names within a site\<close>

lemma underscore_map:
  "map (\<lambda>c. if c = CHR ''-'' then CHR ''_'' else c) s = s" if "list_all db_char s"
  using that db_char_no_dash by (intro map_idI) (auto simp: list_all_iff)

text \<open>
  The text that a database name is made from, and the condition under which shortening does not mix
  up two such texts: either none of them is shortened, or both are and the first ten characters of
  their digests differ when the texts do. With a database name of at most 53 characters and short
  names of at most 9 nothing is shortened.
\<close>

definition name_text :: "staging_site \<Rightarrow> service_config \<Rightarrow> string" where
  "name_text site service =
     SanitiseDbValue (sp_db_name (st_spec site)) @ ''_'' @ SanitiseDbValue (sc_short_name service)"

definition told_apart :: "digest \<Rightarrow> string \<Rightarrow> string \<Rightarrow> bool" where
  "told_apart md5 s t \<longleftrightarrow> length s \<le> 63 \<and> length t \<le> 63 \<or>
     length s > 63 \<and> length t > 63 \<and> (take 10 (md5 s) = take 10 (md5 t) \<longrightarrow> s = t)"

lemma short_texts_told_apart:
  assumes "length (sp_db_name (st_spec site)) \<le> 53" "length (sc_short_name a) \<le> 9" "length (sc_short_name b) \<le> 9"
  shows "told_apart md5 (name_text site a) (name_text site b)"
  using assms length_SanitiseDbValue[of "sp_db_name (st_spec site)"]
    length_SanitiseDbValue[of "sc_short_name a"] length_SanitiseDbValue[of "sc_short_name b"]
  by (simp add: told_apart_def name_text_def)

lemma name_text_chars: "list_all db_char (name_text site service)"
  by (simp add: name_text_def SanitiseDbValue_chars)

lemma MakeDatabaseName_text:
  assumes "digest_ok md5"
  shows "MakeDatabaseName md5 site service =
    (if length (name_text site service) \<le> 63 then name_text site service
     else take 52 (name_text site service) @ ''_'' @ take 10 (md5 (name_text site service)))"
proof -
  have "list_all db_char (take 52 (name_text site service))"
    using name_text_chars[of site service] by (auto simp: list_all_iff dest: in_set_takeD)
  then show ?thesis
    using underscore_map[OF name_text_chars[of site service]] underscore_map digest_db_chars[OF assms, of 10 "name_text site service"]
    unfolding MakeDatabaseName_def name_text_def[symmetric]
    by (simp add: ShortenHumanReadableValue_def replace_all_char)
qed

text \<open>
  C37. Within one site the database names of services are the same exactly when their short names
  agree after sanitising, for every digest made of letters and digits that tells the two full texts
  apart where they are too long for a name.
\<close>

theorem database_names_distinct:
  assumes "digest_ok md5" "told_apart md5 (name_text site a) (name_text site b)"
  shows "MakeDatabaseName md5 site a = MakeDatabaseName md5 site b \<longleftrightarrow>
         SanitiseDbValue (sc_short_name a) = SanitiseDbValue (sc_short_name b)"
proof -
  have "MakeDatabaseName md5 site a = MakeDatabaseName md5 site b \<longleftrightarrow> name_text site a = name_text site b"
    using assms(2) unfolding MakeDatabaseName_text[OF assms(1)] told_apart_def by auto
  then show ?thesis by (simp add: name_text_def)
qed

theorem database_names_distinct_witness:
  "MakeDatabaseName toy_md5 (toy_site ''s'' ''db'') (toy_service ''shop'' ''sh'') \<noteq>
   MakeDatabaseName toy_md5 (toy_site ''s'' ''db'') (toy_service ''api'' ''ap'')"
  by (subst database_names_distinct[OF digest_ok_toy short_texts_told_apart])
    (simp_all add: SanitiseDbValue_clean db_char_def char_class_defs)

text \<open>
  A site's database name may have 63 characters, and the webhook's default can make it that long.
  Then the ten characters of the digest alone tell the services apart: under a digest that does not,
  two services share a name.
\<close>

lemma long_names_rely_on_digest:
  "MakeDatabaseName toy_md5 (toy_site ''s'' (replicate 63 CHR ''d'')) (toy_service ''one'' ''abc'') =
   MakeDatabaseName toy_md5 (toy_site ''s'' (replicate 63 CHR ''d'')) (toy_service ''two'' ''abd'')"
  by code_simp

text \<open>
  Across sites the database names can collide: site database \<^verbatim>\<open>shop_eu\<close> with service \<^verbatim>\<open>api\<close>
  and site database \<^verbatim>\<open>shop\<close> with service \<^verbatim>\<open>eu-api\<close> share one database name, since the
  separator is a character that both parts may contain.
\<close>

theorem database_names_collide_across_sites:
  "MakeDatabaseName md5 (toy_site ''one'' ''shop_eu'') (toy_service ''s1'' ''api'') =
   MakeDatabaseName md5 (toy_site ''two'' ''shop'') (toy_service ''s2'' ''eu-api'')"
  by (simp add: MakeDatabaseName_def SanitiseDbValue_alt db_char_def char_class_defs)


section \<open>Kubernetes object names\<close>

lemma MakeObjectName_suffix:
  "\<exists>p. MakeObjectName md5 b ss = p @ concat (map (\<lambda>s. ''-'' @ s) ss)"
  by (simp add: MakeObjectName_def join_suffixes_eq Let_def)

lemma MakeObjectName_inj:
  assumes "length s = length t" "MakeObjectName md5 b [s] = MakeObjectName md5 b [t]"
  shows "s = t"
  using assms by (auto simp: MakeObjectName_def Let_def)

text \<open>
  Every derived object name fits the 63 characters of a DNS label when the short name has at
  most 9 characters and the type of a
  config map at most 42, however long the site's name is.
\<close>

theorem object_names_fit:
  assumes "length (sc_short_name service) \<le> 9" "length typeName \<le> 42"
  shows "length (MakeServiceName md5 site service) \<le> 63 \<and>
         length (MakeIngressName md5 site service) \<le> 63 \<and>
         length (MakeDeploymentName md5 site service) \<le> 63 \<and>
         length (MakeConfigmapName md5 site service typeName) \<le> 63"
  unfolding name_defs by (intro conjI MakeObjectName_length) (use assms in simp_all)

theorem object_names_fit_witness:
  "length (MakeServiceName toy_md5 (toy_site (replicate 200 CHR ''x'') ''d'') (toy_service ''shop'' ''sh'')) \<le> 63"
  using object_names_fit[of "toy_service ''shop'' ''sh''" "''env''"] by simp

end
