(* ===== verification/SiteTemplate.thy ===== *)
theory SiteTemplate
  imports TemplateMeaning Naming
begin

text \<open>
  \<^verbatim>\<open>handlers/template/site.go\<close>: the values that a service's pod specs, config maps, services and
  ingresses may refer to. The handler is a record; its setters are record updates. \<^verbatim>\<open>NewSite\<close>
  reads the site's services and statuses under the service's name, with zero values for missing
  entries; \<^verbatim>\<open>LoadConfigs\<close> fills in the configurations of the namespace.
\<close>

definition zero_mysql_config :: mysql_config where
  "zero_mysql_config = \<lparr>myc_meta = new_meta [] [] [], myc_host = [], myc_username = [],
     myc_password = [], myc_port = 0\<rparr>"

definition zero_mongo_config :: mongo_config where
  "zero_mongo_config = \<lparr>moc_meta = new_meta [] [] [], moc_host1 = [], moc_host2 = [], moc_host3 = [],
     moc_username = [], moc_password = [], moc_port = 0\<rparr>"

definition zero_redis_config :: redis_config where
  "zero_redis_config = \<lparr>rec_meta = new_meta [] [] [], rec_host = [], rec_available = 0, rec_port = 0,
     rec_tls = None, rec_verify = None, rec_password = []\<rparr>"

record site_template_handler =
  th_site :: staging_site
  th_spec :: site_service
  th_status :: service_status
  th_config :: service_config
  th_services :: "service_config gomap"
  th_mysql :: "mysql_config gomap"
  th_mongo :: "mongo_config gomap"
  th_redis :: "redis_config gomap"

definition NewSite :: "staging_site \<Rightarrow> service_config \<Rightarrow> site_template_handler" where
  "NewSite site serviceConfig =
     \<lparr>th_site = site, th_spec = site_service_of site (sc_name serviceConfig),
      th_status = lookup_or zero_service_status (su_services (st_status site)) (sc_name serviceConfig),
      th_config = serviceConfig, th_services = [], th_mysql = [], th_mongo = [], th_redis = []\<rparr>"

text \<open>The loops \<^verbatim>\<open>for _, config := range list.Items { configs[config.Name] = config }\<close>.\<close>

definition by_name :: "('o \<Rightarrow> object_meta) \<Rightarrow> 'o list \<Rightarrow> 'o gomap" where
  "by_name meta items = fold (\<lambda>x m. AList.update (om_name (meta x)) x m) items []"

definition ListMongoConfigsInNamespace ::
  "('w, mongo_config) client \<Rightarrow> string \<Rightarrow> 'w \<Rightarrow> go_error + mongo_config gomap" where
  "ListMongoConfigsInNamespace cl namespace w = map_sum id (by_name moc_meta) (cl_list cl namespace [] w)"

definition ListMysqlConfigsInNamespace ::
  "('w, mysql_config) client \<Rightarrow> string \<Rightarrow> 'w \<Rightarrow> go_error + mysql_config gomap" where
  "ListMysqlConfigsInNamespace cl namespace w = map_sum id (by_name myc_meta) (cl_list cl namespace [] w)"

definition ListRedisConfigsInNamespace ::
  "('w, redis_config) client \<Rightarrow> string \<Rightarrow> 'w \<Rightarrow> go_error + redis_config gomap" where
  "ListRedisConfigsInNamespace cl namespace w = map_sum id (by_name rec_meta) (cl_list cl namespace [] w)"

text \<open>The clients that the loading of configurations reads.\<close>

record 'w config_clients =
  cc_service :: "('w, service_config) client"
  cc_mysql :: "('w, mysql_config) client"
  cc_mongo :: "('w, mongo_config) client"
  cc_redis :: "('w, redis_config) client"

definition LoadServiceConfigs ::
  "'w config_clients \<Rightarrow> 'w \<Rightarrow> site_template_handler \<Rightarrow> go_error + site_template_handler" where
  "LoadServiceConfigs cc w handler =
     (case cl_list (cc_service cc) (st_namespace (th_site handler)) [] w of
        Inl err \<Rightarrow> Inl err
      | Inr items \<Rightarrow> Inr (handler\<lparr>th_services := by_name sc_meta items\<rparr>))"

definition LoadConfigs ::
  "'w config_clients \<Rightarrow> 'w \<Rightarrow> site_template_handler \<Rightarrow> go_error + site_template_handler" where
  "LoadConfigs cc w handler =
     (let namespace = st_namespace (th_site handler)
      in case ListMongoConfigsInNamespace (cc_mongo cc) namespace w of
           Inl err \<Rightarrow> Inl err
         | Inr mongoConfigs \<Rightarrow>
             let handler = handler\<lparr>th_mongo := mongoConfigs\<rparr>
             in case ListMysqlConfigsInNamespace (cc_mysql cc) namespace w of
                  Inl err \<Rightarrow> Inl err
                | Inr mysqlConfigs \<Rightarrow>
                    let handler = handler\<lparr>th_mysql := mysqlConfigs\<rparr>
                    in case ListRedisConfigsInNamespace (cc_redis cc) namespace w of
                         Inl err \<Rightarrow> Inl err
                       | Inr redisConfigs \<Rightarrow>
                           LoadServiceConfigs cc w (handler\<lparr>th_redis := redisConfigs\<rparr>))"

definition config_name :: "string \<Rightarrow> string \<Rightarrow> string option" where
  "config_name siteEnvironmentName serviceDefaultEnvironmentName =
     (if siteEnvironmentName = []
      then if serviceDefaultEnvironmentName = [] then None else Some serviceDefaultEnvironmentName
      else Some siteEnvironmentName)"

definition getMysqlConfigTemplateValues ::
  "mysql_config gomap \<Rightarrow> string \<Rightarrow> string \<Rightarrow> string gomap" where
  "getMysqlConfigTemplateValues mysqlConfigs siteEnv defaultEnv =
     (case config_name siteEnv defaultEnv of
        None \<Rightarrow> []
      | Some configName \<Rightarrow>
          let c = lookup_or zero_mysql_config mysqlConfigs configName
          in [(''database.mysql.host'', myc_host c), (''database.mysql.port'', show_nat (unat (myc_port c)))])"

definition getMongoConfigTemplateValues ::
  "mongo_config gomap \<Rightarrow> string \<Rightarrow> string \<Rightarrow> string gomap" where
  "getMongoConfigTemplateValues mongoConfigs siteEnv defaultEnv =
     (case config_name siteEnv defaultEnv of
        None \<Rightarrow> []
      | Some configName \<Rightarrow>
          let c = lookup_or zero_mongo_config mongoConfigs configName
          in [(''database.mongo.host1'', moc_host1 c), (''database.mongo.host2'', moc_host2 c),
              (''database.mongo.host3'', moc_host3 c),
              (''database.mongo.port'', show_nat (unat (moc_port c)))])"

definition getRedisConfigTemplateValues ::
  "redis_config gomap \<Rightarrow> string \<Rightarrow> string \<Rightarrow> string gomap" where
  "getRedisConfigTemplateValues redisConfigs siteEnv defaultEnv =
     (case config_name siteEnv defaultEnv of
        None \<Rightarrow> []
      | Some configName \<Rightarrow>
          let c = lookup_or zero_redis_config redisConfigs configName
          in [(''database.redis.scheme'', if rec_tls c = Some True then ''tls'' else ''tcp''),
              (''database.redis.host'', rec_host c),
              (''database.redis.port'', show_nat (unat (rec_port c))),
              (''database.redis.password'', rec_password c)])"

definition getCommonDatabaseConfigTemplateValues ::
  "staging_site \<Rightarrow> service_status \<Rightarrow> site_service \<Rightarrow> string gomap" where
  "getCommonDatabaseConfigTemplateValues site serviceStatus serviceSpec =
     [(''database.username'', sst_username serviceStatus),
      (''database.name'', sst_db_name serviceStatus),
      (''database.password'', sp_password (st_spec site)),
      (''database.redis.database'', show_nat (unat (sst_redis_number serviceStatus))),
      (''database.initSource'', svc_init_source serviceSpec)]"

text \<open>The loops \<^verbatim>\<open>for k, v := range m { result[f(k)] = v }\<close>.\<close>

definition put_all :: "(string \<Rightarrow> string) \<Rightarrow> string gomap \<Rightarrow> string gomap \<Rightarrow> string gomap" where
  "put_all f kvs result = fold (\<lambda>kv m. AList.update (f (fst kv)) (snd kv) m) kvs result"

definition service_values ::
  "digest \<Rightarrow> order \<Rightarrow> site_template_handler \<Rightarrow> string \<times> service_config \<Rightarrow> string gomap \<Rightarrow> string gomap" where
  "service_values md5 ord r nc result =
     (let name = fst nc; config = snd nc; site = th_site r;
          p = (\<lambda>k. ''service.'' @ name @ ''.'' @ k);
          svc = site_service_of site name;
          result = AList.update (''service.'' @ name @ ''.clusterUrl'')
                     (MakeServiceUrl md5 site (sc_short_name config)) result;
          result = put_all p (go_range ord 8 (getCommonDatabaseConfigTemplateValues site
                     (lookup_or zero_service_status (su_services (st_status site)) name) svc)) result;
          result = put_all p (go_range ord 9 (getMysqlConfigTemplateValues (th_mysql r)
                     (svc_mysql_env svc) (sc_default_mysql config))) result;
          result = put_all p (go_range ord 10 (getMongoConfigTemplateValues (th_mongo r)
                     (svc_mongo_env svc) (sc_default_mongo config))) result
      in put_all p (go_range ord 11 (getRedisConfigTemplateValues (th_redis r)
                     (svc_redis_env svc) (sc_default_redis config))) result)"

definition own_values :: "digest \<Rightarrow> order \<Rightarrow> site_template_handler \<Rightarrow> string gomap" where
  "own_values md5 ord r =
     (let site = th_site r; spec = th_spec r; config = th_config r;
          result = [(''site.name'', st_name site), (''site.domainPrefix'', sp_domain_prefix (st_spec site)),
                    (''site.imageTag'', svc_image_tag spec)];
          result = put_all id (go_range ord 0
                     (getCommonDatabaseConfigTemplateValues site (th_status r) spec)) result;
          result = put_all id (go_range ord 1 (getMysqlConfigTemplateValues (th_mysql r)
                     (svc_mysql_env spec) (sc_default_mysql config))) result;
          result = put_all id (go_range ord 2 (getMongoConfigTemplateValues (th_mongo r)
                     (svc_mongo_env spec) (sc_default_mongo config))) result;
          result = put_all id (go_range ord 3 (getRedisConfigTemplateValues (th_redis r)
                     (svc_redis_env spec) (sc_default_redis config))) result;
          result = put_all (\<lambda>n. ''site.configmap.'' @ n)
                     (map (\<lambda>nv. (fst nv, MakeConfigmapName md5 site config (fst nv)))
                        (go_range ord 4 (sc_config_maps config))) result;
          result = put_all (\<lambda>n. ''site.custom.'' @ n) (go_range ord 5 (sc_custom_values config)) result
      in put_all (\<lambda>n. ''site.custom.'' @ n) (go_range ord 6 (svc_custom_values spec)) result)"

definition GetTemplateValues :: "digest \<Rightarrow> order \<Rightarrow> site_template_handler \<Rightarrow> string gomap" where
  "GetTemplateValues md5 ord r =
     fold (service_values md5 ord r) (go_range ord 7 (th_services r)) (own_values md5 ord r)"


section \<open>Properties\<close>

lemma put_all_wf [simp]: "wf_map m \<Longrightarrow> wf_map (put_all f kvs m)"
  unfolding put_all_def by (induction kvs arbitrary: m) simp_all

lemma put_all_lookup:
  assumes "inj f" "wf_map kvs"
  shows "map_of (put_all f kvs m) k =
     (case find (\<lambda>kv. f (fst kv) = k) kvs of Some kv \<Rightarrow> Some (snd kv) | None \<Rightarrow> map_of m k)"
  using assms(2)
proof (induction kvs arbitrary: m)
  case (Cons kv kvs)
  have fresh: "find (\<lambda>kw. f (fst kw) = f (fst kv)) kvs = None"
  proof -
    have "f (fst kw) \<noteq> f (fst kv)" if "kw \<in> set kvs" for kw
    proof
      assume "f (fst kw) = f (fst kv)"
      then have "fst kw = fst kv" using assms(1) by (simp add: inj_eq)
      with that Cons.prems show False by (auto simp: image_iff)
    qed
    then show ?thesis by (force simp: find_None_iff)
  qed
  have "put_all f (kv # kvs) m = put_all f kvs (AList.update (f (fst kv)) (snd kv) m)"
    by (simp add: put_all_def)
  with Cons fresh show ?case by (auto simp: gomap_simps split: option.splits)
qed (simp add: put_all_def)

lemma put_all_other: "k \<notin> f ` fst ` set kvs \<Longrightarrow> map_of (put_all f kvs m) k = map_of m k"
proof (induction kvs arbitrary: m)
  case (Cons kv kvs)
  have "put_all f (kv # kvs) m = put_all f kvs (AList.update (f (fst kv)) (snd kv) m)"
    by (simp add: put_all_def)
  with Cons show ?case by (simp add: gomap_simps)
qed (simp add: put_all_def)

lemma put_all_hit:
  assumes "inj f" "wf_map kvs" "map_of kvs k = Some v"
  shows "map_of (put_all f kvs m) (f k) = Some v"
proof -
  have "find (\<lambda>kv. f (fst kv) = f k) kvs = Some (k, v)"
    using assms(2,3) inj_eq[OF assms(1)] by (induction kvs) (auto split: if_splits)
  then show ?thesis by (simp add: put_all_lookup[OF assms(1,2)])
qed

lemma service_values_other:
  assumes "take 8 k \<noteq> ''service.''"
  shows "map_of (service_values md5 ord r nc m) k = map_of m k"
proof -
  have k: "k \<noteq> ''service.'' @ x" for x using assms by auto
  have p: "k \<notin> (\<lambda>x. ''service.'' @ fst nc @ ''.'' @ x) ` X" for X using k by auto
  show ?thesis
    unfolding service_values_def Let_def
    using k[of "fst nc @ ''.clusterUrl''"] by (subst put_all_other[OF p])+ (simp add: gomap_simps)
qed

lemma GetTemplateValues_own:
  assumes "take 8 k \<noteq> ''service.''"
  shows "map_of (GetTemplateValues md5 ord r) k = map_of (own_values md5 ord r) k"
proof -
  have "map_of (fold (service_values md5 ord r) ncs m) k = map_of m k" for ncs m
    by (induction ncs arbitrary: m) (simp_all add: service_values_other[OF assms])
  then show ?thesis by (simp add: GetTemplateValues_def)
qed

text \<open>
  Custom template values: the value that a site gives a name wins over the value of the
  service configuration, which holds when the site gives none, whatever other services exist and
  in whatever order the maps are visited.
\<close>

theorem custom_value_precedence:
  assumes "range_order ord" "wf_map (svc_custom_values (th_spec r))"
    and "wf_map (sc_custom_values (th_config r))"
    and "map_of (svc_custom_values (th_spec r)) name = Some v \<or>
         map_of (svc_custom_values (th_spec r)) name = None \<and>
         map_of (sc_custom_values (th_config r)) name = Some v"
  shows "map_of (GetTemplateValues md5 ord r) (''site.custom.'' @ name) = Some v"
proof -
  let ?f = "\<lambda>n. ''site.custom.'' @ n"
  have inj: "inj ?f" by (simp add: inj_def)
  have own: "map_of (GetTemplateValues md5 ord r) (?f name) = map_of (own_values md5 ord r) (?f name)"
    by (rule GetTemplateValues_own) simp
  note g = go_range_facts[OF assms(1,2)] go_range_facts[OF assms(1,3)]
  show ?thesis
  proof (cases "map_of (svc_custom_values (th_spec r)) name")
    case (Some u)
    then show ?thesis
      unfolding own own_values_def Let_def using assms(4) g by (subst put_all_hit[OF inj]) auto
  next
    case None
    have other: "?f name \<notin> ?f ` fst ` set (go_range ord 6 (svc_custom_values (th_spec r)))"
      using None g by (auto simp: map_of_eq_None_iff image_iff)
    show ?thesis
      unfolding own own_values_def Let_def using assms(4) None g
      by (subst put_all_other[OF other], subst put_all_hit[OF inj]) auto
  qed
qed

theorem custom_value_precedence_witness:
  "map_of (GetTemplateValues toy_md5 (\<lambda>l ks. rev ks)
     ((NewSite (toy_site ''s'' ''db'') ((toy_service ''shop'' ''sh'')\<lparr>sc_custom_values := [(''a'', ''1''), (''b'', ''2'')]\<rparr>))
       \<lparr>th_spec := zero_service\<lparr>svc_custom_values := [(''a'', ''9'')]\<rparr>\<rparr>)) ''site.custom.b'' = Some ''2''"
  using custom_value_precedence[of "\<lambda>l ks. rev ks"
      "(NewSite (toy_site ''s'' ''db'') ((toy_service ''shop'' ''sh'')\<lparr>sc_custom_values := [(''a'', ''1''), (''b'', ''2'')]\<rparr>))
       \<lparr>th_spec := zero_service\<lparr>svc_custom_values := [(''a'', ''9'')]\<rparr>\<rparr>" "''b''" "''2''" toy_md5]
  by (simp add: NewSite_def)

end
