(* ===== verification/PodSpec.thy ===== *)
theory PodSpec
  imports SiteTypes
begin

text \<open>
  \<^verbatim>\<open>helpers/pod/spec.go\<close>: the extra environment variables and the resource overrides of a site
  service on the containers of a pod spec. \<^verbatim>\<open>sort.Slice\<close> is not stable, so the order of
  variables with equal names is open: the sorting is a parameter with its documented law.
\<close>

fun str_less :: "string \<Rightarrow> string \<Rightarrow> bool" where
  "str_less s [] = False"
| "str_less [] (c # cs) = True"
| "str_less (b # bs) (c # cs) =
     (if (of_char b :: nat) = of_char c then str_less bs cs else (of_char b :: nat) < of_char c)"

definition sorts_by_name :: "(env_var list \<Rightarrow> env_var list) \<Rightarrow> bool" where
  "sorts_by_name srt \<longleftrightarrow>
     (\<forall>l. mset (srt l) = mset l \<and> sorted_wrt (\<lambda>x y. \<not> str_less (ev_name y) (ev_name x)) (srt l))"

definition new_env :: "string \<times> string \<Rightarrow> env_var" where
  "new_env nv = \<lparr>ev_name = fst nv, ev_value = snd nv, ev_rest = []\<rparr>"

definition SetExtraEnvVarsOnPodSpec ::
  "(env_var list \<Rightarrow> env_var list) \<Rightarrow> order \<Rightarrow> nat \<Rightarrow> pod_spec \<Rightarrow> staging_site \<Rightarrow> service_config \<Rightarrow> pod_spec" where
  "SetExtraEnvVarsOnPodSpec srt ord l spec site serviceConfig =
     (let extraEnvs = svc_extra_envs (site_service_of site (sc_name serviceConfig))
      in if extraEnvs \<noteq> []
         then spec\<lparr>ps_containers := map (\<lambda>v. v\<lparr>ct_env := srt (ct_env v @ map new_env (go_range ord l extraEnvs))\<rparr>)
                                        (ps_containers spec)\<rparr>
         else spec)"

definition UpdatePodSpecWithOverrides :: "pod_spec \<Rightarrow> staging_site \<Rightarrow> service_config \<Rightarrow> pod_spec" where
  "UpdatePodSpecWithOverrides spec site serviceConfig =
     (let service = site_service_of site (sc_name serviceConfig)
      in if svc_resource_overrides service = [] then spec
         else spec\<lparr>ps_containers := map (\<lambda>c.
                case map_of (svc_resource_overrides service) (ct_name c) of
                  Some override \<Rightarrow> c\<lparr>ct_resources := override\<rparr> | None \<Rightarrow> c) (ps_containers spec)\<rparr>)"

text \<open>
  Extra environment variables are added to every container and none is lost: the variables of
  each container are the ones it had and the site's, sorted by name, whatever the order of the
  map; a container's other settings and the other parts of the spec are untouched.
\<close>

theorem extra_envs_on_every_container:
  assumes "sorts_by_name srt" "range_order ord"
    and "wf_map (svc_extra_envs (site_service_of site (sc_name cfg)))"
    and "svc_extra_envs (site_service_of site (sc_name cfg)) \<noteq> []"
    and "i < length (ps_containers spec)"
    and "spec' = SetExtraEnvVarsOnPodSpec srt ord l spec site cfg"
  shows "mset (ct_env (ps_containers spec' ! i)) =
           mset (ct_env (ps_containers spec ! i)) +
           mset (map new_env (svc_extra_envs (site_service_of site (sc_name cfg)))) \<and>
         sorted_wrt (\<lambda>x y. \<not> str_less (ev_name y) (ev_name x)) (ct_env (ps_containers spec' ! i)) \<and>
         (ps_containers spec' ! i)\<lparr>ct_env := ct_env (ps_containers spec ! i)\<rparr> = ps_containers spec ! i \<and>
         spec'\<lparr>ps_containers := ps_containers spec\<rparr> = spec"
proof -
  have "mset (srt xs) = mset xs" "sorted_wrt (\<lambda>x y. \<not> str_less (ev_name y) (ev_name x)) (srt xs)" for xs
    using assms(1) by (simp_all add: sorts_by_name_def)
  then show ?thesis
    using assms(2-5) by (simp add: assms(6) SetExtraEnvVarsOnPodSpec_def Let_def mset_go_range)
qed

fun insert_env :: "env_var \<Rightarrow> env_var list \<Rightarrow> env_var list" where
  "insert_env e [] = [e]"
| "insert_env e (x # xs) = (if str_less (ev_name x) (ev_name e) then x # insert_env e xs else e # x # xs)"

definition toy_sort :: "env_var list \<Rightarrow> env_var list" where
  "toy_sort xs = foldr insert_env xs []"

lemma str_less_asym: "str_less a b \<Longrightarrow> \<not> str_less b a"
  by (induction a b rule: str_less.induct) (auto split: if_splits)

lemma str_less_trans: "\<not> str_less b a \<Longrightarrow> \<not> str_less c b \<Longrightarrow> \<not> str_less c a"
proof (induction a b arbitrary: c rule: str_less.induct)
  case (3 x xs y ys)
  then show ?case by (cases c) (auto split: if_splits)
next
  case (2 y ys)
  then show ?case by (cases c) auto
next
  case (1 s)
  then show ?case by (cases s) auto
qed

lemma mset_insert_env: "mset (insert_env e xs) = add_mset e (mset xs)"
  by (induction xs) auto

lemma set_insert_env: "set (insert_env e xs) = insert e (set xs)"
  by (induction xs) auto

lemma insert_env_sorted:
  "sorted_wrt (\<lambda>x y. \<not> str_less (ev_name y) (ev_name x)) xs \<Longrightarrow>
   sorted_wrt (\<lambda>x y. \<not> str_less (ev_name y) (ev_name x)) (insert_env e xs)"
proof (induction xs)
  case (Cons x xs)
  show ?case
  proof (cases "str_less (ev_name x) (ev_name e)")
    case True
    with Cons str_less_asym[OF True] show ?thesis by (simp add: set_insert_env)
  next
    case False
    have "\<not> str_less (ev_name y) (ev_name e)" if "y \<in> set xs" for y
      using str_less_trans[OF False] Cons.prems that by simp
    with Cons.prems False show ?thesis by simp
  qed
qed simp

lemma toy_sort_sorts: "sorts_by_name toy_sort"
proof -
  have "sorted_wrt (\<lambda>x y. \<not> str_less (ev_name y) (ev_name x)) (toy_sort xs) \<and> mset (toy_sort xs) = mset xs" for xs
  proof (induction xs)
    case (Cons x xs)
    then show ?case using insert_env_sorted[of "toy_sort xs" x] by (simp add: toy_sort_def mset_insert_env)
  qed (simp add: toy_sort_def)
  then show ?thesis by (simp add: sorts_by_name_def)
qed

definition toy_container :: "string \<Rightarrow> container" where
  "toy_container name = \<lparr>ct_name = name, ct_env = [new_env (''B'', ''1'')], ct_resources = [], ct_rest = []\<rparr>"

definition toy_env_site :: staging_site where
  "toy_env_site = (GetDummySite ''shop'' ''ns'')\<lparr>st_spec := (st_spec (GetDummySite ''shop'' ''ns''))
     \<lparr>sp_services := [(''shop'', zero_service\<lparr>svc_extra_envs := [(''C'', ''2''), (''A'', ''3'')]\<rparr>)]\<rparr>\<rparr>"

definition toy_env_config :: service_config where
  "toy_env_config = \<lparr>sc_meta = new_meta ''shop'' ''ns'' [], sc_short_name = ''sh'', sc_config_maps = [],
      sc_custom_values = [],
      sc_deployment_pod_spec = \<lparr>ps_containers = [toy_container ''main''], ps_restart_policy = [], ps_rest = []\<rparr>,
      sc_db_init_pod_spec = None, sc_migration_pod_spec = None, sc_backup_pod_spec = None,
      sc_service_spec = None, sc_ingress_spec = None, sc_ingress_annotations = [],
      sc_default_mongo = [], sc_default_mysql = [], sc_default_redis = []\<rparr>"

theorem extra_envs_on_every_container_witness:
  "mset (ct_env (ps_containers (SetExtraEnvVarsOnPodSpec toy_sort (\<lambda>l ks. rev ks) 0
      (sc_deployment_pod_spec toy_env_config) toy_env_site toy_env_config) ! 0)) =
   {#new_env (''B'', ''1''), new_env (''C'', ''2''), new_env (''A'', ''3'')#}"
proof -
  have e: "svc_extra_envs (site_service_of toy_env_site (sc_name toy_env_config)) = [(''C'', ''2''), (''A'', ''3'')]"
    by (simp add: site_service_of_def toy_env_site_def toy_env_config_def lookup_or_def)
  show ?thesis
    using extra_envs_on_every_container[OF toy_sort_sorts range_order_rev, of toy_env_site toy_env_config 0
        "sc_deployment_pod_spec toy_env_config", OF _ _ _ refl, of 0]
    by (simp add: e) (simp add: toy_env_config_def toy_container_def)
qed

text \<open>
  Resource overrides reach exactly the containers they name: a named container gets the
  override and keeps everything else, every other container is unchanged.
\<close>

theorem overrides_by_container_name:
  assumes "i < length (ps_containers spec)"
  shows "ps_containers (UpdatePodSpecWithOverrides spec site cfg) ! i =
    (ps_containers spec ! i)\<lparr>ct_resources :=
       lookup_or (ct_resources (ps_containers spec ! i))
         (svc_resource_overrides (site_service_of site (sc_name cfg))) (ct_name (ps_containers spec ! i))\<rparr> \<and>
    length (ps_containers (UpdatePodSpecWithOverrides spec site cfg)) = length (ps_containers spec)"
  using assms
  by (simp add: UpdatePodSpecWithOverrides_def Let_def lookup_or_def split: option.split)

theorem overrides_by_container_name_witness:
  "ct_resources (ps_containers (UpdatePodSpecWithOverrides (sc_deployment_pod_spec toy_env_config)
     (toy_env_site\<lparr>st_spec := (st_spec toy_env_site)\<lparr>sp_services :=
        [(''shop'', zero_service\<lparr>svc_resource_overrides := [(''main'', ''1Gi'')]\<rparr>)]\<rparr>\<rparr>) toy_env_config) ! 0) = ''1Gi''"
  by (subst overrides_by_container_name[THEN conjunct1])
    (simp_all add: toy_env_config_def site_service_of_def lookup_or_def toy_container_def)

end
