(* ===== verification/ConfigTypes.thy ===== *)
theory ConfigTypes
  imports SiteTypes
begin

text \<open>
  The operator's own configuration, \<^verbatim>\<open>apis/controller-config/v1/projectconfig_types.go\<close>, with its
  defaults and its check in \<^verbatim>\<open>main.go\<close>.
\<close>

record job_config =
  jc_deadline :: "32 word"
  jc_ttl :: "32 word"
  jc_backoff :: "32 word"

record project_config =
  pc_health_probe :: string
  pc_metrics_bind :: string
  pc_webhook_port :: "64 word"
  pc_leader_election :: bool
  pc_cache_namespace :: string
  pc_sentry_dsn :: string
  pc_init_job :: job_config
  pc_migration_job :: job_config
  pc_backup_job :: job_config

text \<open>The configuration that \<^verbatim>\<open>main\<close> starts from before it reads the file.\<close>

definition defaultCtrlConfig :: project_config where
  "defaultCtrlConfig =
     \<lparr>pc_health_probe = [], pc_metrics_bind = [], pc_webhook_port = 0, pc_leader_election = False,
      pc_cache_namespace = [], pc_sentry_dsn = [],
      pc_init_job = \<lparr>jc_deadline = 600, jc_ttl = 600, jc_backoff = 0\<rparr>,
      pc_migration_job = \<lparr>jc_deadline = 600, jc_ttl = 600, jc_backoff = 3\<rparr>,
      pc_backup_job = \<lparr>jc_deadline = 600, jc_ttl = 600, jc_backoff = 3\<rparr>\<rparr>"

definition bad_setting :: "string \<Rightarrow> int \<Rightarrow> string \<Rightarrow> go_error" where
  "bad_setting name v bounds =
     PlainError (''invalid '' @ name @ '': '' @ show_int v @ '' (must be '' @ bounds @ '')'')"

definition validateConfig :: "project_config \<Rightarrow> go_error option" where
  "validateConfig config =
     (if sint (pc_webhook_port config) < 0 \<or> sint (pc_webhook_port config) > 65535
      then Some (bad_setting ''webhook port'' (sint (pc_webhook_port config)) ''between 0 and 65535'')
      else if sint (jc_deadline (pc_init_job config)) < 0
      then Some (bad_setting ''initJobConfig.deadlineSeconds'' (sint (jc_deadline (pc_init_job config))) ''>= 0'')
      else if sint (jc_ttl (pc_init_job config)) < 0
      then Some (bad_setting ''initJobConfig.ttlSeconds'' (sint (jc_ttl (pc_init_job config))) ''>= 0'')
      else if sint (jc_backoff (pc_init_job config)) < 0
      then Some (bad_setting ''initJobConfig.backoffLimit'' (sint (jc_backoff (pc_init_job config))) ''>= 0'')
      else if sint (jc_deadline (pc_migration_job config)) < 0
      then Some (bad_setting ''migrationJobConfig.deadlineSeconds'' (sint (jc_deadline (pc_migration_job config))) ''>= 0'')
      else if sint (jc_ttl (pc_migration_job config)) < 0
      then Some (bad_setting ''migrationJobConfig.ttlSeconds'' (sint (jc_ttl (pc_migration_job config))) ''>= 0'')
      else if sint (jc_backoff (pc_migration_job config)) < 0
      then Some (bad_setting ''migrationJobConfig.backoffLimit'' (sint (jc_backoff (pc_migration_job config))) ''>= 0'')
      else if sint (jc_deadline (pc_backup_job config)) < 0
      then Some (bad_setting ''backupJobConfig.deadlineSeconds'' (sint (jc_deadline (pc_backup_job config))) ''>= 0'')
      else if sint (jc_ttl (pc_backup_job config)) < 0
      then Some (bad_setting ''backupJobConfig.ttlSeconds'' (sint (jc_ttl (pc_backup_job config))) ''>= 0'')
      else if sint (jc_backoff (pc_backup_job config)) < 0
      then Some (bad_setting ''backupJobConfig.backoffLimit'' (sint (jc_backoff (pc_backup_job config))) ''>= 0'')
      else None)"

text \<open>
  The settings that reach Kubernetes: a job configuration is usable when none of its numbers is
  negative.
\<close>

definition usable_job_config :: "job_config \<Rightarrow> bool" where
  "usable_job_config j \<longleftrightarrow> 0 \<le> sint (jc_deadline j) \<and> 0 \<le> sint (jc_ttl j) \<and> 0 \<le> sint (jc_backoff j)"

text \<open>
  \<^verbatim>\<open>validateConfig\<close> accepts exactly the configurations whose webhook port is a port number
  and whose three job configurations have no negative deadline, time to live or retry limit.
\<close>

theorem validateConfig_exact:
  "validateConfig config = None \<longleftrightarrow>
     0 \<le> sint (pc_webhook_port config) \<and> sint (pc_webhook_port config) < 2 ^ 16 \<and>
     usable_job_config (pc_init_job config) \<and> usable_job_config (pc_migration_job config) \<and>
     usable_job_config (pc_backup_job config)"
proof -
  have "(sint (pc_webhook_port config) > 65535) = (\<not> sint (pc_webhook_port config) < 2 ^ 16)" by auto
  then show ?thesis
    unfolding validateConfig_def usable_job_config_def by (simp split: if_split)
qed

end
