(* ===== verification/Reconcile.thy ===== *)
theory Reconcile
  imports Kube
begin

text \<open>
  The pattern that the handlers under \<^verbatim>\<open>handlers/task\<close>, \<^verbatim>\<open>handlers/job\<close> and \<^verbatim>\<open>handlers/site\<close>
  share: build the map of the objects that should exist, list the ones that do, sort them into
  maps of objects to create, update and delete, and carry the three maps out. The definitions
  are the loops of those handlers with their differing parts as arguments; the locale
  \<open>diff_kind\<close> states what the comparison and the update of an object type must satisfy for the
  pattern to converge.
\<close>

section \<open>The loops\<close>

record 'o plan =
  to_create :: "'o gomap"
  to_update :: "'o gomap"
  to_delete :: "'o gomap"

text \<open>
  The first loop, over the services of the site: \<open>Inr None\<close> is \<^verbatim>\<open>continue\<close>, an error returns.
\<close>

fun build_expected :: "(string \<Rightarrow> 's \<Rightarrow> go_error + 'o option) \<Rightarrow> 's gomap \<Rightarrow> 'o gomap \<Rightarrow>
  go_error + 'o gomap" where
  "build_expected f [] acc = Inr acc"
| "build_expected f (nx # nxs) acc =
     (case f (fst nx) (snd nx) of
        Inl err \<Rightarrow> Inl err
      | Inr None \<Rightarrow> build_expected f nxs acc
      | Inr (Some e) \<Rightarrow> build_expected f nxs (AList.update (fst nx) e acc))"

text \<open>The second loop, over the existing objects.\<close>

fun classify :: "('o \<Rightarrow> string) \<Rightarrow> ('o \<Rightarrow> 'o \<Rightarrow> bool) \<Rightarrow> ('o \<Rightarrow> 'o \<Rightarrow> 'o) \<Rightarrow> 'o list \<Rightarrow> 'o plan \<Rightarrow>
  'o plan" where
  "classify key same upd [] p = p"
| "classify key same upd (x # xs) p =
     (case map_of (to_create p) (key x) of
        Some expected \<Rightarrow>
          classify key same upd xs
            (p\<lparr>to_update := (if same x expected then to_update p
                            else AList.update (key x) (upd x expected) (to_update p)),
               to_create := AList.delete (key x) (to_create p)\<rparr>)
      | None \<Rightarrow> classify key same upd xs (p\<lparr>to_delete := AList.update (key x) x (to_delete p)\<rparr>))"

definition start_plan :: "'o gomap \<Rightarrow> 'o plan" where
  "start_plan expected = \<lparr>to_create = expected, to_update = [], to_delete = []\<rparr>"

definition plan_empty :: "'o plan \<Rightarrow> bool" where
  "plan_empty p \<longleftrightarrow> to_delete p = [] \<and> to_create p = [] \<and> to_update p = []"

text \<open>The loops of writes, one after the other, up to the first error.\<close>

fun run_loops :: "('w \<Rightarrow> 'e option \<times> 'w) list \<Rightarrow> 'w \<Rightarrow> 'e option \<times> 'w" where
  "run_loops [] w = (None, w)"
| "run_loops (f # fs) w = (case f w of (Some e, w') \<Rightarrow> (Some e, w') | (None, w') \<Rightarrow> run_loops fs w')"

definition finish :: "'a \<Rightarrow> 'e option \<times> 'w \<Rightarrow> ('e + 'a) \<times> 'w" where
  "finish v r = (case r of (Some e, w) \<Rightarrow> (Inl e, w) | (None, w) \<Rightarrow> (Inr v, w))"

lemma start_plan_simps [simp]:
  "to_create (start_plan E) = E" "to_update (start_plan E) = []" "to_delete (start_plan E) = []"
  by (simp_all add: start_plan_def)

lemma finish_simps [simp]: "finish v (Some e, w) = (Inl e, w)" "finish v (None, w) = (Inr v, w)"
  by (simp_all add: finish_def)

lemma finish_Inr: "finish v r = (Inr b, w) \<longleftrightarrow> b = v \<and> r = (None, w)"
  by (auto simp: finish_def split: prod.splits option.splits)


section \<open>The expected objects\<close>

lemma build_expected_wf: "build_expected f nxs acc = Inr E \<Longrightarrow> wf_map acc \<Longrightarrow> wf_map E"
  by (induction nxs arbitrary: acc) (auto split: sum.splits option.splits)

lemma build_expected_dom:
  assumes "build_expected f nxs acc = Inr E" "wf_map nxs"
  shows "map_of E k = (case map_of nxs k of
           Some x \<Rightarrow> (case f k x of Inr (Some e) \<Rightarrow> Some e | _ \<Rightarrow> map_of acc k) | None \<Rightarrow> map_of acc k)"
  using assms
proof (induction nxs arbitrary: acc)
  case (Cons nx nxs)
  have notin: "map_of nxs (fst nx) = None"
    using Cons.prems(2) by (simp add: map_of_eq_None_iff)
  show ?case
  proof (cases "f (fst nx) (snd nx)")
    case (Inr r)
    show ?thesis
    proof (cases r)
      case None
      then have "build_expected f nxs acc = Inr E" using Cons.prems Inr by simp
      from Cons.IH[OF this] Cons.prems(2) None Inr notin show ?thesis
        by (cases nx) (auto split: option.splits)
    next
      case (Some e)
      then have "build_expected f nxs (AList.update (fst nx) e acc) = Inr E"
        using Cons.prems Inr by simp
      from Cons.IH[OF this] Cons.prems(2) Some Inr notin show ?thesis
        by (cases nx) (auto simp: gomap_simps split: option.splits sum.splits)
    qed
  qed (use Cons.prems in simp)
qed simp


lemma build_expected_total:
  "(\<exists>E. build_expected f nxs acc = Inr E) \<longleftrightarrow> (\<forall>nx \<in> set nxs. \<exists>r. f (fst nx) (snd nx) = Inr r)"
  by (induction nxs arbitrary: acc) (auto split: sum.splits option.splits)

text \<open>The order in which the services are visited does not matter.\<close>

lemma build_expected_order:
  assumes "range_order ord" "range_order ord'" "wf_map m"
    and "build_expected f (go_range ord l m) [] = Inr E"
  obtains E' where "build_expected f (go_range ord' l' m) [] = Inr E'" "map_of E' = map_of E" "wf_map E'"
proof -
  have "\<exists>E'. build_expected f (go_range ord' l' m) [] = Inr E'"
    using assms build_expected_total[of f "go_range ord l m" "[]"]
      build_expected_total[of f "go_range ord' l' m" "[]"] by (auto simp: range_simps)
  then obtain E' where E': "build_expected f (go_range ord' l' m) [] = Inr E'" by blast
  have "map_of E' k = map_of E k" for k
    using build_expected_dom[OF E'] build_expected_dom[OF assms(4)] assms(1-3)
    by (simp add: range_simps)
  with E' build_expected_wf[OF E'] that show ?thesis by auto
qed

section \<open>The contract of an object type\<close>

text \<open>
  \<open>key\<close> is the entry of the maps an object belongs to, \<open>same\<close> compares an existing object with
  the expected one, \<open>upd\<close> brings it up to date, and \<open>ok\<close> holds of the expected objects.
\<close>

locale diff_kind =
  fixes key :: "'o \<Rightarrow> string" and same :: "'o \<Rightarrow> 'o \<Rightarrow> bool" and upd :: "'o \<Rightarrow> 'o \<Rightarrow> 'o"
    and ok :: "'o \<Rightarrow> bool"
  assumes same_upd: "ok e \<Longrightarrow> same (upd x e) e"
    and key_upd: "key x = key e \<Longrightarrow> key (upd x e) = key e"
    and same_refl: "ok e \<Longrightarrow> same e e"
begin

definition in_sync :: "'o gomap \<Rightarrow> 'o list \<Rightarrow> bool" where
  "in_sync E xs \<longleftrightarrow> distinct (map key xs) \<and> key ` set xs = dom (map_of E) \<and>
     (\<forall>x \<in> set xs. \<forall>e. map_of E (key x) = Some e \<longrightarrow> same x e)"

lemma fresh_find: "key x \<notin> key ` set xs \<Longrightarrow> find (\<lambda>y. key y = key x) xs = None"
  by (simp add: find_None_iff) (metis imageI)

lemma classify_create:
  "wf_map (to_create p) \<Longrightarrow> map_of (to_create (classify key same upd xs p)) k =
     (if k \<in> key ` set xs then None else map_of (to_create p) k)"
  by (induction xs arbitrary: p) (auto simp: gomap_simps split: option.splits)

lemma classify_update:
  assumes "distinct (map key xs)"
  shows "map_of (to_update (classify key same upd xs p)) k =
           (case find (\<lambda>x. key x = k) xs of
              None \<Rightarrow> map_of (to_update p) k
            | Some x \<Rightarrow> (case map_of (to_create p) k of
                 None \<Rightarrow> map_of (to_update p) k
               | Some e \<Rightarrow> if same x e then map_of (to_update p) k else Some (upd x e)))"
  using assms
proof (induction xs arbitrary: p)
  case (Cons x xs)
  then have "find (\<lambda>y. key y = key x) xs = None" by (intro fresh_find) simp
  with Cons show ?case
    by (cases "key x = k") (auto simp: gomap_simps split: option.splits)
qed simp

lemma classify_delete:
  assumes "distinct (map key xs)"
  shows "map_of (to_delete (classify key same upd xs p)) k =
           (case find (\<lambda>x. key x = k) xs of
              None \<Rightarrow> map_of (to_delete p) k
            | Some x \<Rightarrow> (case map_of (to_create p) k of
                 None \<Rightarrow> Some x | Some e \<Rightarrow> map_of (to_delete p) k))"
  using assms
proof (induction xs arbitrary: p)
  case (Cons x xs)
  then have "find (\<lambda>y. key y = key x) xs = None" by (intro fresh_find) simp
  with Cons show ?case
    by (cases "key x = k") (auto simp: gomap_simps split: option.splits)
qed simp

lemma classify_wf:
  assumes "wf_map (to_create p)" "wf_map (to_update p)" "wf_map (to_delete p)"
  shows "wf_map (to_create (classify key same upd xs p))"
    and "wf_map (to_update (classify key same upd xs p))"
    and "wf_map (to_delete (classify key same upd xs p))"
  using assms
  by (induction xs arbitrary: p) (auto split: option.splits)

lemma find_key: "distinct (map key xs) \<Longrightarrow> x \<in> set xs \<Longrightarrow> find (\<lambda>y. key y = key x) xs = Some x"
  by (induction xs) auto

lemma find_key_None: "find (\<lambda>y. key y = k) xs = None \<longleftrightarrow> k \<notin> key ` set xs"
  by (auto simp: find_None_iff)

text \<open>What the plan holds, entry by entry.\<close>

lemma find_iff:
  assumes "distinct (map key xs)"
  shows "find (\<lambda>y. key y = k) xs = Some x \<longleftrightarrow> x \<in> set xs \<and> key x = k"
  using find_key[OF assms] by (auto simp: find_Some_iff dest: nth_mem)

lemma plan_create:
  "wf_map E \<Longrightarrow> map_of (to_create (classify key same upd xs (start_plan E))) k = Some e \<longleftrightarrow>
     map_of E k = Some e \<and> k \<notin> key ` set xs"
  by (simp add: classify_create)

lemma plan_update:
  assumes "distinct (map key xs)"
  shows "map_of (to_update (classify key same upd xs (start_plan E))) k = Some u \<longleftrightarrow>
     (\<exists>x e. x \<in> set xs \<and> key x = k \<and> map_of E k = Some e \<and> \<not> same x e \<and> u = upd x e)"
proof (cases "find (\<lambda>x. key x = k) xs")
  case None
  then have "k \<notin> key ` set xs" by (simp only: find_key_None not_False_eq_True)
  then have "key x \<noteq> k" if "x \<in> set xs" for x using that by blast
  then show ?thesis unfolding classify_update[OF assms] None by auto
next
  case (Some x)
  have iff: "y \<in> set xs \<and> key y = k \<longleftrightarrow> y = x" for y
    using find_iff[OF assms, of k y] Some by auto
  have "(\<exists>y e. y \<in> set xs \<and> key y = k \<and> map_of E k = Some e \<and> \<not> same y e \<and> u = upd y e) \<longleftrightarrow>
        (\<exists>y e. (y \<in> set xs \<and> key y = k) \<and> map_of E k = Some e \<and> \<not> same y e \<and> u = upd y e)"
    by (simp only: conj_assoc)
  also have "\<dots> \<longleftrightarrow> (\<exists>e. map_of E k = Some e \<and> \<not> same x e \<and> u = upd x e)"
    unfolding iff by blast
  also have "\<dots> \<longleftrightarrow> map_of (to_update (classify key same upd xs (start_plan E))) k = Some u"
    unfolding classify_update[OF assms] Some by (cases "map_of E k") auto
  finally show ?thesis by (rule sym)
qed

lemma plan_delete:
  assumes "distinct (map key xs)"
  shows "map_of (to_delete (classify key same upd xs (start_plan E))) k = Some y \<longleftrightarrow>
     y \<in> set xs \<and> key y = k \<and> map_of E k = None"
proof (cases "find (\<lambda>x. key x = k) xs")
  case None
  then have "k \<notin> key ` set xs" by (simp only: find_key_None not_False_eq_True)
  then have "key x \<noteq> k" if "x \<in> set xs" for x using that by blast
  then show ?thesis unfolding classify_delete[OF assms] None by auto
next
  case (Some x)
  then show ?thesis
    using find_iff[OF assms, of k x] find_iff[OF assms, of k y]
    by (auto simp: classify_delete[OF assms] split: option.splits)
qed

text \<open>The handler reports completion exactly when there is nothing to do.\<close>

lemma alist_nil_iff: "m = [] \<longleftrightarrow> (\<forall>k v. map_of m k \<noteq> Some v)"
proof
  assume "\<forall>k v. map_of m k \<noteq> Some v"
  then have "map_of m k = None" for k by (cases "map_of m k") auto
  then have "map_of m = Map.empty" by blast
  then show "m = []" by (simp only: map_of_eq_empty_iff)
qed simp

lemma plan_empty_iff:
  assumes "distinct (map key xs)" "wf_map E"
  shows "plan_empty (classify key same upd xs (start_plan E)) \<longleftrightarrow> in_sync E xs"
proof -
  let ?p = "classify key same upd xs (start_plan E)"
  have d: "to_delete ?p = [] \<longleftrightarrow> key ` set xs \<subseteq> dom (map_of E)"
    unfolding alist_nil_iff plan_delete[OF assms(1)] by auto
  have c: "to_create ?p = [] \<longleftrightarrow> dom (map_of E) \<subseteq> key ` set xs"
    unfolding alist_nil_iff plan_create[OF assms(2)] by auto
  have u: "to_update ?p = [] \<longleftrightarrow> (\<forall>x \<in> set xs. \<forall>e. map_of E (key x) = Some e \<longrightarrow> same x e)"
    unfolding alist_nil_iff plan_update[OF assms(1)] by auto
  show ?thesis unfolding plan_empty_def in_sync_def d c u using assms(1) by auto
qed

lemma classify_keeps_delete:
  "to_delete (classify key same upd xs p) = [] \<Longrightarrow> to_delete p = []"
proof (induction xs arbitrary: p)
  case (Cons x xs)
  show ?case
  proof (cases "map_of (to_create p) (key x)")
    case None
    with Cons.prems have "AList.update (key x) x (to_delete p) = []" by (auto dest: Cons.IH)
    then show ?thesis by simp
  next
    case (Some e)
    with Cons.prems show ?thesis by (auto dest: Cons.IH)
  qed
qed simp

lemma no_deletes:
  "to_delete (classify key same upd xs p) = [] \<Longrightarrow> wf_map (to_create p) \<Longrightarrow>
   distinct (map key xs) \<and> key ` set xs \<subseteq> dom (map_of (to_create p))"
proof (induction xs arbitrary: p)
  case (Cons x xs)
  show ?case
  proof (cases "map_of (to_create p) (key x)")
    case None
    with Cons.prems show ?thesis by (auto dest: classify_keeps_delete)
  next
    case (Some e)
    let ?p = "p\<lparr>to_update := (if same x e then to_update p
                   else AList.update (key x) (upd x e) (to_update p)),
                to_create := AList.delete (key x) (to_create p)\<rparr>"
    have "distinct (map key xs) \<and> key ` set xs \<subseteq> dom (map_of (to_create ?p))"
      by (rule Cons.IH) (use Cons.prems Some in simp_all)
    with Some show ?thesis by (auto simp: gomap_simps)
  qed
qed simp

lemma plan_empty_in_sync:
  assumes "plan_empty (classify key same upd xs (start_plan E))" "wf_map E"
  shows "in_sync E xs"
  using plan_empty_iff[of xs E] no_deletes[of xs "start_plan E"] assms
  by (simp add: plan_empty_def)

lemma in_sync_entry:
  assumes "in_sync E xs" "map_of E k = Some e"
  obtains x where "x \<in> set xs" "key x = k" "same x e"
proof -
  have "k \<in> key ` set xs" using assms by (auto simp: in_sync_def)
  then obtain x where "x \<in> set xs" "key x = k" by auto
  with assms that show ?thesis by (auto simp: in_sync_def)
qed

lemma in_sync_key: "in_sync E xs \<Longrightarrow> x \<in> set xs \<Longrightarrow> \<exists>e. map_of E (key x) = Some e"
  by (auto simp: in_sync_def)

lemma in_sync_cong: "map_of E = map_of E' \<Longrightarrow> in_sync E xs = in_sync E' xs"
  by (simp add: in_sync_def)

end

end
