(* ===== verification/Converge.thy ===== *)
theory Converge
  imports Reconcile
begin

text \<open>
  One pass of the reconciliation pattern over an API server that behaves as \<open>kube_store\<close> says
  brings the objects of the site in line with what is expected, so that the next pass finds
  nothing to do.
\<close>

section \<open>An in-memory API server\<close>

text \<open>
  The concrete server of the witnesses: the world is the list of stored objects.
\<close>

definition mem_client :: "('o \<Rightarrow> object_meta) \<Rightarrow> ('o list, 'o) client" where
  "mem_client meta =
     \<lparr>cl_get = (\<lambda>ns n w. case find (\<lambda>y. obj_key meta y = (ns, n)) w of
                  None \<Rightarrow> Inl (NotFound ''not found'') | Some y \<Rightarrow> Inr y),
      cl_list = (\<lambda>ns sel w. Inr (filter (selects meta ns sel) w)),
      cl_list_field = (\<lambda>ns idx v w. Inr (filter (\<lambda>y. om_namespace (meta y) = ns) w)),
      cl_create = (\<lambda>x w. if obj_key meta x \<in> obj_key meta ` set w
                         then (Inl (ApiError ''already exists''), w) else (Inr x, w @ [x])),
      cl_update = (\<lambda>x w. if obj_key meta x \<in> obj_key meta ` set w
                         then (Inr x, map (\<lambda>y. if obj_key meta y = obj_key meta x then x else y) w)
                         else (Inl (NotFound ''not found''), w)),
      cl_update_status = (\<lambda>x w. if obj_key meta x \<in> obj_key meta ` set w
                         then (Inr x, map (\<lambda>y. if obj_key meta y = obj_key meta x then x else y) w)
                         else (Inl (NotFound ''not found''), w)),
      cl_patch = (\<lambda>x old w. if obj_key meta x \<in> obj_key meta ` set w
                         then (Inr x, map (\<lambda>y. if obj_key meta y = obj_key meta x then x else y) w)
                         else (Inl (NotFound ''not found''), w)),
      cl_delete = (\<lambda>x w. (Inr (), filter (\<lambda>y. obj_key meta y \<noteq> obj_key meta x) w)),
      cl_delete_all_of = (\<lambda>ns sel w. (Inr (), filter (\<lambda>y. \<not> selects meta ns sel y) w))\<rparr>"

lemma mem_client_store: "kube_store meta (mem_client meta) id"
  by (simp add: kube_store_def mem_client_def)

text \<open>
  A list by field returns the objects of the namespace for which the registered index function
  yields the value.
\<close>

definition indexed_store ::
  "('o \<Rightarrow> object_meta) \<Rightarrow> (string \<Rightarrow> 'o \<Rightarrow> string list) \<Rightarrow> ('w, 'o) client \<Rightarrow> ('w \<Rightarrow> 'o list) \<Rightarrow> bool" where
  "indexed_store meta index cl objs \<longleftrightarrow>
     (\<forall>ns idx v w. cl_list_field cl ns idx v w =
        Inr (filter (\<lambda>x. om_namespace (meta x) = ns \<and> v \<in> set (index idx x)) (objs w)))"

definition index_client ::
  "('o \<Rightarrow> object_meta) \<Rightarrow> (string \<Rightarrow> 'o \<Rightarrow> string list) \<Rightarrow> ('o list, 'o) client" where
  "index_client meta index = (mem_client meta)
     \<lparr>cl_list_field := \<lambda>ns idx v w. Inr (filter (\<lambda>x. om_namespace (meta x) = ns \<and> v \<in> set (index idx x)) w)\<rparr>"

lemma index_client_store:
  "kube_store meta (index_client meta index) id" "indexed_store meta index (index_client meta index) id"
  by (simp_all add: kube_store_def index_client_def indexed_store_def mem_client_def)

text \<open>A world of two parts, the objects of a client being one of them.\<close>

definition on_first :: "('a, 'o) client \<Rightarrow> ('a \<times> 'b, 'o) client" where
  "on_first cl =
     \<lparr>cl_get = (\<lambda>ns n w. cl_get cl ns n (fst w)), cl_list = (\<lambda>ns sel w. cl_list cl ns sel (fst w)),
      cl_list_field = (\<lambda>ns idx v w. cl_list_field cl ns idx v (fst w)),
      cl_create = (\<lambda>x w. map_prod id (\<lambda>a. (a, snd w)) (cl_create cl x (fst w))),
      cl_update = (\<lambda>x w. map_prod id (\<lambda>a. (a, snd w)) (cl_update cl x (fst w))),
      cl_update_status = (\<lambda>x w. map_prod id (\<lambda>a. (a, snd w)) (cl_update_status cl x (fst w))),
      cl_patch = (\<lambda>x old w. map_prod id (\<lambda>a. (a, snd w)) (cl_patch cl x old (fst w))),
      cl_delete = (\<lambda>x w. map_prod id (\<lambda>a. (a, snd w)) (cl_delete cl x (fst w))),
      cl_delete_all_of = (\<lambda>ns sel w. map_prod id (\<lambda>a. (a, snd w)) (cl_delete_all_of cl ns sel (fst w)))\<rparr>"

definition on_second :: "('b, 'o) client \<Rightarrow> ('a \<times> 'b, 'o) client" where
  "on_second cl =
     \<lparr>cl_get = (\<lambda>ns n w. cl_get cl ns n (snd w)), cl_list = (\<lambda>ns sel w. cl_list cl ns sel (snd w)),
      cl_list_field = (\<lambda>ns idx v w. cl_list_field cl ns idx v (snd w)),
      cl_create = (\<lambda>x w. map_prod id (Pair (fst w)) (cl_create cl x (snd w))),
      cl_update = (\<lambda>x w. map_prod id (Pair (fst w)) (cl_update cl x (snd w))),
      cl_update_status = (\<lambda>x w. map_prod id (Pair (fst w)) (cl_update_status cl x (snd w))),
      cl_patch = (\<lambda>x old w. map_prod id (Pair (fst w)) (cl_patch cl x old (snd w))),
      cl_delete = (\<lambda>x w. map_prod id (Pair (fst w)) (cl_delete cl x (snd w))),
      cl_delete_all_of = (\<lambda>ns sel w. map_prod id (Pair (fst w)) (cl_delete_all_of cl ns sel (snd w)))\<rparr>"

text \<open>A create that succeeds has appended the object and returns it.\<close>

definition create_appends :: "('w, 'o) client \<Rightarrow> ('w \<Rightarrow> 'o list) \<Rightarrow> bool" where
  "create_appends cl objs \<longleftrightarrow>
     (\<forall>x w r w'. cl_create cl x w = (Inr r, w') \<longrightarrow> r = x \<and> objs w' = objs w @ [x])"

lemma mem_client_appends: "create_appends (mem_client meta) id"
  by (simp add: create_appends_def mem_client_def)

text \<open>
  A read-only collection beside it: the configurations of the project, which no handler writes.
\<close>

definition static_client :: "('o \<Rightarrow> object_meta) \<Rightarrow> 'o list \<Rightarrow> ('w, 'o) client" where
  "static_client meta xs =
     \<lparr>cl_get = (\<lambda>ns n w. case find (\<lambda>y. obj_key meta y = (ns, n)) xs of
                  None \<Rightarrow> Inl (NotFound ''not found'') | Some y \<Rightarrow> Inr y),
      cl_list = (\<lambda>ns sel w. Inr (filter (selects meta ns sel) xs)),
      cl_list_field = (\<lambda>ns idx v w. Inr (filter (\<lambda>y. om_namespace (meta y) = ns) xs)),
      cl_create = (\<lambda>x w. (Inl (ApiError ''read only''), w)),
      cl_update = (\<lambda>x w. (Inl (ApiError ''read only''), w)),
      cl_update_status = (\<lambda>x w. (Inl (ApiError ''read only''), w)),
      cl_patch = (\<lambda>x old w. (Inl (ApiError ''read only''), w)),
      cl_delete = (\<lambda>x w. (Inl (ApiError ''read only''), w)),
      cl_delete_all_of = (\<lambda>ns sel w. (Inl (ApiError ''read only''), w))\<rparr>"

definition static_reads :: "('w, 'o) client \<Rightarrow> bool" where
  "static_reads cl \<longleftrightarrow> (\<forall>ns n w w'. cl_get cl ns n w = cl_get cl ns n w')"

lemma static_client_reads: "static_reads (static_client meta xs)"
  by (simp add: static_reads_def static_client_def)


section \<open>The three loops of writes\<close>

lemma delete_loop:
  assumes "kube_store meta cl objs" "\<forall>kx \<in> set m. om_finalizers (meta (snd kx)) = []"
  shows "\<exists>w'. write_all (cl_delete cl) m w = (None, w') \<and>
           objs w' = filter (\<lambda>y. obj_key meta y \<notin> obj_key meta ` snd ` set m) (objs w)"
  using assms(2)
proof (induction m arbitrary: w)
  case (Cons kx m)
  obtain w1 where w1: "cl_delete cl (snd kx) w = (Inr (), w1)"
      "objs w1 = filter (\<lambda>y. obj_key meta y \<noteq> obj_key meta (snd kx)) (objs w)"
    using kube_storeD(4)[OF assms(1)] Cons.prems by force
  obtain w' where "write_all (cl_delete cl) m w1 = (None, w')"
      "objs w' = filter (\<lambda>y. obj_key meta y \<notin> obj_key meta ` snd ` set m) (objs w1)"
    using Cons by force
  with w1 show ?case by (auto simp: conj_commute)
qed simp

lemma delete_list:
  assumes "kube_store meta cl objs" "\<forall>x \<in> set xs. om_finalizers (meta x) = []"
  shows "\<exists>w'. write_list (cl_delete cl) xs w = (None, w') \<and>
           objs w' = filter (\<lambda>y. obj_key meta y \<notin> obj_key meta ` set xs) (objs w)"
  using delete_loop[OF assms(1), of "map (Pair []) xs" w] assms(2)
  by (simp add: write_all_list comp_def image_image)

lemma distinct_head_image: "distinct (map f (x # xs)) \<Longrightarrow> y \<in> set xs \<Longrightarrow> f y \<noteq> f x"
  by (metis distinct.simps(2) image_eqI list.simps(9) list.set_map)

lemma create_loop:
  assumes "kube_store meta cl objs" "distinct (map (obj_key meta \<circ> snd) m)"
    and "\<forall>kx \<in> set m. obj_key meta (snd kx) \<notin> obj_key meta ` set (objs w)"
  shows "\<exists>w'. write_all (cl_create cl) m w = (None, w') \<and> objs w' = objs w @ map snd m"
  using assms(2,3)
proof (induction m arbitrary: w)
  case (Cons kx m)
  obtain w1 where w1: "cl_create cl (snd kx) w = (Inr (snd kx), w1)" "objs w1 = objs w @ [snd kx]"
    using kube_storeD(2)[OF assms(1)] Cons.prems(2) by force
  have "obj_key meta (snd ky) \<noteq> obj_key meta (snd kx)" if "ky \<in> set m" for ky
    using distinct_head_image[OF Cons.prems(1) that] by simp
  then have "\<forall>ky \<in> set m. obj_key meta (snd ky) \<notin> obj_key meta ` set (objs w1)"
    using Cons.prems(2) w1(2) by simp
  then obtain w' where "write_all (cl_create cl) m w1 = (None, w')" "objs w' = objs w1 @ map snd m"
    using Cons.IH[of w1] Cons.prems by auto
  with w1 show ?case by auto
qed simp

definition apply_updates :: "('o \<Rightarrow> object_meta) \<Rightarrow> 'o list \<Rightarrow> 'o \<Rightarrow> 'o" where
  "apply_updates meta us y =
     (case find (\<lambda>u. obj_key meta u = obj_key meta y) us of Some u \<Rightarrow> u | None \<Rightarrow> y)"

lemma apply_updates_cases:
  obtains (updated) "apply_updates meta us y \<in> set us"
      "obj_key meta (apply_updates meta us y) = obj_key meta y"
  | (kept) "apply_updates meta us y = y" "\<forall>u \<in> set us. obj_key meta u \<noteq> obj_key meta y"
proof (cases "find (\<lambda>u. obj_key meta u = obj_key meta y) us")
  case None
  then have "apply_updates meta us y = y" by (simp add: apply_updates_def)
  moreover have "\<forall>u \<in> set us. obj_key meta u \<noteq> obj_key meta y"
    using None by (simp add: find_None_iff)
  ultimately show ?thesis by (rule kept)
next
  case (Some u)
  then have "u \<in> set us" "obj_key meta u = obj_key meta y" by (auto simp: find_Some_iff)
  then show ?thesis using updated Some by (simp add: apply_updates_def)
qed

lemma obj_key_apply_updates [simp]: "obj_key meta (apply_updates meta us y) = obj_key meta y"
  by (rule apply_updates_cases[of meta us y]) simp_all

lemma apply_updates_hit:
  assumes "distinct (map (obj_key meta) us)" "u \<in> set us" "obj_key meta u = obj_key meta y"
  shows "apply_updates meta us y = u"
  using assms
proof (induction us)
  case (Cons v us)
  show ?case
  proof (cases "u = v")
    case False
    then have "obj_key meta v \<noteq> obj_key meta y"
      using Cons.prems distinct_head_image[OF Cons.prems(1), of u] by auto
    with Cons False show ?thesis by (simp add: apply_updates_def)
  qed (use Cons.prems in \<open>simp add: apply_updates_def\<close>)
qed simp

lemma update_loop:
  assumes "kube_store meta cl objs" "distinct (map (obj_key meta \<circ> snd) m)"
    and "\<forall>kx \<in> set m. obj_key meta (snd kx) \<in> obj_key meta ` set (objs w)"
  shows "\<exists>w'. write_all (cl_update cl) m w = (None, w') \<and>
           objs w' = map (apply_updates meta (map snd m)) (objs w)"
  using assms(2,3)
proof (induction m arbitrary: w)
  case Nil
  then show ?case by (simp add: apply_updates_def)
next
  case (Cons kx m)
  let ?x = "snd kx"
  let ?one = "\<lambda>y. if obj_key meta y = obj_key meta ?x then ?x else y"
  obtain w1 where w1: "cl_update cl ?x w = (Inr ?x, w1)" "objs w1 = map ?one (objs w)"
    using kube_storeD(3)[OF assms(1)] Cons.prems(2) by force
  have keys: "obj_key meta (?one y) = obj_key meta y" for y by simp
  then have "obj_key meta ` set (objs w1) = obj_key meta ` set (objs w)"
    unfolding w1(2) set_map image_image by (rule image_cong[OF refl])
  then obtain w' where w': "write_all (cl_update cl) m w1 = (None, w')"
      "objs w' = map (apply_updates meta (map snd m)) (objs w1)"
    using Cons.IH[of w1] Cons.prems by auto
  have fresh: "find (\<lambda>u. obj_key meta u = obj_key meta ?x) (map snd m) = None"
    using distinct_head_image[OF Cons.prems(1)] by (simp add: find_None_iff)
  have "apply_updates meta (map snd m) (?one y) = apply_updates meta (map snd (kx # m)) y" for y
    using fresh by (auto simp: apply_updates_def)
  then have "objs w' = map (apply_updates meta (map snd (kx # m))) (objs w)"
    unfolding w'(2) w1(2) map_map by (intro map_cong refl) simp
  with w1(1) w'(1) show ?case by simp
qed


section \<open>One pass converges\<close>

text \<open>Objects that are never compared are never updated.\<close>

lemma no_update_when_all_match:
  "to_update p = [] \<Longrightarrow> to_update (classify key (\<lambda>x e. True) upd xs p) = []"
  by (induction xs arbitrary: p) (auto split: option.splits)

locale store_kind = diff_kind key same upd ok
  for key :: "'o \<Rightarrow> string" and same and upd :: "'o \<Rightarrow> 'o \<Rightarrow> 'o" and ok +
  fixes meta :: "'o \<Rightarrow> object_meta"
  assumes upd_obj_key: "obj_key meta x = obj_key meta e \<Longrightarrow> obj_key meta (upd x e) = obj_key meta e"
    and upd_selects: "selects meta ns sel x \<Longrightarrow> selects meta ns sel e \<Longrightarrow> selects meta ns sel (upd x e)"
begin

text \<open>
  What the pass starts from: object names are unique in the store, the site has at most one
  object for each key, the expected objects are well-formed and carry the labels that the list
  asks for, an object under an expected name belongs to the site and has its key, and an object
  that has to go is not held back by a finalizer.
\<close>

definition ready :: "string \<Rightarrow> string gomap \<Rightarrow> 'o gomap \<Rightarrow> 'o list \<Rightarrow> bool" where
  "ready ns sel E xs \<longleftrightarrow>
     distinct (map (obj_key meta) xs) \<and> distinct (map key (filter (selects meta ns sel) xs)) \<and>
     wf_map E \<and> distinct (map (obj_key meta \<circ> snd) E) \<and>
     list_all (\<lambda>ke. key (snd ke) = fst ke \<and> ok (snd ke) \<and> selects meta ns sel (snd ke)) E \<and>
     list_all (\<lambda>x. list_all (\<lambda>ke.
        (obj_key meta x = obj_key meta (snd ke)) = (selects meta ns sel x \<and> key x = fst ke)) E) xs \<and>
     list_all (\<lambda>x. selects meta ns sel x \<and> key x \<notin> fst ` set E \<longrightarrow> om_finalizers (meta x) = []) xs"

lemma readyD:
  assumes "ready ns sel E xs"
  shows "distinct (map (obj_key meta) xs)" "distinct (map key (filter (selects meta ns sel) xs))"
    "wf_map E" "distinct (map (obj_key meta \<circ> snd) E)"
  using assms unfolding ready_def by blast+

lemma ready_expected:
  assumes "ready ns sel E xs" "map_of E k = Some e"
  shows "key e = k" "ok e" "selects meta ns sel e"
  using assms map_of_SomeD[OF assms(2)] unfolding ready_def list_all_iff by auto

lemma ready_existing:
  assumes "ready ns sel E xs" "x \<in> set xs" "map_of E k = Some e"
  shows "obj_key meta x = obj_key meta e \<longleftrightarrow> selects meta ns sel x \<and> key x = k"
proof -
  have "\<forall>ke \<in> set E. (obj_key meta x = obj_key meta (snd ke)) = (selects meta ns sel x \<and> key x = fst ke)"
    using assms(1,2) unfolding ready_def list_all_iff by blast
  from this[rule_format, OF map_of_SomeD[OF assms(3)]] show ?thesis by simp
qed

lemma ready_leftover:
  assumes "ready ns sel E xs" "x \<in> set xs" "selects meta ns sel x" "map_of E (key x) = None"
  shows "om_finalizers (meta x) = []"
  using assms unfolding ready_def list_all_iff by (simp add: map_of_eq_None_iff)

lemma expected_inj:
  assumes "ready ns sel E xs" "map_of E k = Some e" "map_of E k' = Some e'"
    and "obj_key meta e = obj_key meta e'"
  shows "k = k'" "e = e'"
proof -
  have "(k, e) \<in> set E" "(k', e') \<in> set E" using assms(2,3) by (auto dest: map_of_SomeD)
  moreover have "inj_on (obj_key meta \<circ> snd) (set E)"
    using readyD(4)[OF assms(1)] by (simp add: distinct_map)
  ultimately have "(k, e) = (k', e')" using assms(4) inj_onD[of "obj_key meta \<circ> snd" "set E" "(k, e)" "(k', e')"] by simp
  then show "k = k'" "e = e'" by simp_all
qed

lemma same_object: "distinct (map (obj_key meta) xs) \<Longrightarrow> x \<in> set xs \<Longrightarrow> y \<in> set xs \<Longrightarrow>
   obj_key meta x = obj_key meta y \<Longrightarrow> x = y"
  by (auto simp: distinct_map dest: inj_onD)

text \<open>The three maps of the plan, in whatever order they are ranged over.\<close>

definition plan_of :: "string \<Rightarrow> string gomap \<Rightarrow> 'o gomap \<Rightarrow> 'o list \<Rightarrow> 'o plan" where
  "plan_of ns sel E xs = classify key same upd (filter (selects meta ns sel) xs) (start_plan E)"

lemma plan_entry:
  assumes "ready ns sel E xs"
  shows "map_of (to_create (plan_of ns sel E xs)) k = Some e \<longleftrightarrow>
          map_of E k = Some e \<and> k \<notin> key ` {x \<in> set xs. selects meta ns sel x}"
    and "map_of (to_update (plan_of ns sel E xs)) k = Some u \<longleftrightarrow>
          (\<exists>x e. (x \<in> set xs \<and> selects meta ns sel x) \<and> key x = k \<and> map_of E k = Some e \<and>
                 \<not> same x e \<and> u = upd x e)"
    and "map_of (to_delete (plan_of ns sel E xs)) k = Some y \<longleftrightarrow>
          (y \<in> set xs \<and> selects meta ns sel y) \<and> key y = k \<and> map_of E k = None"
  using plan_create[OF readyD(3)[OF assms], where xs = "filter (selects meta ns sel) xs"]
    plan_update[OF readyD(2)[OF assms]] plan_delete[OF readyD(2)[OF assms]]
  by (simp_all add: plan_of_def conj_commute)

lemma plan_wf:
  assumes "ready ns sel E xs"
  shows "wf_map (to_create (plan_of ns sel E xs))" "wf_map (to_update (plan_of ns sel E xs))"
    "wf_map (to_delete (plan_of ns sel E xs))"
  unfolding plan_of_def
  by (intro classify_wf; use readyD(3)[OF assms] in simp)+

text \<open>An object to update keeps its name, an object to create has a fresh one.\<close>

lemma update_target:
  assumes r: "ready ns sel E xs" and u: "map_of (to_update (plan_of ns sel E xs)) k = Some u"
  obtains x e where "x \<in> set xs" "selects meta ns sel x" "map_of E k = Some e" "u = upd x e"
    "obj_key meta x = obj_key meta e" "obj_key meta u = obj_key meta e" "key u = k" "same u e"
    "selects meta ns sel u" "key x = k"
proof -
  obtain x e where x: "x \<in> set xs" "selects meta ns sel x" "key x = k" "map_of E k = Some e" "u = upd x e"
    using u unfolding plan_entry(2)[OF r] by blast
  note e = ready_expected[OF r x(4)]
  have o: "obj_key meta x = obj_key meta e" using ready_existing[OF r x(1,4)] x(2,3) by simp
  from that[OF x(1,2,4,5) o] show ?thesis
    using upd_obj_key[OF o] key_upd[of x e] same_upd[OF e(2)] upd_selects[OF x(2) e(3)] x e by simp
qed

lemma create_target:
  assumes r: "ready ns sel E xs" and c: "map_of (to_create (plan_of ns sel E xs)) k = Some e"
  shows "map_of E k = Some e" "\<And>x. x \<in> set xs \<Longrightarrow> obj_key meta x \<noteq> obj_key meta e"
proof -
  show E: "map_of E k = Some e" using c plan_entry(1)[OF r] by simp
  show "obj_key meta x \<noteq> obj_key meta e" if "x \<in> set xs" for x
    using ready_existing[OF r that E] c that unfolding plan_entry(1)[OF r] by blast
qed

text \<open>The objects after the three loops.\<close>

definition after_pass :: "string \<Rightarrow> string gomap \<Rightarrow> 'o gomap \<Rightarrow> 'o list \<Rightarrow> 'o gomap \<Rightarrow> 'o gomap \<Rightarrow> 'o gomap \<Rightarrow>
  'o list" where
  "after_pass ns sel E xs D C U =
     map (apply_updates meta (map snd U))
       (filter (\<lambda>y. obj_key meta y \<notin> obj_key meta ` snd ` set D) xs @ map snd C)"

definition plan_maps :: "string \<Rightarrow> string gomap \<Rightarrow> 'o gomap \<Rightarrow> 'o list \<Rightarrow> 'o gomap \<Rightarrow> 'o gomap \<Rightarrow> 'o gomap \<Rightarrow>
  bool" where
  "plan_maps ns sel E xs D C U \<longleftrightarrow> wf_map D \<and> wf_map C \<and> wf_map U \<and>
     map_of D = map_of (to_delete (plan_of ns sel E xs)) \<and>
     map_of C = map_of (to_create (plan_of ns sel E xs)) \<and>
     map_of U = map_of (to_update (plan_of ns sel E xs))"

lemma plan_maps_range:
  assumes "ready ns sel E xs" "range_order ord"
  shows "plan_maps ns sel E xs (go_range ord l (to_delete (plan_of ns sel E xs)))
     (go_range ord l' (to_create (plan_of ns sel E xs))) (go_range ord l'' (to_update (plan_of ns sel E xs)))"
  using plan_wf[OF assms(1)] by (simp add: plan_maps_def range_simps assms(2))

lemma plan_maps_mem:
  assumes "plan_maps ns sel E xs D C U"
  shows "(k, x) \<in> set D \<longleftrightarrow> map_of (to_delete (plan_of ns sel E xs)) k = Some x"
    "(k, x) \<in> set C \<longleftrightarrow> map_of (to_create (plan_of ns sel E xs)) k = Some x"
    "(k, x) \<in> set U \<longleftrightarrow> map_of (to_update (plan_of ns sel E xs)) k = Some x"
  using assms by (simp_all add: plan_maps_def flip: map_of_eq_Some_iff)

lemma distinct_obj_keys_map:
  assumes "wf_map m" "\<And>k k' x y. (k, x) \<in> set m \<Longrightarrow> (k', y) \<in> set m \<Longrightarrow>
     obj_key meta x = obj_key meta y \<Longrightarrow> k = k'"
  shows "distinct (map (obj_key meta \<circ> snd) m)"
  using assms
proof (induction m)
  case (Cons kx m)
  have "obj_key meta (snd kx) \<notin> (obj_key meta \<circ> snd) ` set m"
  proof
    assume "obj_key meta (snd kx) \<in> (obj_key meta \<circ> snd) ` set m"
    then obtain ky where ky: "ky \<in> set m" "obj_key meta (snd kx) = obj_key meta (snd ky)" by auto
    then have "fst kx = fst ky"
      using Cons.prems(2)[of "fst kx" "snd kx" "fst ky" "snd ky"] by simp
    with ky(1) Cons.prems(1) show False by auto
  qed
  moreover have "distinct (map (obj_key meta \<circ> snd) m)"
    by (rule Cons.IH) (use Cons.prems in auto)
  ultimately show ?case by (simp add: comp_def)
qed simp

lemma expected_kept:
  assumes r: "ready ns sel E xs" and pm: "plan_maps ns sel E xs D C U"
    and x: "x \<in> set xs" "map_of E k = Some e" "obj_key meta x = obj_key meta e"
  shows "obj_key meta x \<notin> obj_key meta ` snd ` set D"
proof
  assume "obj_key meta x \<in> obj_key meta ` snd ` set D"
  then obtain k' d where d: "(k', d) \<in> set D" "obj_key meta x = obj_key meta d" by auto
  then have d': "d \<in> set xs" "key d = k'" "map_of E k' = None"
    using plan_maps_mem(1)[OF pm] unfolding plan_entry(3)[OF r] by blast+
  then have "x = d" using same_object[OF readyD(1)[OF r] x(1)] d(2) by blast
  moreover have "key x = k" using ready_existing[OF r x(1,2)] x(3) by blast
  ultimately show False using d' x(2) by simp
qed

text \<open>The loops of a pass run through: names are distinct, and every object is where its call needs it.\<close>

lemma plan_names_distinct:
  assumes r: "ready ns sel E xs" and pm: "plan_maps ns sel E xs D C U"
  shows "distinct (map (obj_key meta \<circ> snd) C)" "distinct (map (obj_key meta \<circ> snd) U)"
proof -
  note mem = plan_maps_mem[OF pm]
  have wf: "wf_map C" "wf_map U" using pm by (simp_all add: plan_maps_def)
  show "distinct (map (obj_key meta \<circ> snd) C)"
    by (rule distinct_obj_keys_map[OF wf(1)]) (metis mem(2) create_target(1)[OF r] expected_inj(1)[OF r])
  show "distinct (map (obj_key meta \<circ> snd) U)"
  proof (rule distinct_obj_keys_map[OF wf(2)])
    fix k k' x y assume "(k, x) \<in> set U" "(k', y) \<in> set U" "obj_key meta x = obj_key meta y"
    then show "k = k'" using update_target[OF r] expected_inj(1)[OF r] by (metis mem(3))
  qed
qed

lemma created_fresh:
  assumes "ready ns sel E xs" "plan_maps ns sel E xs D C U" "kc \<in> set C" "x \<in> set xs"
  shows "obj_key meta (snd kc) \<noteq> obj_key meta x"
  using create_target(2)[OF assms(1) _ assms(4)] plan_maps_mem(2)[OF assms(2), of "fst kc" "snd kc"] assms(3)
  by (metis prod.collapse)

lemma updated_present:
  assumes r: "ready ns sel E xs" and pm: "plan_maps ns sel E xs D C U" and u: "ku \<in> set U"
  shows "\<exists>x \<in> set (filter (\<lambda>y. obj_key meta y \<notin> obj_key meta ` snd ` set D) xs). obj_key meta x = obj_key meta (snd ku)"
proof -
  have "map_of (to_update (plan_of ns sel E xs)) (fst ku) = Some (snd ku)"
    using plan_maps_mem(3)[OF pm, of "fst ku" "snd ku"] u by simp
  then obtain x e where x: "x \<in> set xs" "map_of E (fst ku) = Some e" "obj_key meta x = obj_key meta e"
      "obj_key meta x = obj_key meta (snd ku)"
    using update_target[OF r] by metis
  have "x \<in> set (filter (\<lambda>y. obj_key meta y \<notin> obj_key meta ` snd ` set D) xs)"
    using x(1) expected_kept[OF r pm x(1,2,3)] by simp
  with x(4) show ?thesis by blast
qed

lemma deletes_run:
  assumes r: "ready ns sel E (objs w)" and pm: "plan_maps ns sel E (objs w) D C U" and store: "kube_store meta cl objs"
  obtains w1 where "write_all (cl_delete cl) D w = (None, w1)"
    "objs w1 = filter (\<lambda>y. obj_key meta y \<notin> obj_key meta ` snd ` set D) (objs w)"
proof -
  have "\<forall>kx \<in> set D. om_finalizers (meta (snd kx)) = []"
    using plan_maps_mem(1)[OF pm] ready_leftover[OF r] unfolding plan_entry(3)[OF r] by force
  then show ?thesis using delete_loop[OF store] that by blast
qed

lemma pass_runs:
  assumes r: "ready ns sel E (objs w)" and pm: "plan_maps ns sel E (objs w) D C U"
    and store: "kube_store meta cl objs"
  shows "\<exists>w'. run_loops [write_all (cl_delete cl) D, write_all (cl_create cl) C,
                 write_all (cl_update cl) U] w = (None, w') \<and>
              objs w' = after_pass ns sel E (objs w) D C U"
proof -
  obtain w1 where w1: "write_all (cl_delete cl) D w = (None, w1)"
      "objs w1 = filter (\<lambda>y. obj_key meta y \<notin> obj_key meta ` snd ` set D) (objs w)"
    by (rule deletes_run[OF r pm store])
  have "\<forall>kx \<in> set C. obj_key meta (snd kx) \<notin> obj_key meta ` set (objs w1)"
    using created_fresh[OF r pm] by (auto simp: w1(2))
  then obtain w2 where w2: "write_all (cl_create cl) C w1 = (None, w2)" "objs w2 = objs w1 @ map snd C"
    using create_loop[OF store plan_names_distinct(1)[OF r pm]] by blast
  have "\<exists>x \<in> set (objs w2). obj_key meta x = obj_key meta (snd ku)" if "ku \<in> set U" for ku
    using updated_present[OF r pm that] unfolding w2(2) w1(2) set_append by blast
  then have "\<forall>ku \<in> set U. obj_key meta (snd ku) \<in> obj_key meta ` set (objs w2)" by (metis imageI)
  then obtain w3 where "write_all (cl_update cl) U w2 = (None, w3)"
      "objs w3 = map (apply_updates meta (map snd U)) (objs w2)"
    using update_loop[OF store plan_names_distinct(2)[OF r pm]] by blast
  with w1 w2 show ?thesis by (auto simp: after_pass_def)
qed

text \<open>Everything that is left and belongs to the site is as expected.\<close>

lemma untouched_sound:
  assumes r: "ready ns sel E xs" and pm: "plan_maps ns sel E xs D C U"
    and y: "y \<in> set xs" "obj_key meta y \<notin> obj_key meta ` snd ` set D" "selects meta ns sel y"
    and kept: "\<forall>u \<in> set (map snd U). obj_key meta u \<noteq> obj_key meta y"
  shows "\<exists>e. map_of E (key y) = Some e \<and> same y e \<and> obj_key meta y = obj_key meta e"
proof (cases "map_of E (key y)")
  case None
  then have "(key y, y) \<in> set D" using plan_entry(3)[OF r] plan_maps_mem(1)[OF pm] y(1,3) by blast
  then have "obj_key meta y \<in> obj_key meta ` snd ` set D" by force
  with y(2) show ?thesis by contradiction
next
  case (Some e)
  have o: "obj_key meta y = obj_key meta e" using ready_existing[OF r y(1) Some] y(3) by simp
  have "same y e"
  proof (rule ccontr)
    assume "\<not> same y e"
    then have u: "map_of (to_update (plan_of ns sel E xs)) (key y) = Some (upd y e)"
      using plan_entry(2)[OF r] y(1,3) Some by blast
    have "upd y e \<in> snd ` set U" using plan_maps_mem(3)[OF pm, of "key y" "upd y e"] u by force
    moreover have "obj_key meta (upd y e) = obj_key meta y" using upd_obj_key[OF o] o by simp
    ultimately show False using kept by auto
  qed
  with Some o show ?thesis by auto
qed

lemma after_pass_sound:
  assumes r: "ready ns sel E xs" and pm: "plan_maps ns sel E xs D C U"
    and z: "z \<in> set (after_pass ns sel E xs D C U)" "selects meta ns sel z"
  shows "\<exists>e. map_of E (key z) = Some e \<and> same z e \<and> obj_key meta z = obj_key meta e"
proof -
  note mem = plan_maps_mem[OF pm]
  obtain y where y: "z = apply_updates meta (map snd U) y"
      "(y \<in> set xs \<and> obj_key meta y \<notin> obj_key meta ` snd ` set D) \<or> y \<in> snd ` set C"
    using z(1) by (auto simp: after_pass_def)
  show ?thesis
  proof (cases rule: apply_updates_cases[of meta "map snd U" y])
    case updated
    then obtain k where "(k, z) \<in> set U" using y(1) by auto
    then have "map_of (to_update (plan_of ns sel E xs)) k = Some z" using mem(3) by simp
    then show ?thesis using update_target[OF r] by metis
  next
    case kept
    then have zy: "z = y" using y(1) by simp
    show ?thesis
    proof (cases "y \<in> snd ` set C")
      case True
      then obtain k where "map_of (to_create (plan_of ns sel E xs)) k = Some y" using mem(2) by auto
      then have E: "map_of E k = Some y" by (rule create_target(1)[OF r])
      show ?thesis using ready_expected[OF r E] E same_refl zy by auto
    next
      case False
      then show ?thesis using untouched_sound[OF r pm _ _ _ kept(2)] y(2) z(2) zy by simp
    qed
  qed
qed

text \<open>Everything that is expected is there.\<close>

lemma after_pass_complete:
  assumes r: "ready ns sel E xs" and pm: "plan_maps ns sel E xs D C U"
    and E: "map_of E k = Some e"
  shows "\<exists>z \<in> set (after_pass ns sel E xs D C U). selects meta ns sel z \<and> key z = k"
proof -
  note mem = plan_maps_mem[OF pm]
  note e = ready_expected[OF r E]
  obtain y where y: "y \<in> set (filter (\<lambda>y. obj_key meta y \<notin> obj_key meta ` snd ` set D) xs @ map snd C)"
      "obj_key meta y = obj_key meta e" "selects meta ns sel y" "key y = k"
  proof (cases "k \<in> key ` {x \<in> set xs. selects meta ns sel x}")
    case True
    then obtain x where x: "x \<in> set xs" "selects meta ns sel x" "key x = k" by blast
    then have "obj_key meta x = obj_key meta e" using ready_existing[OF r x(1) E] by simp
    with x expected_kept[OF r pm x(1) E] show ?thesis using that[of x] by simp
  next
    case False
    then have "map_of (to_create (plan_of ns sel E xs)) k = Some e" using E plan_entry(1)[OF r] by blast
    then have "e \<in> snd ` set C" using mem(2) by force
    with e show ?thesis using that[of e] by simp
  qed
  let ?z = "apply_updates meta (map snd U) y"
  have "?z \<in> set (after_pass ns sel E xs D C U)"
    using y(1) unfolding after_pass_def set_map by (rule imageI)
  moreover have "selects meta ns sel ?z \<and> key ?z = k"
  proof (cases rule: apply_updates_cases[of meta "map snd U" y])
    case updated
    then obtain k' where "map_of (to_update (plan_of ns sel E xs)) k' = Some ?z" using mem(3) by auto
    then obtain e' where "map_of E k' = Some e'" "obj_key meta ?z = obj_key meta e'" "key ?z = k'"
        "selects meta ns sel ?z"
      using update_target[OF r] by metis
    moreover from this have "k' = k" using expected_inj(1)[OF r _ E] updated(2) y(2) by metis
    ultimately show ?thesis by simp
  qed (use y in simp)
  ultimately show ?thesis by blast
qed

lemma after_pass_names:
  assumes r: "ready ns sel E xs" and pm: "plan_maps ns sel E xs D C U"
  shows "distinct (map (obj_key meta) (after_pass ns sel E xs D C U))"
proof -
  note mem = plan_maps_mem[OF pm]
  have wf: "wf_map C" using pm by (simp add: plan_maps_def)
  have "distinct (map (obj_key meta \<circ> snd) C)"
    by (rule distinct_obj_keys_map[OF wf])
      (metis mem(2) create_target(1)[OF r] expected_inj(1)[OF r])
  moreover have "obj_key meta x \<noteq> obj_key meta (snd kc)" if "x \<in> set xs" "kc \<in> set C" for x kc
    using create_target(2)[OF r] mem(2)[of "fst kc" "snd kc"] that by simp
  then have "obj_key meta ` set (filter P xs) \<inter> obj_key meta ` snd ` set C = {}" for P
    by fastforce
  moreover have "distinct (map (obj_key meta) (filter P xs))" for P
    using readyD(1)[OF r] by (rule distinct_map_filter)
  moreover have "map (obj_key meta) (after_pass ns sel E xs D C U) =
      map (obj_key meta) (filter (\<lambda>y. obj_key meta y \<notin> obj_key meta ` snd ` set D) xs @ map snd C)"
    by (simp add: after_pass_def comp_def)
  ultimately show ?thesis by (simp add: comp_def image_image)
qed

lemma after_pass_in_sync:
  assumes r: "ready ns sel E xs" and pm: "plan_maps ns sel E xs D C U"
  shows "in_sync E (filter (selects meta ns sel) (after_pass ns sel E xs D C U))"
proof -
  let ?zs = "filter (selects meta ns sel) (after_pass ns sel E xs D C U)"
  have sound: "\<exists>e. map_of E (key z) = Some e \<and> same z e \<and> obj_key meta z = obj_key meta e"
    if "z \<in> set ?zs" for z
    using after_pass_sound[OF r pm] that by auto
  have d: "distinct (map (obj_key meta) ?zs)"
    using after_pass_names[OF r pm] by (rule distinct_map_filter)
  have "inj_on key (set ?zs)"
  proof
    fix x y assume xy: "x \<in> set ?zs" "y \<in> set ?zs" "key x = key y"
    then have "obj_key meta x = obj_key meta y" using sound by (metis option.inject)
    then show "x = y" using same_object[OF d xy(1,2)] by simp
  qed
  moreover have "distinct ?zs" using d by (simp add: distinct_map)
  ultimately have "distinct (map key ?zs)" by (simp add: distinct_map)
  moreover have "key ` set ?zs = dom (map_of E)"
  proof
    show "key ` set ?zs \<subseteq> dom (map_of E)" using sound by blast
    show "dom (map_of E) \<subseteq> key ` set ?zs" using after_pass_complete[OF r pm] by force
  qed
  moreover have "same z e" if "z \<in> set ?zs" "map_of E (key z) = Some e" for z e
    using sound[OF that(1)] that(2) by simp
  ultimately show ?thesis by (simp only: in_sync_def) blast
qed

text \<open>What a pass leaves was there, is expected, or is an update of the one by the other.\<close>

lemma after_pass_members:
  assumes r: "ready ns sel E xs" and pm: "plan_maps ns sel E xs D C U" and z: "z \<in> set (after_pass ns sel E xs D C U)"
  shows "z \<in> set xs \<union> snd ` set E \<or> (\<exists>x \<in> set xs. \<exists>e \<in> snd ` set E. obj_key meta x = obj_key meta e \<and> z = upd x e)"
proof -
  note mem = plan_maps_mem[OF pm]
  obtain y where y: "z = apply_updates meta (map snd U) y" "y \<in> set xs \<or> y \<in> snd ` set C"
    using z by (auto simp: after_pass_def)
  show ?thesis
  proof (cases rule: apply_updates_cases[of meta "map snd U" y])
    case updated
    then obtain k where "map_of (to_update (plan_of ns sel E xs)) k = Some z" using y(1) mem(3) by auto
    then obtain x e where "x \<in> set xs" "map_of E k = Some e" "obj_key meta x = obj_key meta e" "z = upd x e"
      using update_target[OF r] by metis
    then show ?thesis by (metis imageI map_of_SomeD snd_conv)
  next
    case kept
    show ?thesis
    proof (cases "y \<in> set xs")
      case False
      then obtain k where "map_of (to_create (plan_of ns sel E xs)) k = Some y" using y(2) mem(2) by auto
      then have "map_of E k = Some y" by (rule create_target(1)[OF r])
      then show ?thesis using kept(1) y(1) by (metis UnI2 imageI map_of_SomeD snd_conv)
    qed (use kept(1) y(1) in simp)
  qed
qed

lemma pass_converges:
  assumes r: "ready ns sel E (objs w)" and pm: "plan_maps ns sel E (objs w) D C U"
    and store: "kube_store meta cl objs"
  obtains w' where "run_loops [write_all (cl_delete cl) D, write_all (cl_create cl) C,
       write_all (cl_update cl) U] w = (None, w')"
    "in_sync E (filter (selects meta ns sel) (objs w'))"
  using pass_runs[OF r pm store] after_pass_in_sync[OF r pm] by metis

text \<open>The pass of the handlers that have no loop of updates.\<close>

lemma pass_without_updates:
  assumes r: "ready ns sel E (objs w)" and ord: "range_order ord" and store: "kube_store meta cl objs"
    and none: "to_update (plan_of ns sel E (objs w)) = []"
  obtains w' where
    "run_loops [write_all (cl_delete cl) (go_range ord i (to_delete (plan_of ns sel E (objs w)))),
       write_all (cl_create cl) (go_range ord j (to_create (plan_of ns sel E (objs w))))] w = (None, w')"
    "in_sync E (filter (selects meta ns sel) (objs w'))" "set (objs w') \<subseteq> set (objs w) \<union> snd ` set E"
proof -
  let ?D = "go_range ord i (to_delete (plan_of ns sel E (objs w)))"
  let ?C = "go_range ord j (to_create (plan_of ns sel E (objs w)))"
  have pm: "plan_maps ns sel E (objs w) ?D ?C []"
    using plan_maps_range[OF r ord, of i j] none ord by (simp add: range_simps)
  obtain w' where w': "run_loops [write_all (cl_delete cl) ?D, write_all (cl_create cl) ?C,
       write_all (cl_update cl) []] w = (None, w')" "objs w' = after_pass ns sel E (objs w) ?D ?C []"
    using pass_runs[OF r pm store] by blast
  have "run_loops [write_all (cl_delete cl) ?D, write_all (cl_create cl) ?C] w = (None, w')"
    using w'(1) by (auto split: prod.splits option.splits)
  moreover have "in_sync E (filter (selects meta ns sel) (objs w'))"
    using after_pass_in_sync[OF r pm] w'(2) by simp
  moreover have "snd kc \<in> snd ` set E" if "kc \<in> set ?C" for kc
  proof -
    have "map_of (to_create (plan_of ns sel E (objs w))) (fst kc) = Some (snd kc)"
      using plan_maps_mem(2)[OF pm, of "fst kc" "snd kc"] that by simp
    then have "map_of E (fst kc) = Some (snd kc)" by (rule create_target(1)[OF r])
    then show ?thesis by (metis image_eqI map_of_SomeD snd_conv)
  qed
  then have "set (objs w') \<subseteq> set (objs w) \<union> snd ` set E"
    by (auto simp: w'(2) after_pass_def apply_updates_def)
  ultimately show ?thesis by (rule that)
qed

text \<open>The same pass with the updates before the creations, as the site handlers order them.\<close>

lemma pass_runs_update_first:
  assumes r: "ready ns sel E (objs w)" and pm: "plan_maps ns sel E (objs w) D C U"
    and store: "kube_store meta cl objs"
  shows "\<exists>w'. run_loops [write_all (cl_delete cl) D, write_all (cl_update cl) U,
                 write_all (cl_create cl) C] w = (None, w') \<and>
              objs w' = after_pass ns sel E (objs w) D C U"
proof -
  obtain w1 where w1: "write_all (cl_delete cl) D w = (None, w1)"
      "objs w1 = filter (\<lambda>y. obj_key meta y \<notin> obj_key meta ` snd ` set D) (objs w)"
    by (rule deletes_run[OF r pm store])
  have target: "\<exists>x \<in> set (objs w1). obj_key meta x = obj_key meta (snd ku)" if "ku \<in> set U" for ku
    using updated_present[OF r pm that] unfolding w1(2) .
  then have "\<forall>ku \<in> set U. obj_key meta (snd ku) \<in> obj_key meta ` set (objs w1)" by (metis imageI)
  then obtain w2 where w2: "write_all (cl_update cl) U w1 = (None, w2)"
      "objs w2 = map (apply_updates meta (map snd U)) (objs w1)"
    using update_loop[OF store plan_names_distinct(2)[OF r pm]] by blast
  note fresh = created_fresh[OF r pm]
  have "\<forall>kc \<in> set C. obj_key meta (snd kc) \<notin> obj_key meta ` set (objs w2)"
    using fresh by (auto simp: w2(2) w1(2))
  then obtain w3 where w3: "write_all (cl_create cl) C w2 = (None, w3)" "objs w3 = objs w2 @ map snd C"
    using create_loop[OF store plan_names_distinct(1)[OF r pm]] by blast
  have "apply_updates meta (map snd U) (snd kc) = snd kc" if "kc \<in> set C" for kc
  proof -
    have "obj_key meta (snd ku) \<noteq> obj_key meta (snd kc)" if "ku \<in> set U" for ku
      using target[OF that] fresh[OF \<open>kc \<in> set C\<close>] by (force simp: w1(2))
    then have "find (\<lambda>u. obj_key meta u = obj_key meta (snd kc)) (map snd U) = None"
      by (simp add: find_None_iff)
    then show ?thesis by (simp add: apply_updates_def)
  qed
  then have "objs w3 = after_pass ns sel E (objs w) D C U"
    by (simp add: after_pass_def w3(2) w2(2) w1(2))
  with w1(1) w2(1) w3(1) show ?thesis by auto
qed

lemma pass_converges_update_first:
  assumes "ready ns sel E (objs w)" "plan_maps ns sel E (objs w) D C U" "kube_store meta cl objs"
  obtains w' where "run_loops [write_all (cl_delete cl) D, write_all (cl_update cl) U,
       write_all (cl_create cl) C] w = (None, w')"
    "in_sync E (filter (selects meta ns sel) (objs w'))"
  using pass_runs_update_first[OF assms] after_pass_in_sync[OF assms(1,2)] by metis

lemma second_pass:
  assumes "in_sync E xs" "map_of E' = map_of E" "wf_map E'" "range_order ord"
  defines "p \<equiv> classify key same upd xs (start_plan E')"
  shows "plan_empty p"
    "run_loops [write_all f (go_range ord 1 (to_delete p)), write_all g (go_range ord 2 (to_create p)),
                write_all h (go_range ord 3 (to_update p))] w = (None, w)"
proof -
  have "in_sync E' xs" using assms(1) in_sync_cong[OF assms(2)] by simp
  moreover from this have "distinct (map key xs)" by (simp add: in_sync_def)
  ultimately show e: "plan_empty p" unfolding p_def using plan_empty_iff[OF _ assms(3)] by blast
  show "run_loops [write_all f (go_range ord 1 (to_delete p)), write_all g (go_range ord 2 (to_create p)),
                write_all h (go_range ord 3 (to_update p))] w = (None, w)"
    using e assms(4) by (simp add: plan_empty_def)
qed

end

lemma plan_empty_writes:
  assumes "plan_empty p" "range_order ord"
    and "run_loops [write_all f (go_range ord 1 (to_delete p)), write_all g (go_range ord 2 (to_create p)),
                write_all h (go_range ord 3 (to_update p))] w = (r, w')"
  shows "w' = w"
  using assms by (simp add: plan_empty_def)

end
