(* ===== verification/TaskTypes.thy ===== *)
theory TaskTypes
  imports Naming Converge
begin

text \<open>
  The task resources \<^verbatim>\<open>MysqlDatabase\<close>, \<^verbatim>\<open>MongoDatabase\<close> and \<^verbatim>\<open>RedisDatabase\<close> with their helper
  methods (\<^verbatim>\<open>apis/task/v1\<close>). The first two have the same fields in the source and are one record
  here, under two names. \<^verbatim>\<open>reflect.DeepEqual\<close> on label maps is \<open>map_eq\<close>; the other fields are
  compared by value.
\<close>

datatype task_state = TaskUnset | TaskPending | TaskFailed | TaskComplete

fun task_state_string :: "task_state \<Rightarrow> string" where
  "task_state_string TaskUnset = []"
| "task_state_string TaskPending = ''Pending''"
| "task_state_string TaskFailed = ''Failed''"
| "task_state_string TaskComplete = ''Complete''"

record user_database_spec =
  ud_environment :: environment_config
  ud_database_name :: string
  ud_username :: string
  ud_password :: string

record user_database =
  db_meta :: object_meta
  db_spec :: user_database_spec
  db_state :: task_state

type_synonym mysql_database = user_database
type_synonym mongo_database = user_database

record redis_database_spec =
  rd_environment :: environment_config
  rd_number :: "32 word"

record redis_database =
  rd_meta :: object_meta
  rd_spec :: redis_database_spec
  rd_state :: task_state

definition task_object_name :: "digest \<Rightarrow> staging_site \<Rightarrow> service_config \<Rightarrow> string" where
  "task_object_name md5 site config =
     ShortenHumanReadableValue md5 (st_name site) 50 @ ''-'' @ sc_short_name config"

text \<open>The nil check of \<^verbatim>\<open>PopulateFomSite\<close> is the option; every caller passes a config.\<close>

definition MysqlDatabase_PopulateFomSite ::
  "digest \<Rightarrow> staging_site \<Rightarrow> service_config option \<Rightarrow> string \<Rightarrow> go_error + mysql_database" where
  "MysqlDatabase_PopulateFomSite md5 site config environmentName =
     (case config of
        None \<Rightarrow> Inl (PlainError ''no service config provided'')
      | Some config \<Rightarrow>
          Inr \<lparr>db_meta = new_meta (task_object_name md5 site config) (st_namespace site)
                 [(labels_Site, st_name site), (labels_Service, sc_name config),
                  (labels_MysqlEnvironment, environmentName)],
               db_spec = \<lparr>ud_environment = \<lparr>ec_service_name = sc_name config,
                            ec_site_name = st_name site, ec_environment = environmentName\<rparr>,
                          ud_database_name = MakeDatabaseName md5 site config,
                          ud_username = MakeUsername md5 site config,
                          ud_password = sp_password (st_spec site)\<rparr>,
               db_state = TaskUnset\<rparr>)"

definition MongoDatabase_PopulateFomSite ::
  "digest \<Rightarrow> staging_site \<Rightarrow> service_config option \<Rightarrow> string \<Rightarrow> go_error + mongo_database" where
  "MongoDatabase_PopulateFomSite md5 site config environmentName =
     (case config of
        None \<Rightarrow> Inl (PlainError ''no service config provided'')
      | Some config \<Rightarrow>
          Inr \<lparr>db_meta = new_meta (task_object_name md5 site config) (st_namespace site)
                 [(labels_Site, st_name site), (labels_Service, sc_name config),
                  (labels_MongoEnvironment, environmentName)],
               db_spec = \<lparr>ud_environment = \<lparr>ec_service_name = sc_name config,
                            ec_site_name = st_name site, ec_environment = environmentName\<rparr>,
                          ud_database_name = MakeDatabaseName md5 site config,
                          ud_username = MakeUsername md5 site config,
                          ud_password = sp_password (st_spec site)\<rparr>,
               db_state = TaskUnset\<rparr>)"

definition MysqlDatabase_Matches :: "mysql_database \<Rightarrow> mysql_database \<Rightarrow> bool" where
  "MysqlDatabase_Matches r other \<longleftrightarrow>
     db_spec r = db_spec other \<and> om_name (db_meta r) = om_name (db_meta other) \<and>
     om_namespace (db_meta r) = om_namespace (db_meta other) \<and>
     map_eq (om_labels (db_meta r)) (om_labels (db_meta other))"

definition MysqlDatabase_UpdateFromExpected :: "mysql_database \<Rightarrow> mysql_database \<Rightarrow> mysql_database" where
  "MysqlDatabase_UpdateFromExpected r expected =
     r\<lparr>db_spec := db_spec expected,
       db_meta := (db_meta r)\<lparr>om_name := om_name (db_meta expected),
                              om_namespace := om_namespace (db_meta expected),
                              om_labels := om_labels (db_meta expected)\<rparr>\<rparr>"

definition MongoDatabase_Matches :: "mongo_database \<Rightarrow> mongo_database \<Rightarrow> bool" where
  "MongoDatabase_Matches r other \<longleftrightarrow>
     db_spec r = db_spec other \<and> om_name (db_meta r) = om_name (db_meta other) \<and>
     om_namespace (db_meta r) = om_namespace (db_meta other) \<and>
     map_eq (om_labels (db_meta r)) (om_labels (db_meta other))"

definition MongoDatabase_UpdateFromExpected :: "mongo_database \<Rightarrow> mongo_database \<Rightarrow> mongo_database" where
  "MongoDatabase_UpdateFromExpected r expected =
     r\<lparr>db_spec := db_spec expected,
       db_meta := (db_meta r)\<lparr>om_name := om_name (db_meta expected),
                              om_namespace := om_namespace (db_meta expected),
                              om_labels := om_labels (db_meta expected)\<rparr>\<rparr>"

definition RedisDatabase_PopulateFomSite ::
  "digest \<Rightarrow> staging_site \<Rightarrow> service_config option \<Rightarrow> string \<Rightarrow> go_error + redis_database" where
  "RedisDatabase_PopulateFomSite md5 site config environmentName =
     (case config of
        None \<Rightarrow> Inl (PlainError ''no service config provided'')
      | Some config \<Rightarrow>
          Inr \<lparr>rd_meta = new_meta (task_object_name md5 site config) (st_namespace site)
                 [(labels_Site, st_name site), (labels_Service, sc_name config),
                  (labels_RedisEnvironment, environmentName)],
               rd_spec = \<lparr>rd_environment = \<lparr>ec_service_name = sc_name config,
                            ec_site_name = st_name site, ec_environment = environmentName\<rparr>,
                          rd_number = 0\<rparr>,
               rd_state = TaskUnset\<rparr>)"

definition RedisDatabase_Matches :: "redis_database \<Rightarrow> redis_database \<Rightarrow> bool" where
  "RedisDatabase_Matches r other \<longleftrightarrow>
     rd_environment (rd_spec r) = rd_environment (rd_spec other) \<and>
     om_name (rd_meta r) = om_name (rd_meta other) \<and>
     om_namespace (rd_meta r) = om_namespace (rd_meta other) \<and>
     map_eq (om_labels (rd_meta r)) (om_labels (rd_meta other))"

definition RedisDatabase_UpdateFromExpected :: "redis_database \<Rightarrow> redis_database \<Rightarrow> redis_database" where
  "RedisDatabase_UpdateFromExpected r expected =
     r\<lparr>rd_spec := rd_spec expected,
       rd_meta := (rd_meta r)\<lparr>om_name := om_name (rd_meta expected),
                              om_namespace := om_namespace (rd_meta expected),
                              om_labels := om_labels (rd_meta expected)\<rparr>\<rparr>"

lemmas task_populate_defs = MysqlDatabase_PopulateFomSite_def MongoDatabase_PopulateFomSite_def
  RedisDatabase_PopulateFomSite_def


section \<open>The contract of the database types\<close>

definition db_service :: "user_database \<Rightarrow> string" where
  "db_service d = ec_service_name (ud_environment (db_spec d))"

definition rd_service :: "redis_database \<Rightarrow> string" where
  "rd_service d = ec_service_name (rd_environment (rd_spec d))"

definition wf_labels :: "object_meta \<Rightarrow> bool" where
  "wf_labels m \<longleftrightarrow> wf_map (om_labels m)"

lemma Mongo_Matches_Mysql: "MongoDatabase_Matches = MysqlDatabase_Matches"
  by (intro ext) (simp add: MongoDatabase_Matches_def MysqlDatabase_Matches_def)

lemma Mongo_Update_Mysql: "MongoDatabase_UpdateFromExpected = MysqlDatabase_UpdateFromExpected"
  by (intro ext) (simp add: MongoDatabase_UpdateFromExpected_def MysqlDatabase_UpdateFromExpected_def)

lemma map_eq_sym: "map_eq a b = map_eq b a"
  by (auto simp: map_eq_def)

lemma Mysql_Matches_sym: "MysqlDatabase_Matches a b = MysqlDatabase_Matches b a"
  by (auto simp: MysqlDatabase_Matches_def map_eq_sym)

interpretation mysql: store_kind db_service MysqlDatabase_Matches MysqlDatabase_UpdateFromExpected
    "\<lambda>d. wf_labels (db_meta d)" db_meta
  by unfold_locales
    (simp_all add: db_service_def MysqlDatabase_Matches_def MysqlDatabase_UpdateFromExpected_def
       wf_labels_def map_eq_refl obj_key_def selects_def)

interpretation mongo: store_kind db_service "\<lambda>x e. MongoDatabase_Matches e x"
    MongoDatabase_UpdateFromExpected "\<lambda>d. wf_labels (db_meta d)" db_meta
  by unfold_locales
    (simp_all add: db_service_def MongoDatabase_Matches_def MongoDatabase_UpdateFromExpected_def
       wf_labels_def map_eq_refl obj_key_def selects_def)

interpretation redis: store_kind rd_service "\<lambda>x e. RedisDatabase_Matches e x"
    RedisDatabase_UpdateFromExpected "\<lambda>d. wf_labels (rd_meta d)" rd_meta
  by unfold_locales
    (simp_all add: rd_service_def RedisDatabase_Matches_def RedisDatabase_UpdateFromExpected_def
       wf_labels_def map_eq_refl obj_key_def selects_def)

definition crd_value :: "nat \<Rightarrow> string \<Rightarrow> bool" where
  "crd_value n s \<longleftrightarrow> s \<noteq> [] \<and> length s \<le> n \<and> list_all db_char s"

definition crd_user_database :: "user_database \<Rightarrow> bool" where
  "crd_user_database d \<longleftrightarrow> crd_value 63 (ud_database_name (db_spec d)) \<and>
     crd_value 16 (ud_username (db_spec d)) \<and> crd_value 32 (ud_password (db_spec d)) \<and>
     length (om_name (db_meta d)) \<le> 63"

lemma task_object_name_length:
  "length (sc_short_name config) \<le> 9 \<Longrightarrow> length (task_object_name md5 site config) \<le> 60"
  using Shorten_length[of 50 md5 "st_name site"] by (simp add: task_object_name_def)

lemma database_identifiers:
  assumes "digest_ok md5"
  shows "crd_value 63 (MakeDatabaseName md5 site service)" "crd_value 16 (MakeUsername md5 site service)"
proof -
  show "crd_value 63 (MakeDatabaseName md5 site service)"
    using MakeDatabaseName_chars[OF assms] MakeDatabaseName_length MakeDatabaseName_nonempty
    by (simp add: crd_value_def)
  show "crd_value 16 (MakeUsername md5 site service)"
    using MakeUsername_facts[OF assms] by (simp add: crd_value_def)
qed

text \<open>
  The objects that \<^verbatim>\<open>PopulateFomSite\<close> builds are acceptable to the resource definitions: for
  a password that the site's own definition admits, the database name, the user name and the
  password of a MySQL or Mongo database match the pattern \<^verbatim>\<open>[_a-zA-Z0-9]+\<close> and its length limits,
  and the object name has at most 60 characters for the short names of at most 9 characters.
\<close>

theorem populated_databases_admissible:
  assumes "digest_ok md5" "crd_value 32 (sp_password (st_spec site))"
    and "length (sc_short_name config) \<le> 9"
    and "MysqlDatabase_PopulateFomSite md5 site (Some config) env = Inr d \<or>
         MongoDatabase_PopulateFomSite md5 site (Some config) env = Inr d"
  shows "crd_user_database d"
  using assms database_identifiers[OF assms(1)] task_object_name_length[OF assms(3), of md5 site]
  by (auto simp: crd_user_database_def task_populate_defs)

theorem populated_databases_admissible_witness:
  "crd_user_database (projr (MysqlDatabase_PopulateFomSite toy_md5
     ((toy_site ''my-site'' ''db'')) (Some (toy_service ''shop'' ''sh'')) ''env''))"
  by (rule populated_databases_admissible[OF digest_ok_toy, where site = "toy_site ''my-site'' ''db''"
        and config = "toy_service ''shop'' ''sh''" and env = "''env''"])
    (simp_all add: task_populate_defs crd_value_def toy_site_def GetDummySite_def db_char_def
       char_class_defs toy_service_def)

end
