(* ===== verification/JobTypes.thy ===== *)
theory JobTypes
  imports TaskTypes
begin

text \<open>
  The job resources \<^verbatim>\<open>DbInitJob\<close>, \<^verbatim>\<open>DbMigrationJob\<close> and \<^verbatim>\<open>Backup\<close> with their helper methods
  (\<^verbatim>\<open>apis/job/v1\<close>). A state is a Go string; the empty string of a fresh object and a value
  outside the four constants are kept.
\<close>

datatype job_state = JobUnset | JobPending | JobRunning | JobFailed | JobComplete | JobUnknown string

definition JobState_IsFinal :: "job_state \<Rightarrow> bool" where
  "JobState_IsFinal r = (if r = JobFailed \<or> r = JobComplete then True else False)"

lemma JobState_IsFinal_simps [simp]:
  "JobState_IsFinal JobFailed" "JobState_IsFinal JobComplete" "\<not> JobState_IsFinal JobUnset"
  "\<not> JobState_IsFinal JobPending" "\<not> JobState_IsFinal JobRunning" "\<not> JobState_IsFinal (JobUnknown s)"
  by (simp_all add: JobState_IsFinal_def)

record db_init_job_spec =
  dis_site :: string
  dis_service :: string
  dis_mysql :: string
  dis_mongo :: string
  dis_source :: string
  dis_database :: string
  dis_username :: string
  dis_password :: string
  dis_deadline_seconds :: "64 word"

record db_init_job_status =
  dit_state :: job_state
  dit_not_found :: "32 word"
  dit_deadline :: "time option"

record db_init_job =
  di_meta :: object_meta
  di_spec :: db_init_job_spec
  di_status :: db_init_job_status

record db_migration_job_spec =
  dms_site :: string
  dms_service :: string
  dms_image_tag :: string
  dms_deadline_seconds :: "64 word"

record db_migration_job_status =
  dmt_state :: job_state
  dmt_not_found :: "32 word"
  dmt_last_tag :: string
  dmt_deadline :: "time option"

record db_migration_job =
  dm_meta :: object_meta
  dm_spec :: db_migration_job_spec
  dm_status :: db_migration_job_status

datatype backup_type = BackupTypeManual | BackupTypeScheduled | BackupTypeFinal | BackupTypeOther string

record backup_detail =
  bd_state :: job_state
  bd_started :: "time option"
  bd_finished :: "time option"

record backup =
  bk_meta :: object_meta
  bk_site :: string
  bk_type :: backup_type
  bk_detail :: backup_detail
  bk_services :: "backup_detail gomap"

definition zero_detail :: backup_detail where
  "zero_detail = \<lparr>bd_state = JobUnset, bd_started = None, bd_finished = None\<rparr>"

definition DbInitJob_PopulateFomSite ::
  "digest \<Rightarrow> staging_site \<Rightarrow> service_config \<Rightarrow> string \<Rightarrow> string \<Rightarrow> go_error + db_init_job" where
  "DbInitJob_PopulateFomSite md5 site config mysqlEnvironment mongoEnvironment =
     (case map_of (site_services site) (sc_name config) of
        None \<Rightarrow> Inl (PlainError (''service '' @ sc_name config @ '' is not in the site spec''))
      | Some siteService \<Rightarrow>
          Inr \<lparr>di_meta = new_meta (task_object_name md5 site config) (st_namespace site)
                 [(labels_Site, st_name site), (labels_Service, sc_name config)],
               di_spec =
                 \<lparr>dis_site = st_name site, dis_service = sc_name config,
                  dis_mysql = mysqlEnvironment, dis_mongo = mongoEnvironment,
                  dis_source = svc_init_source siteService,
                  dis_database = MakeDatabaseName md5 site config,
                  dis_username = MakeUsername md5 site config,
                  dis_password = sp_password (st_spec site), dis_deadline_seconds = 600\<rparr>,
               di_status = \<lparr>dit_state = JobUnset, dit_not_found = 0, dit_deadline = None\<rparr>\<rparr>)"

definition DbMigrationJob_PopulateFomSite ::
  "digest \<Rightarrow> staging_site \<Rightarrow> service_config \<Rightarrow> go_error + db_migration_job" where
  "DbMigrationJob_PopulateFomSite md5 site config =
     (if sc_migration_pod_spec config = None
      then Inl (PlainError ''no migration pod spec specified in the service config'')
      else Inr \<lparr>dm_meta = new_meta (task_object_name md5 site config) (st_namespace site)
                  [(labels_Site, st_name site), (labels_Service, sc_name config)],
                dm_spec =
                  \<lparr>dms_site = st_name site, dms_service = sc_name config,
                   dms_image_tag = svc_image_tag (site_service_of site (sc_name config)),
                   dms_deadline_seconds = 600\<rparr>,
                dm_status = \<lparr>dmt_state = JobUnset, dmt_not_found = 0, dmt_last_tag = [],
                             dmt_deadline = None\<rparr>\<rparr>)"

definition DbMigrationJob_Matches :: "db_migration_job \<Rightarrow> db_migration_job \<Rightarrow> bool" where
  "DbMigrationJob_Matches r job \<longleftrightarrow>
     dms_site (dm_spec r) = dms_site (dm_spec job) \<and> dms_service (dm_spec r) = dms_service (dm_spec job) \<and>
     dms_image_tag (dm_spec r) = dms_image_tag (dm_spec job)"

definition DbMigrationJob_UpdateFrom :: "db_migration_job \<Rightarrow> db_migration_job \<Rightarrow> db_migration_job" where
  "DbMigrationJob_UpdateFrom r job = r\<lparr>dm_spec := dm_spec job\<rparr>"

definition di_service :: "db_init_job \<Rightarrow> string" where
  "di_service j = dis_service (di_spec j)"

definition dm_service :: "db_migration_job \<Rightarrow> string" where
  "dm_service j = dms_service (dm_spec j)"

text \<open>
  Init jobs are never updated: an existing job for a service matches whatever it says.
\<close>

interpretation dbinit: store_kind di_service "\<lambda>x e. True" "\<lambda>x e. x" "\<lambda>d. True" di_meta
  by unfold_locales simp_all

interpretation migration: store_kind dm_service DbMigrationJob_Matches DbMigrationJob_UpdateFrom
    "\<lambda>d. True" dm_meta
  by unfold_locales
    (simp_all add: dm_service_def DbMigrationJob_Matches_def DbMigrationJob_UpdateFrom_def obj_key_def
       selects_def)

end
