(* ===== verification/Controllers.thy ===== *)
theory Controllers
  imports SiteTemplate PodSpec ConfigTypes JobTypes
begin

text \<open>
  What the controllers share: the result of a reconcile call, \<^verbatim>\<open>controllers/helpers.go\<close>, the
  batch job of Kubernetes with the fields the sources use, and the external functions bundled in
  one record.
\<close>

record ctrl_result =
  rs_requeue :: bool
  rs_after :: int

definition no_requeue :: ctrl_result where "no_requeue = \<lparr>rs_requeue = False, rs_after = 0\<rparr>"
definition requeue_now :: ctrl_result where "requeue_now = \<lparr>rs_requeue = True, rs_after = 0\<rparr>"

lemma requeue_distinct [simp]: "no_requeue \<noteq> requeue_now" "requeue_now \<noteq> no_requeue"
  by (simp_all add: no_requeue_def requeue_now_def)

type_synonym reconcile_result = "ctrl_result \<times> go_error option"

definition SaveStatusUpdatesIfObjectChanged ::
  "bool \<Rightarrow> ('w, 'o) client \<Rightarrow> 'o \<Rightarrow> ctrl_result \<Rightarrow> go_error option \<Rightarrow> 'w \<Rightarrow> reconcile_result \<times> 'w" where
  "SaveStatusUpdatesIfObjectChanged isChanged writer obj result err w =
     (if \<not> isChanged then ((result, err), w)
      else case cl_update_status writer obj w of
             (r, w') \<Rightarrow> ((result, if err = None then (case r of Inl newErr \<Rightarrow> Some newErr | Inr _ \<Rightarrow> None) else err), w'))"

record externals =
  ex_md5 :: digest
  ex_set_ref :: set_ref
  ex_order :: order
  ex_sort :: "env_var list \<Rightarrow> env_var list"
  ex_pod_codec :: "pod_spec codec"
  ex_service_codec :: "service_spec codec"
  ex_ingress_codec :: "ingress_spec codec"

record job_condition =
  cn_type :: string
  cn_status :: string
  cn_transition :: time

record batch_job =
  bj_meta :: object_meta
  bj_deadline :: "64 word"
  bj_backoff :: "32 word"
  bj_ttl :: "32 word"
  bj_pod_labels :: "string gomap"
  bj_pod :: pod_spec
  bj_conditions :: "job_condition list"
  bj_start :: "time option"
  bj_completion :: "time option"

definition condition_true :: "string \<Rightarrow> job_condition \<Rightarrow> bool" where
  "condition_true ty v \<longleftrightarrow> cn_type v = ty \<and> cn_status v = ''True''"

text \<open>
  The loop over the conditions that the three job controllers share: the first condition that is
  true and one of Complete and Failed decides.
\<close>

fun finished_state :: "job_condition list \<Rightarrow> job_state option" where
  "finished_state [] = None"
| "finished_state (v # vs) =
     (if condition_true ''Complete'' v then Some JobComplete
      else if condition_true ''Failed'' v then Some JobFailed
      else finished_state vs)"

definition set_restart_policy :: "pod_spec \<Rightarrow> pod_spec" where
  "set_restart_policy podSpec =
     (if ps_restart_policy podSpec \<noteq> ''OnFailure'' \<and> ps_restart_policy podSpec \<noteq> ''Never''
      then podSpec\<lparr>ps_restart_policy := ''OnFailure''\<rparr> else podSpec)"

record 'w job_clients =
  jc_configs :: "'w config_clients"
  jc_sites :: "('w, staging_site) client"
  jc_batch :: "('w, batch_job) client"

lemma finished_state_Some:
  "finished_state cs = Some s \<Longrightarrow> s = JobComplete \<and> (\<exists>c \<in> set cs. condition_true ''Complete'' c) \<or>
     s = JobFailed \<and> (\<exists>c \<in> set cs. condition_true ''Failed'' c)"
  by (induction cs) (auto split: if_splits)

lemma finished_state_None:
  "finished_state cs = None \<longleftrightarrow> (\<forall>c \<in> set cs. \<not> condition_true ''Complete'' c \<and> \<not> condition_true ''Failed'' c)"
  by (induction cs) auto

lemma SetExtraEnvVars_policy [simp]:
  "ps_restart_policy (SetExtraEnvVarsOnPodSpec srt ord l spec site cfg) = ps_restart_policy spec"
  by (simp add: SetExtraEnvVarsOnPodSpec_def Let_def)

lemma set_restart_policy_ok:
  "ps_restart_policy (set_restart_policy spec) = ''OnFailure'' \<or>
   ps_restart_policy (set_restart_policy spec) = ''Never''"
  by (simp add: set_restart_policy_def)

end
