(* ===== verification/DbInitController.thy ===== *)
theory DbInitController
  imports Controllers
begin

text \<open>
  \<^verbatim>\<open>controllers/job/dbinitjob_controller.go\<close>: a \<^verbatim>\<open>DbInitJob\<close> goes from Pending over Running to
  Complete or Failed while the controller creates one batch job and watches it. Metrics, logging
  and Sentry are left out. \<open>now\<close> is the reading of the clock in the call.
\<close>

definition DbInitMaxJobFailedLoadLimit :: "32 word" where
  "DbInitMaxJobFailedLoadLimit = 5"

definition dbinit_selector :: "db_init_job \<Rightarrow> string gomap" where
  "dbinit_selector job = [(labels_JobName, om_name (di_meta job)), (labels_Type, ''dbinit'')]"

definition getOwnedInitJobs :: "('w, batch_job) client \<Rightarrow> db_init_job \<Rightarrow> 'w \<Rightarrow> go_error + batch_job list" where
  "getOwnedInitJobs batch job w = cl_list batch (om_namespace (di_meta job)) (dbinit_selector job) w"

definition DbInit_processRunningJob ::
  "('w, batch_job) client \<Rightarrow> time \<Rightarrow> db_init_job \<Rightarrow> 'w \<Rightarrow> go_error + bool \<times> db_init_job" where
  "DbInit_processRunningJob batch now job w =
     (case getOwnedInitJobs batch job w of
        Inl err \<Rightarrow> Inl err
      | Inr items \<Rightarrow>
          let st = di_status job
          in if length items \<noteq> 1
             then let st = st\<lparr>dit_not_found := dit_not_found st + 1\<rparr>;
                      st = (if dit_not_found st > DbInitMaxJobFailedLoadLimit
                            then st\<lparr>dit_state := JobFailed\<rparr> else st)
                  in Inr (True, job\<lparr>di_status := st\<rparr>)
             else let changed = dit_not_found st > 0;
                      st = (if changed then st\<lparr>dit_not_found := 0\<rparr> else st)
                  in case finished_state (bj_conditions (hd items)) of
                       Some s \<Rightarrow> Inr (True, job\<lparr>di_status := st\<lparr>dit_state := s\<rparr>\<rparr>)
                     | None \<Rightarrow>
                         (case dit_deadline st of
                            None \<Rightarrow> Inl (Panic ''nil deadline'')
                          | Some deadline \<Rightarrow>
                              if now > deadline
                              then Inr (True, job\<lparr>di_status := st\<lparr>dit_state := JobFailed\<rparr>\<rparr>)
                              else Inr (changed, job\<lparr>di_status := st\<rparr>)))"

definition DbInit_getMongoConfig ::
  "('w, mongo_config) client \<Rightarrow> string \<Rightarrow> string \<Rightarrow> 'w \<Rightarrow> go_error + mongo_config option" where
  "DbInit_getMongoConfig cl namespace name w =
     (if name = [] then Inr None else map_sum id Some (cl_get cl namespace name w))"

definition DbInit_getMysqlConfig ::
  "('w, mysql_config) client \<Rightarrow> string \<Rightarrow> string \<Rightarrow> 'w \<Rightarrow> go_error + mysql_config option" where
  "DbInit_getMysqlConfig cl namespace name w =
     (if name = [] then Inr None else map_sum id Some (cl_get cl namespace name w))"

definition DbInit_createJob ::
  "externals \<Rightarrow> project_config \<Rightarrow> 'w job_clients \<Rightarrow> db_init_job \<Rightarrow> service_config \<Rightarrow> 'w \<Rightarrow>
   go_error + batch_job" where
  "DbInit_createJob x config cl job serviceConfig w =
     (case sc_db_init_pod_spec serviceConfig of
        None \<Rightarrow> Inl (PlainError ''no db init pod spec specified in the service config'')
      | Some initSpec \<Rightarrow>
          (case cl_get (jc_sites cl) (om_namespace (di_meta job)) (dis_site (di_spec job)) w of
             Inl err \<Rightarrow> Inl err
           | Inr site \<Rightarrow>
               let jobLabels = [(labels_Type, ''dbinit''), (labels_JobName, om_name (di_meta job)),
                                (labels_Site, dis_site (di_spec job)), (labels_Service, dis_service (di_spec job))]
               in case LoadConfigs (jc_configs cl) w (NewSite site serviceConfig) of
                    Inl err \<Rightarrow> Inl err
                  | Inr templateHandler \<Rightarrow>
                      (case ReplaceTemplateVariablesInPodSpec (ex_pod_codec x) (ex_order x) 20 initSpec
                              [GetTemplateValues (ex_md5 x) (ex_order x) templateHandler] of
                         Inl err \<Rightarrow> Inl err
                       | Inr podSpec \<Rightarrow>
                           (case ex_set_ref x (di_meta job)
                                   (new_meta (ShortenHumanReadableValue (ex_md5 x) (''dbinit-'' @ om_name (di_meta job)) 50)
                                      (om_namespace (di_meta job)) jobLabels) of
                              Inl err \<Rightarrow> Inl err
                            | Inr meta \<Rightarrow>
                                Inr \<lparr>bj_meta = meta,
                                     bj_deadline = scast (jc_deadline (pc_init_job config)),
                                     bj_backoff = jc_backoff (pc_init_job config),
                                     bj_ttl = jc_ttl (pc_init_job config), bj_pod_labels = jobLabels,
                                     bj_pod = SetExtraEnvVarsOnPodSpec (ex_sort x) (ex_order x) 40
                                                (set_restart_policy podSpec) site serviceConfig,
                                     bj_conditions = [], bj_start = None, bj_completion = None\<rparr>))))"

definition set_init_state :: "job_state \<Rightarrow> db_init_job \<Rightarrow> db_init_job" where
  "set_init_state s job = job\<lparr>di_status := (di_status job)\<lparr>dit_state := s\<rparr>\<rparr>"

definition DbInit_createJobIfNeeded ::
  "externals \<Rightarrow> project_config \<Rightarrow> 'w job_clients \<Rightarrow> db_init_job \<Rightarrow> 'w \<Rightarrow>
   (go_error + bool \<times> db_init_job) \<times> 'w" where
  "DbInit_createJobIfNeeded x config cl job w =
     (case getOwnedInitJobs (jc_batch cl) job w of
        Inl err \<Rightarrow> (Inl err, w)
      | Inr items \<Rightarrow>
          if length items > 0 then (Inr (True, set_init_state JobRunning job), w)
          else case DbInit_getMysqlConfig (cc_mysql (jc_configs cl)) (om_namespace (di_meta job))
                      (dis_mysql (di_spec job)) w of
                 Inl err \<Rightarrow> (Inl err, w)
               | Inr mysqlConfig \<Rightarrow>
                   (case DbInit_getMongoConfig (cc_mongo (jc_configs cl)) (om_namespace (di_meta job))
                           (dis_mongo (di_spec job)) w of
                      Inl err \<Rightarrow> (Inl err, w)
                    | Inr mongoConfig \<Rightarrow>
                        if mysqlConfig = None \<and> mongoConfig = None
                        then (Inr (True, set_init_state JobFailed job), w)
                        else (case cl_get (cc_service (jc_configs cl)) (om_namespace (di_meta job))
                                     (dis_service (di_spec job)) w of
                                Inl err \<Rightarrow> (Inl err, w)
                              | Inr serviceConfig \<Rightarrow>
                                  if sc_db_init_pod_spec serviceConfig = None
                                  then (Inr (True, set_init_state JobFailed job), w)
                                  else (case DbInit_createJob x config cl job serviceConfig w of
                                          Inl err \<Rightarrow> (Inl err, w)
                                        | Inr batchJob \<Rightarrow>
                                            (case cl_create (jc_batch cl) batchJob w of
                                               (Inl err, w') \<Rightarrow> (Inl err, w')
                                             | (Inr _, w') \<Rightarrow> (Inr (True, set_init_state JobRunning job), w'))))))"

text \<open>
  The body of \<^verbatim>\<open>doReconcile\<close> on the loaded job: whether the status is written, the job to write,
  and the result. A branch that returns without \<^verbatim>\<open>SaveStatusUpdatesIfObjectChanged\<close> writes nothing.
\<close>

definition deadline_after :: "time \<Rightarrow> 64 word \<Rightarrow> time" where
  "deadline_after now seconds = time_add now (seconds * 1000000000)"

definition on_handled ::
  "'o \<Rightarrow> (go_error + bool \<times> 'o) \<times> 'w \<Rightarrow> (bool \<times> 'o \<times> ctrl_result \<times> go_error option) \<times> 'w" where
  "on_handled job r =
     (case r of
        (Inl err, w) \<Rightarrow> ((False, job, no_requeue, Some err), w)
      | (Inr (changed, job'), w) \<Rightarrow> ((changed, job', no_requeue, None), w))"

definition DbInit_handle ::
  "externals \<Rightarrow> project_config \<Rightarrow> 'w job_clients \<Rightarrow> time \<Rightarrow> db_init_job \<Rightarrow> 'w \<Rightarrow>
   (bool \<times> db_init_job \<times> ctrl_result \<times> go_error option) \<times> 'w" where
  "DbInit_handle x config cl now job w =
     (if dit_state (di_status job) = JobUnset \<or> dit_deadline (di_status job) = None
      then ((True, job\<lparr>di_status := (di_status job)\<lparr>dit_state := JobPending,
               dit_deadline := Some (deadline_after now (dis_deadline_seconds (di_spec job)))\<rparr>\<rparr>,
             requeue_now, None), w)
      else case dit_state (di_status job) of
             JobUnset \<Rightarrow> ((True, set_init_state JobPending job, requeue_now, None), w)
           | JobPending \<Rightarrow> on_handled job (DbInit_createJobIfNeeded x config cl job w)
           | JobFailed \<Rightarrow> ((False, job, no_requeue, None), w)
           | JobComplete \<Rightarrow> ((False, job, no_requeue, None), w)
           | JobRunning \<Rightarrow> on_handled job (DbInit_processRunningJob (jc_batch cl) now job w, w)
           | JobUnknown s \<Rightarrow> ((False, job, no_requeue, Some (PlainError (''unknown state: '' @ s))), w))"

definition DbInit_doReconcile ::
  "externals \<Rightarrow> project_config \<Rightarrow> 'w job_clients \<Rightarrow> ('w, db_init_job) client \<Rightarrow> time \<Rightarrow> string \<Rightarrow> string \<Rightarrow>
   'w \<Rightarrow> reconcile_result \<times> 'w" where
  "DbInit_doReconcile x config cl jobs now ns name w =
     (case cl_get jobs ns name w of
        Inl err \<Rightarrow> ((no_requeue, ignore_not_found err), w)
      | Inr job \<Rightarrow>
          (case DbInit_handle x config cl now job w of
             ((changed, job', result, err), w') \<Rightarrow>
               SaveStatusUpdatesIfObjectChanged changed jobs job' result err w'))"


section \<open>The state machine\<close>

text \<open>
  The jobs that the controller writes, one after the other; the clock and the world may be any at
  each step.
\<close>

inductive dbinit_step ::
  "externals \<Rightarrow> project_config \<Rightarrow> 'w job_clients \<Rightarrow> db_init_job \<Rightarrow> db_init_job \<Rightarrow> bool"
  for x config cl where
  "DbInit_handle x config cl now job w = ((True, job', result, err), w') \<Longrightarrow>
   dbinit_step x config cl job job'"

text \<open>An abstract specification of the life of a job.\<close>

inductive dbinit_phase :: "db_init_job_status \<Rightarrow> db_init_job_status \<Rightarrow> bool" where
  initialise: "dit_state s = JobUnset \<or> dit_deadline s = None \<Longrightarrow>
     dbinit_phase s (s\<lparr>dit_state := JobPending, dit_deadline := Some d\<rparr>)"
| start: "dit_state s = JobPending \<Longrightarrow> dit_deadline s \<noteq> None \<Longrightarrow> dbinit_phase s (s\<lparr>dit_state := JobRunning\<rparr>)"
| reject: "dit_state s = JobPending \<Longrightarrow> dit_deadline s \<noteq> None \<Longrightarrow> dbinit_phase s (s\<lparr>dit_state := JobFailed\<rparr>)"
| miss: "dit_state s = JobRunning \<Longrightarrow> dit_deadline s \<noteq> None \<Longrightarrow> dit_not_found s + 1 \<le> 5 \<Longrightarrow>
     dbinit_phase s (s\<lparr>dit_not_found := dit_not_found s + 1\<rparr>)"
| give_up: "dit_state s = JobRunning \<Longrightarrow> dit_deadline s \<noteq> None \<Longrightarrow> dit_not_found s + 1 > 5 \<Longrightarrow>
     dbinit_phase s (s\<lparr>dit_not_found := dit_not_found s + 1, dit_state := JobFailed\<rparr>)"
| watch: "dit_state s = JobRunning \<Longrightarrow> dit_deadline s \<noteq> None \<Longrightarrow>
     dbinit_phase s (s\<lparr>dit_not_found := 0\<rparr>)"
| finish: "dit_state s = JobRunning \<Longrightarrow> dit_deadline s \<noteq> None \<Longrightarrow> JobState_IsFinal f \<Longrightarrow>
     dbinit_phase s (s\<lparr>dit_not_found := 0, dit_state := f\<rparr>)"

inductive_cases dbinit_phaseE: "dbinit_phase s t"

lemma on_handled_True:
  "on_handled job r = ((True, job', result, err), w') \<longleftrightarrow>
     r = (Inr (True, job'), w') \<and> result = no_requeue \<and> err = None"
  by (auto simp: on_handled_def split: prod.splits sum.splits)

lemma not_found_zero:
  "(if dit_not_found st > 0 then st\<lparr>dit_not_found := 0\<rparr> else st) = st\<lparr>dit_not_found := 0\<rparr>"
  by (cases st) (simp add: word_gt_0)

lemma processRunning_phase:
  assumes "DbInit_processRunningJob batch now job w = Inr (True, job')"
    and "dit_state (di_status job) = JobRunning" "dit_deadline (di_status job) \<noteq> None"
  shows "dbinit_phase (di_status job) (di_status job') \<and> job'\<lparr>di_status := di_status job\<rparr> = job"
proof -
  obtain items where items: "getOwnedInitJobs batch job w = Inr items"
    using assms(1) by (auto simp: DbInit_processRunningJob_def split: sum.splits)
  obtain d where d: "dit_deadline (di_status job) = Some d" using assms(3) by blast
  show ?thesis
  proof (cases "length items = 1")
    case False
    then show ?thesis
      using assms(1) miss[OF assms(2,3)] give_up[OF assms(2,3)]
      by (auto simp: DbInit_processRunningJob_def items Let_def DbInitMaxJobFailedLoadLimit_def
          not_less split: if_splits)
  next
    case True
    show ?thesis
    proof (cases "finished_state (bj_conditions (hd items))")
      case (Some s)
      then have "JobState_IsFinal s" using finished_state_Some by fastforce
      with True Some show ?thesis
        using assms(1) dbinit_phase.finish[OF assms(2,3), of s]
        by (auto simp: DbInit_processRunningJob_def items Let_def not_found_zero split: if_splits)
    next
      case None
      then show ?thesis
        using True assms(1) dbinit_phase.finish[OF assms(2,3), of JobFailed] dbinit_phase.watch[OF assms(2,3)] d
        unfolding DbInit_processRunningJob_def items Let_def not_found_zero
        by (auto split: if_splits)
    qed
  qed
qed

lemma createIfNeeded_phase:
  assumes "DbInit_createJobIfNeeded x config cl job w = (Inr (True, job'), w')"
    and "dit_state (di_status job) = JobPending" "dit_deadline (di_status job) \<noteq> None"
  shows "dbinit_phase (di_status job) (di_status job') \<and> job'\<lparr>di_status := di_status job\<rparr> = job"
proof -
  have "job' = set_init_state JobRunning job \<or> job' = set_init_state JobFailed job"
    using assms(1) by (auto simp: DbInit_createJobIfNeeded_def split: sum.splits if_splits prod.splits)
  then show ?thesis
    using start[OF assms(2,3)] reject[OF assms(2,3)] by (auto simp: set_init_state_def)
qed

end
