(* ===== verification/TaskHandlers.thy ===== *)
theory TaskHandlers
  imports TaskTypes
begin

text \<open>
  The handlers of \<^verbatim>\<open>handlers/task\<close>, which keep the database task resources of a site in line with
  its spec and tell whether the databases are ready. A handler returns an error or its bool; the
  bool that Go returns beside an error is ignored by the caller and left out. \<open>cfgs\<close> reads the
  service configurations, \<open>dbs\<close> the database resources, \<open>ord\<close> orders the ranges over maps: 0 is
  the loop over the services, 1, 2 and 3 are the loops over the objects to delete, create and
  update.
\<close>

section \<open>MySQL\<close>

definition Mysql_getPopulatedDatabase ::
  "digest \<Rightarrow> set_ref \<Rightarrow> staging_site \<Rightarrow> service_config \<Rightarrow> string \<Rightarrow> go_error + mysql_database" where
  "Mysql_getPopulatedDatabase md5 setref site config environmentName =
     (case MysqlDatabase_PopulateFomSite md5 site (Some config) environmentName of
        Inl err \<Rightarrow> Inl err
      | Inr database \<Rightarrow>
          (case setref (st_meta site) (db_meta database) of
             Inl err \<Rightarrow> Inl err
           | Inr meta \<Rightarrow> Inr (database\<lparr>db_meta := meta\<rparr>)))"

definition Mysql_service_database ::
  "digest \<Rightarrow> set_ref \<Rightarrow> ('w, service_config) client \<Rightarrow> staging_site \<Rightarrow> 'w \<Rightarrow> string \<Rightarrow> site_service \<Rightarrow>
   go_error + mysql_database option" where
  "Mysql_service_database md5 setref cfgs site w name service =
     (if svc_mysql_env service = [] then Inr None
      else case cl_get cfgs (st_namespace site) name w of
             Inl err \<Rightarrow> Inl err
           | Inr serviceConfig \<Rightarrow>
               map_sum id Some (Mysql_getPopulatedDatabase md5 setref site serviceConfig (svc_mysql_env service)))"

definition Mysql_EnsureDatabasesAreCreated ::
  "digest \<Rightarrow> set_ref \<Rightarrow> order \<Rightarrow> ('w, service_config) client \<Rightarrow> ('w, mysql_database) client \<Rightarrow>
   staging_site \<Rightarrow> 'w \<Rightarrow> (go_error + bool) \<times> 'w" where
  "Mysql_EnsureDatabasesAreCreated md5 setref ord cfgs dbs site w =
     (case cl_list dbs (st_namespace site) [(labels_Site, st_name site)] w of
        Inl err \<Rightarrow> (Inl err, w)
      | Inr items \<Rightarrow>
          (case build_expected (Mysql_service_database md5 setref cfgs site w)
                  (go_range ord 0 (site_services site)) [] of
             Inl err \<Rightarrow> (Inl err, w)
           | Inr expected \<Rightarrow>
               let p = classify db_service MysqlDatabase_Matches MysqlDatabase_UpdateFromExpected
                         items (start_plan expected)
               in finish (plan_empty p)
                    (run_loops
                      [write_all (cl_delete dbs) (go_range ord 1 (to_delete p)),
                       write_all (cl_create dbs) (go_range ord 2 (to_create p)),
                       write_all (cl_update dbs) (go_range ord 3 (to_update p))] w)))"

text \<open>The loop of \<open>EnsureDatabasesAreReady\<close>, which the three handlers share up to the error.\<close>

fun ready_loop :: "('o \<Rightarrow> task_state) \<Rightarrow> ('o \<Rightarrow> go_error) \<Rightarrow> 'o list \<Rightarrow> bool \<Rightarrow> go_error + bool" where
  "ready_loop state failure [] isEverythingReady = Inr isEverythingReady"
| "ready_loop state failure (d # ds) isEverythingReady =
     (if state d = TaskFailed then Inl (failure d)
      else ready_loop state failure ds (isEverythingReady \<and> state d = TaskComplete))"

definition Mysql_EnsureDatabasesAreReady ::
  "('w, mysql_database) client \<Rightarrow> staging_site \<Rightarrow> 'w \<Rightarrow> go_error + bool" where
  "Mysql_EnsureDatabasesAreReady dbs site w =
     (case cl_list dbs (st_namespace site) [(labels_Site, st_name site)] w of
        Inl err \<Rightarrow> Inl err
      | Inr items \<Rightarrow>
          ready_loop db_state
            (\<lambda>d. DatabaseCreationError DatabaseTypeMysql (ud_environment (db_spec d)) []) items True)"


section \<open>Mongo\<close>

definition Mongo_getPopulatedDatabase ::
  "digest \<Rightarrow> set_ref \<Rightarrow> staging_site \<Rightarrow> service_config \<Rightarrow> string \<Rightarrow> go_error + mongo_database" where
  "Mongo_getPopulatedDatabase md5 setref site config environmentName =
     (case MongoDatabase_PopulateFomSite md5 site (Some config) environmentName of
        Inl err \<Rightarrow> Inl err
      | Inr database \<Rightarrow>
          (case setref (st_meta site) (db_meta database) of
             Inl err \<Rightarrow> Inl err
           | Inr meta \<Rightarrow> Inr (database\<lparr>db_meta := meta\<rparr>)))"

definition Mongo_service_database ::
  "digest \<Rightarrow> set_ref \<Rightarrow> ('w, service_config) client \<Rightarrow> staging_site \<Rightarrow> 'w \<Rightarrow> string \<Rightarrow> site_service \<Rightarrow>
   go_error + mongo_database option" where
  "Mongo_service_database md5 setref cfgs site w name service =
     (if svc_mongo_env service = [] then Inr None
      else case cl_get cfgs (st_namespace site) name w of
             Inl err \<Rightarrow> Inl err
           | Inr serviceConfig \<Rightarrow>
               map_sum id Some (Mongo_getPopulatedDatabase md5 setref site serviceConfig (svc_mongo_env service)))"

definition Mongo_EnsureDatabasesAreCreated ::
  "digest \<Rightarrow> set_ref \<Rightarrow> order \<Rightarrow> ('w, service_config) client \<Rightarrow> ('w, mongo_database) client \<Rightarrow>
   staging_site \<Rightarrow> 'w \<Rightarrow> (go_error + bool) \<times> 'w" where
  "Mongo_EnsureDatabasesAreCreated md5 setref ord cfgs dbs site w =
     (case cl_list dbs (st_namespace site) [(labels_Site, st_name site)] w of
        Inl err \<Rightarrow> (Inl err, w)
      | Inr items \<Rightarrow>
          (case build_expected (Mongo_service_database md5 setref cfgs site w)
                  (go_range ord 0 (site_services site)) [] of
             Inl err \<Rightarrow> (Inl err, w)
           | Inr expected \<Rightarrow>
               let p = classify db_service (\<lambda>x e. MongoDatabase_Matches e x)
                         MongoDatabase_UpdateFromExpected items (start_plan expected)
               in finish (plan_empty p)
                    (run_loops
                      [write_all (cl_delete dbs) (go_range ord 1 (to_delete p)),
                       write_all (cl_create dbs) (go_range ord 2 (to_create p)),
                       write_all (cl_update dbs) (go_range ord 3 (to_update p))] w)))"

definition Mongo_EnsureDatabasesAreReady ::
  "('w, mongo_database) client \<Rightarrow> staging_site \<Rightarrow> 'w \<Rightarrow> go_error + bool" where
  "Mongo_EnsureDatabasesAreReady dbs site w =
     (case cl_list dbs (st_namespace site) [(labels_Site, st_name site)] w of
        Inl err \<Rightarrow> Inl err
      | Inr items \<Rightarrow>
          ready_loop db_state
            (\<lambda>d. DatabaseCreationError DatabaseTypeMongo (ud_environment (db_spec d)) []) items True)"


section \<open>Redis\<close>

definition Redis_getPopulatedDatabase ::
  "digest \<Rightarrow> set_ref \<Rightarrow> staging_site \<Rightarrow> service_config \<Rightarrow> string \<Rightarrow> go_error + redis_database" where
  "Redis_getPopulatedDatabase md5 setref site config environmentName =
     (case RedisDatabase_PopulateFomSite md5 site (Some config) environmentName of
        Inl err \<Rightarrow> Inl err
      | Inr database \<Rightarrow>
          (case setref (st_meta site) (rd_meta database) of
             Inl err \<Rightarrow> Inl err
           | Inr meta \<Rightarrow> Inr (database\<lparr>rd_meta := meta\<rparr>)))"

definition Redis_service_database ::
  "digest \<Rightarrow> set_ref \<Rightarrow> ('w, service_config) client \<Rightarrow> staging_site \<Rightarrow> 'w \<Rightarrow> string \<Rightarrow> site_service \<Rightarrow>
   go_error + redis_database option" where
  "Redis_service_database md5 setref cfgs site w name service =
     (if svc_redis_env service = [] then Inr None
      else case cl_get cfgs (st_namespace site) name w of
             Inl err \<Rightarrow> Inl err
           | Inr serviceConfig \<Rightarrow>
               map_sum id Some (Redis_getPopulatedDatabase md5 setref site serviceConfig (svc_redis_env service)))"

text \<open>
  The map \<^verbatim>\<open>availableDatabases\<close> with its false zero value is a function; the counting loops run
  over the numbers below the count.
\<close>

definition available_databases :: "32 word \<Rightarrow> redis_database list \<Rightarrow> 32 word \<Rightarrow> bool" where
  "available_databases n reservations =
     fold (\<lambda>r available. available(rd_number (rd_spec r) := False)) reservations
       (fold (\<lambda>i available. available(of_nat i := True)) [0..<unat n] (\<lambda>i. False))"

definition getFirstFreeDatabaseInEnvironment ::
  "('w, redis_config) client \<Rightarrow> ('w, redis_database) client \<Rightarrow> string \<Rightarrow> environment_config \<Rightarrow> 'w \<Rightarrow>
   go_error + 32 word" where
  "getFirstFreeDatabaseInEnvironment rcfgs dbs namespace ec w =
     (case cl_get rcfgs namespace (ec_environment ec) w of
        Inl err \<Rightarrow> Inl err
      | Inr redisConfig \<Rightarrow>
          if om_name (rec_meta redisConfig) = []
          then Inl (DatabaseCreationError DatabaseTypeRedis ec ''Failed to load redis config'')
          else case cl_list dbs namespace [(labels_RedisEnvironment, ec_environment ec)] w of
                 Inl err \<Rightarrow> Inl err
               | Inr items \<Rightarrow>
                   (case find (available_databases (rec_available redisConfig) items)
                           (map of_nat [0..<unat (rec_available redisConfig)]) of
                      Some i \<Rightarrow> Inr i
                    | None \<Rightarrow> Inl (DatabaseCreationError DatabaseTypeRedis ec
                                    ''No free databases found in environment'')))"

text \<open>
  The classification reads the API server for every object to update. The number it gets goes
  into the loop's copy of the expected database, after the stored database has been updated from
  it, and is not used again.
\<close>

fun redis_classify ::
  "(environment_config \<Rightarrow> go_error + 32 word) \<Rightarrow> redis_database list \<Rightarrow> redis_database plan \<Rightarrow>
   go_error + redis_database plan" where
  "redis_classify first_free [] p = Inr p"
| "redis_classify first_free (database # ds) p =
     (case map_of (to_create p) (rd_service database) of
        Some expected \<Rightarrow>
          if \<not> RedisDatabase_Matches expected database
          then let database' = RedisDatabase_UpdateFromExpected database expected
               in case first_free (rd_environment (rd_spec database')) of
                    Inl err \<Rightarrow> Inl err
                  | Inr n \<Rightarrow>
                      redis_classify first_free ds
                        (p\<lparr>to_update := AList.update (rd_service database) database' (to_update p),
                           to_create := AList.delete (rd_service database) (to_create p)\<rparr>)
          else redis_classify first_free ds
                 (p\<lparr>to_create := AList.delete (rd_service database) (to_create p)\<rparr>)
      | None \<Rightarrow>
          redis_classify first_free ds
            (p\<lparr>to_delete := AList.update (rd_service database) database (to_delete p)\<rparr>))"

definition set_redis_number :: "string \<Rightarrow> 32 word \<Rightarrow> staging_site \<Rightarrow> staging_site" where
  "set_redis_number serviceName n site =
     (let service = lookup_or zero_service_status (su_services (st_status site)) serviceName
      in site\<lparr>st_status := (st_status site)\<lparr>su_services :=
           AList.update serviceName (service\<lparr>sst_redis_number := n\<rparr>) (su_services (st_status site))\<rparr>\<rparr>)"

fun redis_create_loop ::
  "('w, redis_config) client \<Rightarrow> ('w, redis_database) client \<Rightarrow> redis_database gomap \<Rightarrow>
   staging_site \<Rightarrow> 'w \<Rightarrow> go_error option \<times> staging_site \<times> 'w" where
  "redis_create_loop rcfgs dbs [] site w = (None, site, w)"
| "redis_create_loop rcfgs dbs (kd # kds) site w =
     (case getFirstFreeDatabaseInEnvironment rcfgs dbs (st_namespace site)
             (rd_environment (rd_spec (snd kd))) w of
        Inl err \<Rightarrow> (Some err, site, w)
      | Inr n \<Rightarrow>
          let database = (snd kd)\<lparr>rd_spec := (rd_spec (snd kd))\<lparr>rd_number := n\<rparr>\<rparr>
          in case cl_create dbs database w of
               (Inl err, w') \<Rightarrow> (Some err, site, w')
             | (Inr database', w') \<Rightarrow>
                 redis_create_loop rcfgs dbs kds
                   (set_redis_number (fst kd) (rd_number (rd_spec database')) site) w')"

fun redis_update_loop ::
  "('w, redis_database) client \<Rightarrow> redis_database gomap \<Rightarrow> staging_site \<Rightarrow> 'w \<Rightarrow>
   go_error option \<times> staging_site \<times> 'w" where
  "redis_update_loop dbs [] site w = (None, site, w)"
| "redis_update_loop dbs (kd # kds) site w =
     (case cl_update dbs (snd kd) w of
        (Inl err, w') \<Rightarrow> (Some err, site, w')
      | (Inr database', w') \<Rightarrow>
          redis_update_loop dbs kds (set_redis_number (fst kd) (rd_number (rd_spec database')) site) w')"

text \<open>The site's status is changed as the loops go, so it is part of the result.\<close>

definition Redis_EnsureDatabasesAreCreated ::
  "digest \<Rightarrow> set_ref \<Rightarrow> order \<Rightarrow> ('w, service_config) client \<Rightarrow> ('w, redis_config) client \<Rightarrow>
   ('w, redis_database) client \<Rightarrow> staging_site \<Rightarrow> 'w \<Rightarrow> (go_error + bool) \<times> staging_site \<times> 'w" where
  "Redis_EnsureDatabasesAreCreated md5 setref ord cfgs rcfgs dbs site w =
     (case cl_list dbs (st_namespace site) [(labels_Site, st_name site)] w of
        Inl err \<Rightarrow> (Inl err, site, w)
      | Inr items \<Rightarrow>
          (case build_expected (Redis_service_database md5 setref cfgs site w)
                  (go_range ord 0 (site_services site)) [] of
             Inl err \<Rightarrow> (Inl err, site, w)
           | Inr expected \<Rightarrow>
               (case redis_classify
                       (\<lambda>ec. getFirstFreeDatabaseInEnvironment rcfgs dbs (st_namespace site) ec w)
                       items (start_plan expected) of
                  Inl err \<Rightarrow> (Inl err, site, w)
                | Inr p \<Rightarrow>
                    (case write_all (cl_delete dbs) (go_range ord 1 (to_delete p)) w of
                       (Some err, w1) \<Rightarrow> (Inl err, site, w1)
                     | (None, w1) \<Rightarrow>
                         (case redis_create_loop rcfgs dbs (go_range ord 2 (to_create p)) site w1 of
                            (Some err, site2, w2) \<Rightarrow> (Inl err, site2, w2)
                          | (None, site2, w2) \<Rightarrow>
                              (case redis_update_loop dbs (go_range ord 3 (to_update p)) site2 w2 of
                                 (Some err, site3, w3) \<Rightarrow> (Inl err, site3, w3)
                               | (None, site3, w3) \<Rightarrow> (Inr (plan_empty p), site3, w3)))))))"

definition Redis_EnsureDatabasesAreReady ::
  "('w, redis_database) client \<Rightarrow> staging_site \<Rightarrow> 'w \<Rightarrow> go_error + bool" where
  "Redis_EnsureDatabasesAreReady dbs site w =
     (case cl_list dbs (st_namespace site) [(labels_Site, st_name site)] w of
        Inl err \<Rightarrow> Inl err
      | Inr items \<Rightarrow>
          ready_loop rd_state
            (\<lambda>d. DatabaseCreationError DatabaseTypeRedis (rd_environment (rd_spec d))
                   ''No free databases found in environment'') items True)"

end
