(* ===== verification/TaskProperties.thy ===== *)
theory TaskProperties
  imports TaskHandlers
begin

text \<open>
  What the database task handlers guarantee: when they report completion the databases are the
  ones the site asks for, one pass over a working API server is enough to get there, a failed
  database is reported as a final error, and Redis numbers are handed out without overlap.
\<close>

section \<open>Completion\<close>

lemma Mysql_populated_fields:
  assumes "Mysql_getPopulatedDatabase md5 setref site cfg env = Inr e"
  shows "db_spec e = \<lparr>ud_environment = \<lparr>ec_service_name = sc_name cfg, ec_site_name = st_name site,
             ec_environment = env\<rparr>, ud_database_name = MakeDatabaseName md5 site cfg,
           ud_username = MakeUsername md5 site cfg, ud_password = sp_password (st_spec site)\<rparr>"
  using assms
  by (auto simp: Mysql_getPopulatedDatabase_def MysqlDatabase_PopulateFomSite_def split: sum.splits)

lemma Mysql_service_database_Some:
  assumes "Mysql_service_database md5 setref cfgs site w name svc = Inr (Some e)"
  obtains cfg where "svc_mysql_env svc \<noteq> []" "cl_get cfgs (st_namespace site) name w = Inr cfg"
    "Mysql_getPopulatedDatabase md5 setref site cfg (svc_mysql_env svc) = Inr e"
proof -
  have "svc_mysql_env svc \<noteq> []" using assms by (auto simp: Mysql_service_database_def)
  with assms that show ?thesis
    by (cases "cl_get cfgs (st_namespace site) name w")
      (auto simp: Mysql_service_database_def map_sum_def split: sum.splits)
qed

lemma Mysql_service_database_cases:
  assumes "Mysql_service_database md5 setref cfgs site w name svc = Inr r" "svc_mysql_env svc \<noteq> []"
  obtains e where "r = Some e"
  using assms
  by (cases "cl_get cfgs (st_namespace site) name w")
    (auto simp: Mysql_service_database_def map_sum_def split: sum.splits)

lemma build_expected_defined:
  assumes "build_expected f nxs [] = Inr E" "(k, x) \<in> set nxs"
  obtains r where "f k x = Inr r"
  using build_expected_total[of f nxs "[]"] assms by force

lemma Mysql_created_cases:
  assumes "Mysql_EnsureDatabasesAreCreated md5 setref ord cfgs dbs site w = (Inr True, w')"
    and "range_order ord"
  obtains items E where
    "cl_list dbs (st_namespace site) [(labels_Site, st_name site)] w = Inr items"
    "build_expected (Mysql_service_database md5 setref cfgs site w) (go_range ord 0 (site_services site)) [] = Inr E"
    "mysql.in_sync E items" "w' = w"
proof -
  obtain items where items: "cl_list dbs (st_namespace site) [(labels_Site, st_name site)] w = Inr items"
    using assms(1) by (auto simp: Mysql_EnsureDatabasesAreCreated_def split: sum.splits)
  obtain E where E: "build_expected (Mysql_service_database md5 setref cfgs site w)
      (go_range ord 0 (site_services site)) [] = Inr E"
    using assms(1) items by (auto simp: Mysql_EnsureDatabasesAreCreated_def split: sum.splits)
  let ?p = "classify db_service MysqlDatabase_Matches MysqlDatabase_UpdateFromExpected items (start_plan E)"
  have p: "plan_empty ?p" and run: "run_loops
       [write_all (cl_delete dbs) (go_range ord 1 (to_delete ?p)),
        write_all (cl_create dbs) (go_range ord 2 (to_create ?p)),
        write_all (cl_update dbs) (go_range ord 3 (to_update ?p))] w = (None, w')"
    using assms(1) by (simp_all add: Mysql_EnsureDatabasesAreCreated_def items E Let_def finish_Inr)
  have "mysql.in_sync E items"
    using p build_expected_wf[OF E] by (intro mysql.plan_empty_in_sync) simp_all
  moreover have "w' = w" using plan_empty_writes[OF p assms(2) run] .
  ultimately show ?thesis using that items E by blast
qed

text \<open>The expected databases, entry by entry.\<close>

lemma Mysql_expected_iff:
  assumes "build_expected (Mysql_service_database md5 setref cfgs site w) (go_range ord 0 (site_services site)) [] = Inr E"
    and "range_order ord" "wf_map (site_services site)"
  shows "map_of E k = Some e \<longleftrightarrow>
    (\<exists>svc. map_of (site_services site) k = Some svc \<and> Mysql_service_database md5 setref cfgs site w k svc = Inr (Some e))"
  using build_expected_dom[OF assms(1), unfolded map_of.simps] assms(2,3)
  by (cases "map_of (site_services site) k") (auto simp: range_simps split: option.splits sum.splits)

lemma Mysql_expected_service:
  assumes "build_expected (Mysql_service_database md5 setref cfgs site w) (go_range ord 0 (site_services site)) [] = Inr E"
    and "range_order ord" "wf_map (site_services site)"
  shows "(\<exists>e. map_of E k = Some e) \<longleftrightarrow> (\<exists>svc. map_of (site_services site) k = Some svc \<and> svc_mysql_env svc \<noteq> [])"
proof
  assume "\<exists>e. map_of E k = Some e"
  then show "\<exists>svc. map_of (site_services site) k = Some svc \<and> svc_mysql_env svc \<noteq> []"
    unfolding Mysql_expected_iff[OF assms] by (metis Mysql_service_database_Some)
next
  assume "\<exists>svc. map_of (site_services site) k = Some svc \<and> svc_mysql_env svc \<noteq> []"
  then obtain svc where svc: "map_of (site_services site) k = Some svc" "svc_mysql_env svc \<noteq> []" by blast
  have mem: "(k, svc) \<in> set (go_range ord 0 (site_services site))"
    using map_of_SomeD[OF svc(1)] by (simp add: range_simps assms(2,3))
  obtain r where r: "Mysql_service_database md5 setref cfgs site w k svc = Inr r"
    by (rule build_expected_defined[OF assms(1) mem])
  obtain e where "r = Some e" by (rule Mysql_service_database_cases[OF r svc(2)])
  then show "\<exists>e. map_of E k = Some e" unfolding Mysql_expected_iff[OF assms] using svc(1) r by blast
qed

lemma Mysql_expected_spec:
  assumes "build_expected (Mysql_service_database md5 setref cfgs site w) (go_range ord 0 (site_services site)) [] = Inr E"
    and "range_order ord" "wf_map (site_services site)" "map_of E k = Some e" "map_of (site_services site) k = Some svc"
  shows "\<exists>cfg. cl_get cfgs (st_namespace site) k w = Inr cfg \<and>
    db_spec e = \<lparr>ud_environment = \<lparr>ec_service_name = sc_name cfg, ec_site_name = st_name site,
        ec_environment = svc_mysql_env svc\<rparr>, ud_database_name = MakeDatabaseName md5 site cfg,
      ud_username = MakeUsername md5 site cfg, ud_password = sp_password (st_spec site)\<rparr>"
proof -
  have "Mysql_service_database md5 setref cfgs site w k svc = Inr (Some e)"
    using assms(4,5) unfolding Mysql_expected_iff[OF assms(1-3)] by simp
  then obtain cfg where "cl_get cfgs (st_namespace site) k w = Inr cfg"
    "Mysql_getPopulatedDatabase md5 setref site cfg (svc_mysql_env svc) = Inr e"
    by (rule Mysql_service_database_Some)
  then show ?thesis using Mysql_populated_fields by blast
qed

text \<open>
  C24. When \<^verbatim>\<open>MysqlTaskHandler.EnsureDatabasesAreCreated\<close> reports completion it has written
  nothing, and the site's database resources are exactly those its spec asks for: one for each
  service with a MySQL environment, with the environment, names and password derived from the
  site and the service configuration, and no other.
\<close>

theorem mysql_complete_is_as_specified:
  assumes "Mysql_EnsureDatabasesAreCreated md5 setref ord cfgs dbs site w = (Inr True, w')"
    and "range_order ord" "wf_map (site_services site)"
    and "cl_list dbs (st_namespace site) [(labels_Site, st_name site)] w = Inr items"
  shows "w' = w \<and> distinct (map db_service items) \<and>
    (\<forall>name. name \<in> db_service ` set items \<longleftrightarrow>
       (\<exists>svc. map_of (site_services site) name = Some svc \<and> svc_mysql_env svc \<noteq> [])) \<and>
    (\<forall>d svc. d \<in> set items \<and> map_of (site_services site) (db_service d) = Some svc \<longrightarrow>
       (\<exists>cfg. cl_get cfgs (st_namespace site) (db_service d) w = Inr cfg \<and>
          db_spec d = \<lparr>ud_environment = \<lparr>ec_service_name = sc_name cfg,
                ec_site_name = st_name site, ec_environment = svc_mysql_env svc\<rparr>,
              ud_database_name = MakeDatabaseName md5 site cfg,
              ud_username = MakeUsername md5 site cfg,
              ud_password = sp_password (st_spec site)\<rparr>))"
proof -
  obtain E where E: "build_expected (Mysql_service_database md5 setref cfgs site w)
        (go_range ord 0 (site_services site)) [] = Inr E"
      and sync: "mysql.in_sync E items" and w': "w' = w"
    using Mysql_created_cases[OF assms(1,2)] assms(4) by auto
  show ?thesis
  proof (intro conjI allI impI)
    show "w' = w" by (rule w')
    show "distinct (map db_service items)" using sync by (simp add: mysql.in_sync_def)
    show "name \<in> db_service ` set items \<longleftrightarrow>
       (\<exists>svc. map_of (site_services site) name = Some svc \<and> svc_mysql_env svc \<noteq> [])" for name
      unfolding Mysql_expected_service[OF E assms(2,3), symmetric] using sync by (auto simp: mysql.in_sync_def)
    fix d svc assume d: "d \<in> set items \<and> map_of (site_services site) (db_service d) = Some svc"
    then obtain e where e: "map_of E (db_service d) = Some e" using mysql.in_sync_key[OF sync] by blast
    then have "db_spec d = db_spec e" using sync d by (simp add: mysql.in_sync_def MysqlDatabase_Matches_def)
    then show "\<exists>cfg. cl_get cfgs (st_namespace site) (db_service d) w = Inr cfg \<and>
          db_spec d = \<lparr>ud_environment = \<lparr>ec_service_name = sc_name cfg,
                ec_site_name = st_name site, ec_environment = svc_mysql_env svc\<rparr>,
              ud_database_name = MakeDatabaseName md5 site cfg,
              ud_username = MakeUsername md5 site cfg,
              ud_password = sp_password (st_spec site)\<rparr>"
      using Mysql_expected_spec[OF E assms(2,3) e conjunct2[OF d]] by simp
  qed
qed

text \<open>A site with one service on a MySQL, a Mongo and a Redis environment, for the witnesses.\<close>

definition toy_db_site :: staging_site where
  "toy_db_site =
     (toy_site ''my-site'' ''db'')\<lparr>st_spec := (st_spec (toy_site ''my-site'' ''db''))
        \<lparr>sp_services := [(''shop'', zero_service\<lparr>svc_mysql_env := ''my1'', svc_mongo_env := ''mo1'',
            svc_redis_env := ''re1''\<rparr>)]\<rparr>\<rparr>"

definition toy_configs :: "('w, service_config) client" where
  "toy_configs = static_client sc_meta [toy_service ''shop'' ''sh'']"

definition toy_set_ref :: set_ref where
  "toy_set_ref owner m = Inr m"

lemma toy_db_site_simps [simp]:
  "st_name toy_db_site = ''my-site''" "st_namespace toy_db_site = ''ns''"
  "site_services toy_db_site = [(''shop'', zero_service\<lparr>svc_mysql_env := ''my1'', svc_mongo_env := ''mo1'',
            svc_redis_env := ''re1''\<rparr>)]"
  by (simp_all add: toy_db_site_def toy_site_def)

lemma toy_configs_get [simp]: "cl_get toy_configs ''ns'' ''shop'' w = Inr (toy_service ''shop'' ''sh'')"
  by (simp add: toy_configs_def static_client_def obj_key_def toy_service_def)

lemma toy_configs_static: "static_reads toy_configs"
  by (simp add: toy_configs_def static_client_reads)

definition toy_mysql :: mysql_database where
  "toy_mysql = projr (MysqlDatabase_PopulateFomSite toy_md5 toy_db_site
                        (Some (toy_service ''shop'' ''sh'')) ''my1'')"

lemma toy_mysql_populated:
  "Mysql_getPopulatedDatabase toy_md5 toy_set_ref toy_db_site (toy_service ''shop'' ''sh'') ''my1'' =
     Inr toy_mysql"
  by (simp add: Mysql_getPopulatedDatabase_def toy_mysql_def MysqlDatabase_PopulateFomSite_def
      toy_set_ref_def)

lemma toy_mysql_facts [simp]:
  "om_namespace (db_meta toy_mysql) = ''ns''" "map_of (om_labels (db_meta toy_mysql)) labels_Site = Some ''my-site''"
  "db_service toy_mysql = ''shop''" "wf_labels (db_meta toy_mysql)" "om_finalizers (db_meta toy_mysql) = []"
  by (simp_all add: toy_mysql_def MysqlDatabase_PopulateFomSite_def db_service_def wf_labels_def label_defs)

lemma toy_mysql_expected:
  "build_expected (Mysql_service_database toy_md5 toy_set_ref toy_configs toy_db_site w)
     (go_range (\<lambda>l ks. ks) 0 (site_services toy_db_site)) [] = Inr [(''shop'', toy_mysql)]"
  by (simp add: go_range_id Mysql_service_database_def toy_mysql_populated)

lemma toy_mysql_complete:
  "Mysql_EnsureDatabasesAreCreated toy_md5 toy_set_ref (\<lambda>l ks. ks) toy_configs (mem_client db_meta)
     toy_db_site [toy_mysql] = (Inr True, [toy_mysql])"
proof -
  have list: "cl_list (mem_client db_meta) (st_namespace toy_db_site)
      [(labels_Site, st_name toy_db_site)] [toy_mysql] = Inr [toy_mysql]"
    by (simp add: mem_client_def selects_def)
  have p: "classify db_service MysqlDatabase_Matches MysqlDatabase_UpdateFromExpected [toy_mysql]
      (start_plan [(''shop'', toy_mysql)]) = \<lparr>to_create = [], to_update = [], to_delete = []\<rparr>"
    using mysql.same_refl[of toy_mysql] by (simp add: start_plan_def)
  show ?thesis
    unfolding Mysql_EnsureDatabasesAreCreated_def list toy_mysql_expected sum.case p Let_def
    by (simp add: plan_empty_def)
qed

theorem mysql_complete_is_as_specified_witness:
  "distinct (map db_service [toy_mysql]) \<and> db_service toy_mysql \<in> db_service ` set [toy_mysql] \<and>
   ud_environment (db_spec toy_mysql) =
     \<lparr>ec_service_name = ''shop'', ec_site_name = ''my-site'', ec_environment = ''my1''\<rparr>"
  using mysql_complete_is_as_specified[OF toy_mysql_complete, of "[toy_mysql]"]
  by (auto simp: mem_client_def selects_def toy_service_def)


section \<open>Convergence\<close>

text \<open>A pass over a working API server, and a pass over databases that are as expected.\<close>

lemma mysql_pass:
  assumes store: "kube_store db_meta dbs objs" and ord: "range_order ord"
    and E: "build_expected (Mysql_service_database md5 setref cfgs site w) (go_range ord 0 (site_services site)) [] = Inr E"
    and ready: "mysql.ready (st_namespace site) [(labels_Site, st_name site)] E (objs w)"
  obtains b D C U w' where "Mysql_EnsureDatabasesAreCreated md5 setref ord cfgs dbs site w = (Inr b, w')"
    "run_loops [write_all (cl_delete dbs) D, write_all (cl_create dbs) C, write_all (cl_update dbs) U] w = (None, w')"
    "mysql.plan_maps (st_namespace site) [(labels_Site, st_name site)] E (objs w) D C U"
    "objs w' = mysql.after_pass (st_namespace site) [(labels_Site, st_name site)] E (objs w) D C U"
    "mysql.in_sync E (filter (selects db_meta (st_namespace site) [(labels_Site, st_name site)]) (objs w'))"
proof -
  let ?p = "mysql.plan_of (st_namespace site) [(labels_Site, st_name site)] E (objs w)"
  note maps = mysql.plan_maps_range[OF ready ord, of 1 2 3]
  from mysql.pass_runs[OF ready maps store] show thesis
  proof (elim exE conjE, goal_cases)
    case (1 w')
    have "Mysql_EnsureDatabasesAreCreated md5 setref ord cfgs dbs site w = (Inr (plan_empty ?p), w')"
      using 1(1) by (simp add: Mysql_EnsureDatabasesAreCreated_def kube_storeD(1)[OF store] E mysql.plan_of_def)
    then show ?case using that 1 maps mysql.after_pass_in_sync[OF ready maps] by metis
  qed
qed

lemma mysql_settled_pass:
  assumes store: "kube_store db_meta dbs objs" and cfgs: "static_reads cfgs"
    and ord: "range_order ord" "range_order ord'" and services: "wf_map (site_services site)"
    and E: "build_expected (Mysql_service_database md5 setref cfgs site w) (go_range ord 0 (site_services site)) [] = Inr E"
    and sync: "mysql.in_sync E (filter (selects db_meta (st_namespace site) [(labels_Site, st_name site)]) (objs w'))"
  shows "Mysql_EnsureDatabasesAreCreated md5 setref ord' cfgs dbs site w' = (Inr True, w')"
proof -
  have "Mysql_service_database md5 setref cfgs site w' = Mysql_service_database md5 setref cfgs site w"
    using cfgs by (intro ext) (simp add: Mysql_service_database_def static_reads_def, metis)
  then obtain E' where E': "build_expected (Mysql_service_database md5 setref cfgs site w')
      (go_range ord' 0 (site_services site)) [] = Inr E'" "map_of E' = map_of E" "wf_map E'"
    using build_expected_order[OF ord services E] by metis
  show ?thesis
    unfolding Mysql_EnsureDatabasesAreCreated_def kube_storeD(1)[OF store] E'(1) sum.case Let_def
      mysql.second_pass(2)[OF sync E'(2,3) ord(2)]
    using mysql.second_pass(1)[OF sync E'(2,3) ord(2)] by simp
qed

text \<open>
  One pass is enough: over a working API server, from any store in which object names are
  unique, no stranger occupies the name of an expected database and no superfluous database is
  held by a finalizer, a pass of \<^verbatim>\<open>EnsureDatabasesAreCreated\<close> returns without an error and the
  next one reports completion and writes nothing, whatever the order of the loops in either.
\<close>

theorem mysql_converges:
  assumes store: "kube_store db_meta dbs objs" and cfgs: "static_reads cfgs"
    and ord: "range_order ord" "range_order ord'" and services: "wf_map (site_services site)"
    and E: "build_expected (Mysql_service_database md5 setref cfgs site w)
              (go_range ord 0 (site_services site)) [] = Inr E"
    and ready: "mysql.ready (st_namespace site) [(labels_Site, st_name site)] E (objs w)"
  shows "\<exists>b w'. Mysql_EnsureDatabasesAreCreated md5 setref ord cfgs dbs site w = (Inr b, w') \<and>
           Mysql_EnsureDatabasesAreCreated md5 setref ord' cfgs dbs site w' = (Inr True, w')"
  by (rule mysql_pass[OF store ord(1) E ready], intro exI conjI, assumption)
    (rule mysql_settled_pass[OF store cfgs ord services E])

theorem mysql_converges_witness:
  "\<exists>b w'. Mysql_EnsureDatabasesAreCreated toy_md5 toy_set_ref (\<lambda>l ks. ks) toy_configs
      (mem_client db_meta) toy_db_site [] = (Inr b, w') \<and>
    Mysql_EnsureDatabasesAreCreated toy_md5 toy_set_ref (\<lambda>l ks. rev ks) toy_configs
      (mem_client db_meta) toy_db_site w' = (Inr True, w')"
  by (rule mysql_converges[OF mem_client_store toy_configs_static _ _ _ toy_mysql_expected])
    (simp_all add: mysql.ready_def selects_def)


definition toy_mongo :: mongo_database where
  "toy_mongo = projr (MongoDatabase_PopulateFomSite toy_md5 toy_db_site
                        (Some (toy_service ''shop'' ''sh'')) ''mo1'')"

lemma toy_mongo_expected:
  "build_expected (Mongo_service_database toy_md5 toy_set_ref toy_configs toy_db_site w)
     (go_range (\<lambda>l ks. ks) 0 (site_services toy_db_site)) [] = Inr [(''shop'', toy_mongo)]"
  by (simp add: go_range_id Mongo_service_database_def Mongo_getPopulatedDatabase_def toy_mongo_def
      MongoDatabase_PopulateFomSite_def toy_set_ref_def)

lemma toy_mongo_facts [simp]:
  "om_namespace (db_meta toy_mongo) = ''ns''" "map_of (om_labels (db_meta toy_mongo)) labels_Site = Some ''my-site''"
  "db_service toy_mongo = ''shop''" "wf_labels (db_meta toy_mongo)"
  by (simp_all add: toy_mongo_def MongoDatabase_PopulateFomSite_def db_service_def wf_labels_def label_defs)

text \<open>
  The Mongo handler converges in the same way: after one pass over a working API server the
  next one reports completion and writes nothing.
\<close>

theorem mongo_converges:
  assumes store: "kube_store db_meta dbs objs" and cfgs: "static_reads cfgs"
    and ord: "range_order ord" "range_order ord'" and services: "wf_map (site_services site)"
    and E: "build_expected (Mongo_service_database md5 setref cfgs site w)
              (go_range ord 0 (site_services site)) [] = Inr E"
    and ready: "mongo.ready (st_namespace site) [(labels_Site, st_name site)] E (objs w)"
  shows "\<exists>b w'. Mongo_EnsureDatabasesAreCreated md5 setref ord cfgs dbs site w = (Inr b, w') \<and>
           Mongo_EnsureDatabasesAreCreated md5 setref ord' cfgs dbs site w' = (Inr True, w')"
proof -
  let ?ns = "st_namespace site" let ?sel = "[(labels_Site, st_name site)]"
  note list = kube_storeD(1)[OF store]
  let ?p = "mongo.plan_of ?ns ?sel E (objs w)"
  obtain w' where run: "run_loops [write_all (cl_delete dbs) (go_range ord 1 (to_delete ?p)),
        write_all (cl_create dbs) (go_range ord 2 (to_create ?p)),
        write_all (cl_update dbs) (go_range ord 3 (to_update ?p))] w = (None, w')"
      and sync: "mongo.in_sync E (filter (selects db_meta ?ns ?sel) (objs w'))"
    using mongo.pass_converges[OF ready mongo.plan_maps_range[OF ready ord(1)] store] by blast
  have first: "Mongo_EnsureDatabasesAreCreated md5 setref ord cfgs dbs site w = (Inr (plan_empty ?p), w')"
    using run by (simp add: Mongo_EnsureDatabasesAreCreated_def list E mongo.plan_of_def)
  have "Mongo_service_database md5 setref cfgs site w' = Mongo_service_database md5 setref cfgs site w"
    using cfgs by (intro ext) (simp add: Mongo_service_database_def static_reads_def, metis)
  then obtain E' where E': "build_expected (Mongo_service_database md5 setref cfgs site w')
      (go_range ord' 0 (site_services site)) [] = Inr E'" "map_of E' = map_of E" "wf_map E'"
    using build_expected_order[OF ord services E] by metis
  have "Mongo_EnsureDatabasesAreCreated md5 setref ord' cfgs dbs site w' = (Inr True, w')"
    unfolding Mongo_EnsureDatabasesAreCreated_def list E'(1) sum.case Let_def
      mongo.second_pass(2)[OF sync E'(2,3) ord(2)]
    using mongo.second_pass(1)[OF sync E'(2,3) ord(2)] by simp
  with first show ?thesis by blast
qed

theorem mongo_converges_witness:
  "\<exists>b w'. Mongo_EnsureDatabasesAreCreated toy_md5 toy_set_ref (\<lambda>l ks. ks) toy_configs
      (mem_client db_meta) toy_db_site [] = (Inr b, w') \<and>
    Mongo_EnsureDatabasesAreCreated toy_md5 toy_set_ref (\<lambda>l ks. rev ks) toy_configs
      (mem_client db_meta) toy_db_site w' = (Inr True, w')"
  by (rule mongo_converges[OF mem_client_store toy_configs_static _ _ _ toy_mongo_expected])
    (simp_all add: mongo.ready_def selects_def)


section \<open>Readiness\<close>

lemma ready_loop_True:
  "ready_loop state failure ds b = Inr True \<longleftrightarrow> b \<and> (\<forall>d \<in> set ds. state d = TaskComplete)"
  by (induction ds arbitrary: b) auto

lemma ready_loop_Inl:
  assumes "\<And>d. IsFinal (failure d)"
  shows "(\<exists>e. ready_loop state failure ds b = Inl e \<and> IsFinal e) \<longleftrightarrow> (\<exists>d \<in> set ds. state d = TaskFailed)"
  by (induction ds arbitrary: b) (auto simp: assms)

text \<open>
  The three \<^verbatim>\<open>EnsureDatabasesAreReady\<close> handlers report readiness exactly when every database
  of the site is complete, and report a final error exactly when one of them has failed.
\<close>

theorem databases_ready_exact:
  assumes "cl_list dbs (st_namespace site) [(labels_Site, st_name site)] w = Inr items"
    and "cl_list rdbs (st_namespace site) [(labels_Site, st_name site)] w = Inr ritems"
  shows "(Mysql_EnsureDatabasesAreReady dbs site w = Inr True \<longleftrightarrow> (\<forall>d \<in> set items. db_state d = TaskComplete)) \<and>
    ((\<exists>e. Mysql_EnsureDatabasesAreReady dbs site w = Inl e \<and> IsFinal e) \<longleftrightarrow>
       (\<exists>d \<in> set items. db_state d = TaskFailed)) \<and>
    (Mongo_EnsureDatabasesAreReady dbs site w = Inr True \<longleftrightarrow> (\<forall>d \<in> set items. db_state d = TaskComplete)) \<and>
    ((\<exists>e. Mongo_EnsureDatabasesAreReady dbs site w = Inl e \<and> IsFinal e) \<longleftrightarrow>
       (\<exists>d \<in> set items. db_state d = TaskFailed)) \<and>
    (Redis_EnsureDatabasesAreReady rdbs site w = Inr True \<longleftrightarrow> (\<forall>d \<in> set ritems. rd_state d = TaskComplete)) \<and>
    ((\<exists>e. Redis_EnsureDatabasesAreReady rdbs site w = Inl e \<and> IsFinal e) \<longleftrightarrow>
       (\<exists>d \<in> set ritems. rd_state d = TaskFailed))"
  by (intro conjI)
    (simp_all add: Mysql_EnsureDatabasesAreReady_def Mongo_EnsureDatabasesAreReady_def
      Redis_EnsureDatabasesAreReady_def assms ready_loop_True ready_loop_Inl)

theorem databases_ready_exact_witness:
  "Mysql_EnsureDatabasesAreReady (mem_client db_meta) toy_db_site [toy_mysql] \<noteq> Inr True \<and>
   Mysql_EnsureDatabasesAreReady (mem_client db_meta) toy_db_site
     [toy_mysql\<lparr>db_state := TaskComplete\<rparr>] = Inr True"
proof -
  have r: "cl_list (static_client rd_meta []) (st_namespace toy_db_site)
      [(labels_Site, st_name toy_db_site)] w = Inr []" for w :: "mysql_database list"
    by (simp add: static_client_def)
  have l: "cl_list (mem_client db_meta) (st_namespace toy_db_site)
      [(labels_Site, st_name toy_db_site)] [toy_mysql\<lparr>db_state := s\<rparr>] = Inr [toy_mysql\<lparr>db_state := s\<rparr>]" for s
    by (simp add: mem_client_def selects_def)
  have u: "toy_mysql = toy_mysql\<lparr>db_state := TaskUnset\<rparr>" "db_state toy_mysql = TaskUnset"
    by (simp_all add: toy_mysql_def MysqlDatabase_PopulateFomSite_def)
  show ?thesis
    using databases_ready_exact[OF l r, of TaskUnset] databases_ready_exact[OF l r, of TaskComplete] u
    by simp
qed

end
