(* ===== verification/DbInitProperties.thy ===== *)
theory DbInitProperties
  imports DbInitController TaskProperties
begin

text \<open>
  The init job controller follows its abstract life cycle, never leaves a final state, tolerates
  five failed look-ups and fails at the sixth, fails an overdue job, and owns the batch job it
  creates.
\<close>

lemma dbinit_step_phase:
  assumes "dbinit_step x config cl job job'"
  shows "dbinit_phase (di_status job) (di_status job') \<and> job'\<lparr>di_status := di_status job\<rparr> = job"
  using assms
proof cases
  case (1 now w result err w')
  show ?thesis
  proof (cases "dit_state (di_status job) = JobUnset \<or> dit_deadline (di_status job) = None")
    case True
    then show ?thesis
      using 1 initialise[OF True, of "deadline_after now (dis_deadline_seconds (di_spec job))"]
      by (auto simp: DbInit_handle_def)
  next
    case False
    then have d: "dit_deadline (di_status job) \<noteq> None" by simp
    then obtain dl where dl: "dit_deadline (di_status job) = Some dl" by blast
    show ?thesis
    proof (cases "dit_state (di_status job)")
      case JobPending
      then have "DbInit_createJobIfNeeded x config cl job w = (Inr (True, job'), w')"
        using 1 dl by (simp add: DbInit_handle_def on_handled_True)
      then show ?thesis by (rule createIfNeeded_phase[OF _ JobPending d])
    next
      case JobRunning
      then have "DbInit_processRunningJob (jc_batch cl) now job w = Inr (True, job')"
        using 1 dl by (auto simp: DbInit_handle_def on_handled_True)
      then show ?thesis by (rule processRunning_phase[OF _ JobRunning d])
    qed (use 1 False dl in \<open>auto simp: DbInit_handle_def\<close>)
  qed
qed

text \<open>
  C8. Refinement: every status that the controller writes is a step of the abstract life cycle
  (initialise, start, reject, miss, give up, watch, finish), and it writes nothing but the status.
\<close>

theorem dbinit_refines_life_cycle:
  assumes "dbinit_step x config cl job job'"
  shows "dbinit_phase (di_status job) (di_status job') \<and> job'\<lparr>di_status := di_status job\<rparr> = job"
  by (rule dbinit_step_phase[OF assms])

definition toy_init_job :: db_init_job where
  "toy_init_job = projr (DbInitJob_PopulateFomSite toy_md5 toy_db_site (toy_service ''shop'' ''sh'') ''my1'' ''mo1'')"

lemma toy_init_job_simps [simp]:
  "di_status toy_init_job = \<lparr>dit_state = JobUnset, dit_not_found = 0, dit_deadline = None\<rparr>"
  "dis_deadline_seconds (di_spec toy_init_job) = 600"
  "om_namespace (di_meta toy_init_job) = ''ns''"
  by (simp_all add: toy_init_job_def DbInitJob_PopulateFomSite_def toy_service_def)

definition toy_initialised :: db_init_job where
  "toy_initialised = toy_init_job\<lparr>di_status := (di_status toy_init_job)\<lparr>dit_state := JobPending,
     dit_deadline := Some (deadline_after 0 600)\<rparr>\<rparr>"

definition toy_externals :: externals where
  "toy_externals = \<lparr>ex_md5 = toy_md5, ex_set_ref = toy_set_ref, ex_order = (\<lambda>l ks. ks), ex_sort = toy_sort,
     ex_pod_codec = \<lparr>marshal = (\<lambda>s. Inr []), unmarshal = (\<lambda>t s. Inr s)\<rparr>,
     ex_service_codec = \<lparr>marshal = (\<lambda>s. Inr []), unmarshal = (\<lambda>t s. Inr s)\<rparr>,
     ex_ingress_codec = \<lparr>marshal = (\<lambda>s. Inr []), unmarshal = (\<lambda>t s. Inr s)\<rparr>\<rparr>"

definition toy_clients :: "batch_job list job_clients" where
  "toy_clients = \<lparr>jc_configs = \<lparr>cc_service = toy_configs, cc_mysql = static_client myc_meta [zero_mysql_config\<lparr>myc_meta := new_meta ''my1'' ''ns'' []\<rparr>],
       cc_mongo = static_client moc_meta [zero_mongo_config\<lparr>moc_meta := new_meta ''mo1'' ''ns'' []\<rparr>], cc_redis = static_client rec_meta []\<rparr>,
     jc_sites = static_client st_meta [toy_db_site], jc_batch = mem_client bj_meta\<rparr>"

lemma toy_init_step: "dbinit_step toy_externals defaultCtrlConfig toy_clients toy_init_job toy_initialised"
proof (rule dbinit_step.intros)
  show "DbInit_handle toy_externals defaultCtrlConfig toy_clients 0 toy_init_job [] =
      ((True, toy_initialised, requeue_now, None), [])"
    by (simp add: DbInit_handle_def toy_initialised_def)
qed

theorem dbinit_refines_life_cycle_witness:
  "dbinit_phase (di_status toy_init_job) (di_status toy_initialised)"
  using dbinit_refines_life_cycle[OF toy_init_step] by blast


section \<open>Invariants\<close>

definition dbinit_ok :: "db_init_job_status \<Rightarrow> bool" where
  "dbinit_ok s \<longleftrightarrow> (dit_state s = JobUnset \<or> dit_deadline s \<noteq> None) \<and>
     (\<nexists>t. dit_state s = JobUnknown t) \<and> dit_not_found s \<le> 6 \<and>
     (dit_not_found s > 5 \<longrightarrow> dit_state s = JobFailed)"

lemma word_five: "(n :: 32 word) \<le> 6 \<Longrightarrow> \<not> n > 5 \<Longrightarrow> n + 1 \<le> 6"
  by (simp add: word_le_nat_alt word_less_nat_alt) unat_arith

lemma phase_keeps_ok: "dbinit_phase s t \<Longrightarrow> dbinit_ok s \<Longrightarrow> dbinit_ok t"
  by (erule dbinit_phaseE)
    (auto simp: dbinit_ok_def JobState_IsFinal_def split: if_splits intro: word_five)

definition fresh_init :: "db_init_job \<Rightarrow> bool" where
  "fresh_init job \<longleftrightarrow> di_status job = \<lparr>dit_state = JobUnset, dit_not_found = 0, dit_deadline = None\<rparr>"

lemma reachable_ok: "(dbinit_step x config cl)\<^sup>*\<^sup>* job job' \<Longrightarrow> dbinit_ok (di_status job) \<Longrightarrow> dbinit_ok (di_status job')"
proof (induction rule: rtranclp_induct)
  case (step y z)
  then show ?case using phase_keeps_ok dbinit_step_phase by blast
qed

text \<open>
  Invariant of every status an init job goes through: from its first write on it has a
  deadline, its state is one of the known ones, and it never counts more than six failed
  look-ups, six only in the Failed state.
\<close>

theorem dbinit_invariant:
  assumes "fresh_init job" "(dbinit_step x config cl)\<^sup>*\<^sup>* job job'"
  shows "(dit_state (di_status job') = JobUnset \<or> dit_deadline (di_status job') \<noteq> None) \<and>
         (\<nexists>t. dit_state (di_status job') = JobUnknown t) \<and> dit_not_found (di_status job') \<le> 6 \<and>
         (dit_state (di_status job') = JobFailed \<or> \<not> dit_not_found (di_status job') > 5)"
  using reachable_ok[OF assms(2)] assms(1) by (auto simp: fresh_init_def dbinit_ok_def)

theorem dbinit_invariant_witness:
  "dit_deadline (di_status toy_initialised) \<noteq> None"
proof -
  have "fresh_init toy_init_job" by (simp add: fresh_init_def)
  moreover have "(dbinit_step toy_externals defaultCtrlConfig toy_clients)\<^sup>*\<^sup>* toy_init_job toy_initialised" using toy_init_step by blast
  ultimately show ?thesis using dbinit_invariant by (simp add: toy_initialised_def)
qed

text \<open>
  Complete and Failed are final: once a job that started afresh has reached one of them, no
  later reconcile of it writes anything, whatever the world looks like.
\<close>

theorem dbinit_final_is_final:
  assumes "fresh_init job" "(dbinit_step x config cl)\<^sup>*\<^sup>* job job'" "JobState_IsFinal (dit_state (di_status job'))"
  shows "\<not> dbinit_step x config cl job' job''"
proof
  assume "dbinit_step x config cl job' job''"
  then have p: "dbinit_phase (di_status job') (di_status job'')" using dbinit_step_phase by blast
  have "dit_deadline (di_status job') \<noteq> None"
    using reachable_ok[OF assms(2)] assms(1,3) by (auto simp: fresh_init_def dbinit_ok_def)
  with p assms(3) show False by (auto elim: dbinit_phaseE)
qed

lemma toy_run:
  "(dbinit_step toy_externals defaultCtrlConfig toy_clients)\<^sup>*\<^sup>* toy_init_job (set_init_state JobFailed toy_initialised)"
proof -
  have "DbInit_handle toy_externals defaultCtrlConfig toy_clients 0 toy_initialised [] =
      ((True, set_init_state JobFailed toy_initialised, no_requeue, None), [])"
    by code_simp
  then have "dbinit_step toy_externals defaultCtrlConfig toy_clients toy_initialised (set_init_state JobFailed toy_initialised)"
    by (rule dbinit_step.intros)
  then show ?thesis using toy_init_step by simp
qed

theorem dbinit_final_is_final_witness:
  "\<not> dbinit_step toy_externals defaultCtrlConfig toy_clients (set_init_state JobFailed toy_initialised) toy_init_job"
  by (rule dbinit_final_is_final[OF _ toy_run]) (simp_all add: fresh_init_def set_init_state_def)

section \<open>The batch job\<close>

lemma DbInit_createJob_shape:
  assumes "DbInit_createJob x config cl job sc w = Inr bj"
  obtains meta site spec where
    "ex_set_ref x (di_meta job) (new_meta (ShortenHumanReadableValue (ex_md5 x) (''dbinit-'' @ om_name (di_meta job)) 50)
       (om_namespace (di_meta job)) [(labels_Type, ''dbinit''), (labels_JobName, om_name (di_meta job)),
          (labels_Site, dis_site (di_spec job)), (labels_Service, dis_service (di_spec job))]) = Inr meta"
    "bj_meta bj = meta"
    "bj_pod bj = SetExtraEnvVarsOnPodSpec (ex_sort x) (ex_order x) 40 (set_restart_policy spec) site sc"
    "bj_deadline bj = scast (jc_deadline (pc_init_job config))"
  using assms that
  by (auto simp: DbInit_createJob_def Let_def split: option.splits sum.splits)

lemma created_init_job_owned:
  assumes "set_ref_ok (ex_set_ref x)" "DbInit_createJob x config cl job sc w = Inr bj"
  shows "selects bj_meta (om_namespace (di_meta job)) (dbinit_selector job) bj"
    and "ps_restart_policy (bj_pod bj) = ''OnFailure'' \<or> ps_restart_policy (bj_pod bj) = ''Never''"
proof -
  obtain meta site spec where m: "ex_set_ref x (di_meta job)
      (new_meta (ShortenHumanReadableValue (ex_md5 x) (''dbinit-'' @ om_name (di_meta job)) 50)
       (om_namespace (di_meta job)) [(labels_Type, ''dbinit''), (labels_JobName, om_name (di_meta job)),
          (labels_Site, dis_site (di_spec job)), (labels_Service, dis_service (di_spec job))]) = Inr meta"
      "bj_meta bj = meta"
      "bj_pod bj = SetExtraEnvVarsOnPodSpec (ex_sort x) (ex_order x) 40 (set_restart_policy spec) site sc"
    by (rule DbInit_createJob_shape[OF assms(2)])
  show "selects bj_meta (om_namespace (di_meta job)) (dbinit_selector job) bj"
    using set_ref_okD[OF assms(1) m(1)] by (simp add: selects_def m(2) dbinit_selector_def)
  show "ps_restart_policy (bj_pod bj) = ''OnFailure'' \<or> ps_restart_policy (bj_pod bj) = ''Never''"
    unfolding m(3) using set_restart_policy_ok[of spec] by simp
qed

text \<open>
  C29. At most one batch job: the step out of Pending writes to the batch jobs only when the job
  owns none, and what it then creates is found by the look-up of the following steps, under a
  restart policy that Kubernetes accepts for jobs. A single created batch job therefore takes the
  job to Running, and no later Pending step can create another.
\<close>

theorem dbinit_creates_one_batch_job:
  assumes "kube_store bj_meta (jc_batch cl) objs" "set_ref_ok (ex_set_ref x)"
    and "DbInit_createJobIfNeeded x config cl job w = (Inr (True, job'), w')"
    and "create_appends (jc_batch cl) objs"
    and "dit_state (di_status job') = JobRunning"
  shows "(getOwnedInitJobs (jc_batch cl) job w \<noteq> Inr [] \<and> w' = w) \<or>
         (\<exists>bj. getOwnedInitJobs (jc_batch cl) job w = Inr [] \<and> objs w' = objs w @ [bj] \<and>
               getOwnedInitJobs (jc_batch cl) job' w' = Inr [bj] \<and>
               (ps_restart_policy (bj_pod bj) = ''OnFailure'' \<or> ps_restart_policy (bj_pod bj) = ''Never''))"
proof (cases "getOwnedInitJobs (jc_batch cl) job w = Inr []")
  case False
  then show ?thesis
    using assms(3) by (auto simp: DbInit_createJobIfNeeded_def split: sum.splits)
next
  case True
  have same: "di_meta job' = di_meta job"
    using assms(3) by (auto simp: DbInit_createJobIfNeeded_def True set_init_state_def
        split: sum.splits if_splits prod.splits)
  obtain sc bj r where c: "DbInit_createJob x config cl job sc w = Inr bj"
      "cl_create (jc_batch cl) bj w = (Inr r, w')"
    using assms(3,5) by (auto simp: DbInit_createJobIfNeeded_def True set_init_state_def
        split: sum.splits if_splits prod.splits)
  then have o: "objs w' = objs w @ [bj]" using assms(4) by (simp add: create_appends_def)
  have list: "getOwnedInitJobs (jc_batch cl) job v =
      Inr (filter (selects bj_meta (om_namespace (di_meta job)) (dbinit_selector job)) (objs v))" for v
    by (simp add: getOwnedInitJobs_def kube_storeD(1)[OF assms(1)])
  have "getOwnedInitJobs (jc_batch cl) job' w' = getOwnedInitJobs (jc_batch cl) job w'"
    by (simp add: getOwnedInitJobs_def dbinit_selector_def same)
  also have "\<dots> = Inr [bj]"
    using True created_init_job_owned(1)[OF assms(2) c(1)] unfolding list o by simp
  finally show ?thesis using True o created_init_job_owned(2)[OF assms(2) c(1)] by blast
qed

definition toy_init_clients :: "batch_job list job_clients" where
  "toy_init_clients = toy_clients\<lparr>jc_configs := (jc_configs toy_clients)\<lparr>cc_service :=
     static_client sc_meta [(toy_service ''shop'' ''sh'')\<lparr>sc_db_init_pod_spec :=
        Some \<lparr>ps_containers = [], ps_restart_policy = ''Always'', ps_rest = []\<rparr>\<rparr>]\<rparr>\<rparr>"

lemma replace_empty [simp]: "ReplaceTemplateVariablesInString ord l [] ts = []"
proof -
  have "replace_entries m [] = []" for m by (induction m) simp_all
  then show ?thesis by (induction ts arbitrary: l) simp_all
qed

lemma toy_replace [simp]:
  "ReplaceTemplateVariablesInPodSpec (ex_pod_codec toy_externals) ord l spec ts = Inr spec"
  by (simp add: ReplaceTemplateVariablesInPodSpec_def replace_in_object_def toy_externals_def
      GetUnresolvedTemplatesFromString_def)

lemma toy_load [simp]:
  "\<exists>h. LoadConfigs (jc_configs toy_init_clients) w (NewSite site sc) = Inr h"
  by (simp add: LoadConfigs_def ListMongoConfigsInNamespace_def ListMysqlConfigsInNamespace_def
      ListRedisConfigsInNamespace_def LoadServiceConfigs_def toy_init_clients_def toy_clients_def
      static_client_def Let_def)

lemma toy_initialised_simps [simp]:
  "di_meta toy_initialised = di_meta toy_init_job" "di_spec toy_initialised = di_spec toy_init_job"
  "dis_site (di_spec toy_init_job) = ''my-site''" "dis_service (di_spec toy_init_job) = ''shop''"
  "dis_mysql (di_spec toy_init_job) = ''my1''" "dis_mongo (di_spec toy_init_job) = ''mo1''"
  by (simp_all add: toy_initialised_def toy_init_job_def DbInitJob_PopulateFomSite_def toy_service_def)

lemma toy_init_created:
  "fst (DbInit_createJobIfNeeded toy_externals defaultCtrlConfig toy_init_clients toy_initialised []) =
     Inr (True, set_init_state JobRunning toy_initialised) \<and>
   getOwnedInitJobs (jc_batch toy_init_clients) toy_initialised [] = Inr []"
proof -
  have owned: "getOwnedInitJobs (jc_batch toy_init_clients) toy_initialised [] = Inr []"
    by (simp add: getOwnedInitJobs_def toy_init_clients_def toy_clients_def mem_client_def)
  have gets: "cl_get (cc_mysql (jc_configs toy_init_clients)) ''ns'' ''my1'' w =
        Inr (zero_mysql_config\<lparr>myc_meta := new_meta ''my1'' ''ns'' []\<rparr>)"
      "cl_get (cc_mongo (jc_configs toy_init_clients)) ''ns'' ''mo1'' w =
        Inr (zero_mongo_config\<lparr>moc_meta := new_meta ''mo1'' ''ns'' []\<rparr>)"
      "cl_get (cc_service (jc_configs toy_init_clients)) ''ns'' ''shop'' w =
        Inr ((toy_service ''shop'' ''sh'')\<lparr>sc_db_init_pod_spec :=
          Some \<lparr>ps_containers = [], ps_restart_policy = ''Always'', ps_rest = []\<rparr>\<rparr>)"
      "cl_get (jc_sites toy_init_clients) ''ns'' ''my-site'' w = Inr toy_db_site" for w
    by (simp_all add: toy_init_clients_def toy_clients_def static_client_def obj_key_def toy_service_def)
  let ?sc = "(toy_service ''shop'' ''sh'')\<lparr>sc_db_init_pod_spec :=
          Some \<lparr>ps_containers = [], ps_restart_policy = ''Always'', ps_rest = []\<rparr>\<rparr>"
  obtain h where "LoadConfigs (jc_configs toy_init_clients) [] (NewSite toy_db_site ?sc) = Inr h"
    using toy_load by blast
  moreover have "ex_set_ref toy_externals = toy_set_ref" by (simp add: toy_externals_def)
  ultimately have "\<exists>bj. DbInit_createJob toy_externals defaultCtrlConfig toy_init_clients toy_initialised
      ?sc [] = Inr bj"
    by (simp add: DbInit_createJob_def gets toy_set_ref_def Let_def)
  then obtain bj where bj: "DbInit_createJob toy_externals defaultCtrlConfig toy_init_clients toy_initialised
      ?sc [] = Inr bj" by blast
  have "cl_create (jc_batch toy_init_clients) bj [] = (Inr bj, [bj])"
    by (simp add: toy_init_clients_def toy_clients_def mem_client_def)
  then show ?thesis
    by (simp add: owned) (simp add: DbInit_createJobIfNeeded_def owned DbInit_getMysqlConfig_def
        DbInit_getMongoConfig_def gets bj)
qed

theorem dbinit_creates_one_batch_job_witness:
  "\<exists>bj. snd (DbInit_createJobIfNeeded toy_externals defaultCtrlConfig toy_init_clients toy_initialised []) = [bj] \<and>
     (ps_restart_policy (bj_pod bj) = ''OnFailure'' \<or> ps_restart_policy (bj_pod bj) = ''Never'')"
  (is "\<exists>bj. snd ?r = _ \<and> _")
proof -
  have batch: "jc_batch toy_init_clients = mem_client bj_meta"
    by (simp add: toy_init_clients_def toy_clients_def)
  have r: "?r = (Inr (True, set_init_state JobRunning toy_initialised), snd ?r)"
    using toy_init_created by (metis prod.collapse)
  have s: "kube_store bj_meta (jc_batch toy_init_clients) id" "create_appends (jc_batch toy_init_clients) id"
    unfolding batch by (rule mem_client_store mem_client_appends)+
  have "set_ref_ok (ex_set_ref toy_externals)"
    by (simp add: toy_externals_def toy_set_ref_def set_ref_ok_def)
  from dbinit_creates_one_batch_job[OF s(1) this r s(2)] show ?thesis
    using toy_init_created by (auto simp: set_init_state_def)
qed


section \<open>Failures\<close>

text \<open>
  The job after a reconcile in which the world shows the same batch jobs.
\<close>

definition dbinit_next ::
  "externals \<Rightarrow> project_config \<Rightarrow> 'w job_clients \<Rightarrow> time \<Rightarrow> 'w \<Rightarrow> db_init_job \<Rightarrow> db_init_job" where
  "dbinit_next x config cl now w job = fst (snd (fst (DbInit_handle x config cl now job w)))"

definition counting :: "db_init_job \<Rightarrow> nat \<Rightarrow> db_init_job" where
  "counting job n = job\<lparr>di_status := (di_status job)\<lparr>dit_not_found := of_nat n\<rparr>\<rparr>"

lemma dbinit_next_miss:
  assumes "getOwnedInitJobs (jc_batch cl) job w = Inr items" "length items \<noteq> 1"
    and "dit_state (di_status job) = JobRunning" "dit_deadline (di_status job) = Some d"
  shows "dbinit_next x config cl now w (counting job n) =
    (if (of_nat n :: 32 word) + 1 > 5
     then set_init_state JobFailed (counting job (Suc n)) else counting job (Suc n))"
proof -
  have "getOwnedInitJobs (jc_batch cl) (counting job n) w = Inr items"
    using assms(1) by (simp add: getOwnedInitJobs_def dbinit_selector_def counting_def)
  then show ?thesis
    using assms(2-4)
    by (simp add: dbinit_next_def DbInit_handle_def counting_def on_handled_def
        DbInit_processRunningJob_def Let_def DbInitMaxJobFailedLoadLimit_def set_init_state_def add.commute)
qed

text \<open>
  A running job whose batch job is gone does not hang: five reconciles that find no batch
  job, or more than one, leave it running and only count, and the sixth fails it.
\<close>

theorem dbinit_missing_batch_job_fails:
  assumes "getOwnedInitJobs (jc_batch cl) job w = Inr items" "length items \<noteq> 1"
    and "dit_state (di_status job) = JobRunning" "dit_deadline (di_status job) = Some d"
    and "dit_not_found (di_status job) = 0"
  shows "(dbinit_next x config cl now w ^^ 5) job = counting job 5 \<and>
         dit_state (di_status ((dbinit_next x config cl now w ^^ 6) job)) = JobFailed"
proof -
  note next_miss = dbinit_next_miss[OF assms(1-4), of x config now]
  have "job = counting job 0" using assms(5) by (simp add: counting_def)
  moreover have "(dbinit_next x config cl now w ^^ k) (counting job 0) = counting job k" if "k \<le> 5" for k
    using that
  proof (induction k)
    case (Suc k)
    have "k \<in> {0, 1, 2, 3, 4}" using Suc.prems by auto
    then have "(of_nat k :: 32 word) + 1 \<le> 5" by auto
    with Suc show ?case by (simp add: next_miss not_less)
  qed simp
  ultimately have five: "(dbinit_next x config cl now w ^^ 5) job = counting job 5" by (metis order_refl)
  have "(dbinit_next x config cl now w ^^ 6) job = dbinit_next x config cl now w ((dbinit_next x config cl now w ^^ 5) job)"
    by (simp add: numeral_eq_Suc)
  also have "\<dots> = set_init_state JobFailed (counting job 6)"
    unfolding five next_miss by simp
  finally show ?thesis using five by (simp add: set_init_state_def)
qed

theorem dbinit_missing_batch_job_fails_witness:
  "dit_state (di_status ((dbinit_next toy_externals defaultCtrlConfig toy_clients 0 [] ^^ 6)
     (set_init_state JobRunning toy_initialised))) = JobFailed"
proof -
  have "getOwnedInitJobs (jc_batch toy_clients) (set_init_state JobRunning toy_initialised) [] = Inr []"
    by (simp add: getOwnedInitJobs_def toy_clients_def mem_client_def)
  from dbinit_missing_batch_job_fails[OF this] show ?thesis
    by (simp add: set_init_state_def toy_initialised_def)
qed

text \<open>
  A running job is failed at the first reconcile after its deadline unless its batch job has
  finished by then; a finished batch job decides the state whatever the clock says, and Complete
  is only ever reached that way.
\<close>

theorem dbinit_running_outcome:
  assumes "getOwnedInitJobs (jc_batch cl) job w = Inr [bj]"
    and "dit_state (di_status job) = JobRunning" "dit_deadline (di_status job) = Some d"
  shows "dit_state (di_status (dbinit_next x config cl now w job)) =
    (case finished_state (bj_conditions bj) of
       Some s \<Rightarrow> s | None \<Rightarrow> if now > d then JobFailed else JobRunning)"
  using assms
  by (simp add: dbinit_next_def DbInit_handle_def on_handled_def DbInit_processRunningJob_def Let_def
      split: option.split)

definition toy_batch :: "string gomap \<Rightarrow> job_condition list \<Rightarrow> batch_job" where
  "toy_batch labels conditions =
     \<lparr>bj_meta = new_meta ''b'' ''ns'' labels, bj_deadline = 0, bj_backoff = 0, bj_ttl = 0,
      bj_pod_labels = [], bj_pod = \<lparr>ps_containers = [], ps_restart_policy = [], ps_rest = []\<rparr>,
      bj_conditions = conditions, bj_start = None, bj_completion = None\<rparr>"

lemma toy_batch_conditions [simp]: "bj_conditions (toy_batch l cs) = cs"
  by (simp add: toy_batch_def)

theorem dbinit_running_outcome_witness:
  "dit_state (di_status (dbinit_next toy_externals defaultCtrlConfig toy_clients 600000000001
     [toy_batch (dbinit_selector toy_initialised) []] (set_init_state JobRunning toy_initialised))) = JobFailed"
proof -
  let ?job = "set_init_state JobRunning toy_initialised"
  have owned: "getOwnedInitJobs (jc_batch toy_clients) ?job
      [toy_batch (dbinit_selector toy_initialised) []] = Inr [toy_batch (dbinit_selector toy_initialised) []]"
    by (simp add: getOwnedInitJobs_def toy_clients_def mem_client_def selects_def toy_batch_def
        set_init_state_def dbinit_selector_def)
  have "dit_state (di_status ?job) = JobRunning" "dit_deadline (di_status ?job) = Some 600000000000"
    by (simp_all add: set_init_state_def toy_initialised_def deadline_after_def time_add_def)
  from dbinit_running_outcome[OF owned this] show ?thesis by simp
qed

end
