(* ===== verification/DbMigrationController.thy ===== *)
theory DbMigrationController
  imports DbInitProperties
begin

text \<open>
  \<^verbatim>\<open>controllers/job/dbmigrationjob_controller.go\<close>: a migration job runs again whenever the image
  tag in its spec differs from the tag it last migrated to; in between it goes through the same
  states as an init job.
\<close>

definition migration_selector :: "db_migration_job \<Rightarrow> string gomap" where
  "migration_selector job = [(labels_JobName, om_name (dm_meta job)), (labels_Type, ''dbmigration'')]"

definition getOwnedMigrationJobs ::
  "('w, batch_job) client \<Rightarrow> db_migration_job \<Rightarrow> 'w \<Rightarrow> go_error + batch_job list" where
  "getOwnedMigrationJobs batch job w = cl_list batch (om_namespace (dm_meta job)) (migration_selector job) w"

definition deleteAssociatedJobs ::
  "('w, batch_job) client \<Rightarrow> db_migration_job \<Rightarrow> 'w \<Rightarrow> (go_error + unit) \<times> 'w" where
  "deleteAssociatedJobs batch job w =
     cl_delete_all_of batch (om_namespace (dm_meta job)) (migration_selector job) w"

definition DbMigration_processRunningJob ::
  "('w, batch_job) client \<Rightarrow> time \<Rightarrow> db_migration_job \<Rightarrow> 'w \<Rightarrow> go_error + bool \<times> db_migration_job" where
  "DbMigration_processRunningJob batch now job w =
     (case getOwnedMigrationJobs batch job w of
        Inl err \<Rightarrow> Inl err
      | Inr items \<Rightarrow>
          let st = dm_status job
          in if length items \<noteq> 1
             then let st = st\<lparr>dmt_not_found := dmt_not_found st + 1\<rparr>;
                      st = (if dmt_not_found st > DbInitMaxJobFailedLoadLimit
                            then st\<lparr>dmt_state := JobFailed\<rparr> else st)
                  in Inr (True, job\<lparr>dm_status := st\<rparr>)
             else let changed = dmt_not_found st > 0;
                      st = (if changed then st\<lparr>dmt_not_found := 0\<rparr> else st)
                  in case finished_state (bj_conditions (hd items)) of
                       Some s \<Rightarrow> Inr (True, job\<lparr>dm_status := st\<lparr>dmt_state := s\<rparr>\<rparr>)
                     | None \<Rightarrow>
                         (case dmt_deadline st of
                            None \<Rightarrow> Inl (Panic ''nil deadline'')
                          | Some deadline \<Rightarrow>
                              if now > deadline
                              then Inr (True, job\<lparr>dm_status := st\<lparr>dmt_state := JobFailed\<rparr>\<rparr>)
                              else Inr (changed, job\<lparr>dm_status := st\<rparr>)))"

definition DbMigration_createJob ::
  "externals \<Rightarrow> project_config \<Rightarrow> 'w job_clients \<Rightarrow> db_migration_job \<Rightarrow> service_config \<Rightarrow> 'w \<Rightarrow>
   go_error + batch_job" where
  "DbMigration_createJob x config cl job serviceConfig w =
     (case sc_migration_pod_spec serviceConfig of
        None \<Rightarrow> Inl (PlainError ''no migration pod spec specified in the service config'')
      | Some migrationSpec \<Rightarrow>
          (case cl_get (jc_sites cl) (om_namespace (dm_meta job)) (dms_site (dm_spec job)) w of
             Inl err \<Rightarrow> Inl err
           | Inr site \<Rightarrow>
               let jobLabels = [(labels_Type, ''dbmigration''), (labels_JobName, om_name (dm_meta job)),
                                (labels_Site, dms_site (dm_spec job)), (labels_Service, dms_service (dm_spec job))]
               in case LoadConfigs (jc_configs cl) w (NewSite site serviceConfig) of
                    Inl err \<Rightarrow> Inl err
                  | Inr templateHandler \<Rightarrow>
                      (case ReplaceTemplateVariablesInPodSpec (ex_pod_codec x) (ex_order x) 20 migrationSpec
                              [GetTemplateValues (ex_md5 x) (ex_order x) templateHandler] of
                         Inl err \<Rightarrow> Inl err
                       | Inr podSpec \<Rightarrow>
                           (case ex_set_ref x (dm_meta job)
                                   (new_meta (ShortenHumanReadableValue (ex_md5 x) (''dbmigration-'' @ om_name (dm_meta job)) 50)
                                      (om_namespace (dm_meta job)) jobLabels) of
                              Inl err \<Rightarrow> Inl err
                            | Inr meta \<Rightarrow>
                                Inr \<lparr>bj_meta = meta,
                                     bj_deadline = scast (jc_deadline (pc_migration_job config)),
                                     bj_backoff = jc_backoff (pc_migration_job config),
                                     bj_ttl = jc_ttl (pc_migration_job config), bj_pod_labels = jobLabels,
                                     bj_pod = SetExtraEnvVarsOnPodSpec (ex_sort x) (ex_order x) 40
                                                (set_restart_policy podSpec) site serviceConfig,
                                     bj_conditions = [], bj_start = None, bj_completion = None\<rparr>))))"

definition set_migration_state :: "job_state \<Rightarrow> db_migration_job \<Rightarrow> db_migration_job" where
  "set_migration_state s job = job\<lparr>dm_status := (dm_status job)\<lparr>dmt_state := s\<rparr>\<rparr>"

definition DbMigration_createJobIfNeeded ::
  "externals \<Rightarrow> project_config \<Rightarrow> 'w job_clients \<Rightarrow> db_migration_job \<Rightarrow> 'w \<Rightarrow>
   (go_error + bool \<times> db_migration_job) \<times> 'w" where
  "DbMigration_createJobIfNeeded x config cl job w =
     (case getOwnedMigrationJobs (jc_batch cl) job w of
        Inl err \<Rightarrow> (Inl err, w)
      | Inr items \<Rightarrow>
          if length items > 0 then (Inr (True, set_migration_state JobRunning job), w)
          else case cl_get (cc_service (jc_configs cl)) (om_namespace (dm_meta job))
                      (dms_service (dm_spec job)) w of
                 Inl err \<Rightarrow> (Inl err, w)
               | Inr serviceConfig \<Rightarrow>
                   (case DbMigration_createJob x config cl job serviceConfig w of
                      Inl err \<Rightarrow> (Inl err, w)
                    | Inr batchJob \<Rightarrow>
                        (case cl_create (jc_batch cl) batchJob w of
                           (Inl err, w') \<Rightarrow> (Inl err, w')
                         | (Inr _, w') \<Rightarrow> (Inr (True, set_migration_state JobRunning job), w'))))"

definition DbMigration_handle ::
  "externals \<Rightarrow> project_config \<Rightarrow> 'w job_clients \<Rightarrow> time \<Rightarrow> db_migration_job \<Rightarrow> 'w \<Rightarrow>
   (bool \<times> db_migration_job \<times> ctrl_result \<times> go_error option) \<times> 'w" where
  "DbMigration_handle x config cl now job w =
     (if dms_image_tag (dm_spec job) \<noteq> dmt_last_tag (dm_status job)
      then case deleteAssociatedJobs (jc_batch cl) job w of
             (Inl err, w') \<Rightarrow> ((False, job, no_requeue, Some err), w')
           | (Inr _, w') \<Rightarrow>
               ((True, job\<lparr>dm_status := (dm_status job)\<lparr>dmt_state := JobPending,
                    dmt_last_tag := dms_image_tag (dm_spec job),
                    dmt_deadline := Some (deadline_after now (dms_deadline_seconds (dm_spec job)))\<rparr>\<rparr>,
                 requeue_now, None), w')
      else case dmt_state (dm_status job) of
             JobPending \<Rightarrow> on_handled job (DbMigration_createJobIfNeeded x config cl job w)
           | JobFailed \<Rightarrow> ((False, job, no_requeue, None), w)
           | JobComplete \<Rightarrow> ((False, job, no_requeue, None), w)
           | JobRunning \<Rightarrow> on_handled job (DbMigration_processRunningJob (jc_batch cl) now job w, w)
           | JobUnset \<Rightarrow> ((False, job, no_requeue, Some (PlainError ''unknown state: '')), w)
           | JobUnknown s \<Rightarrow> ((False, job, no_requeue, Some (PlainError (''unknown state: '' @ s))), w))"

definition DbMigration_doReconcile ::
  "externals \<Rightarrow> project_config \<Rightarrow> 'w job_clients \<Rightarrow> ('w, db_migration_job) client \<Rightarrow> time \<Rightarrow> string \<Rightarrow>
   string \<Rightarrow> 'w \<Rightarrow> reconcile_result \<times> 'w" where
  "DbMigration_doReconcile x config cl jobs now ns name w =
     (case cl_get jobs ns name w of
        Inl err \<Rightarrow> ((no_requeue, ignore_not_found err), w)
      | Inr job \<Rightarrow>
          (case DbMigration_handle x config cl now job w of
             ((changed, job', result, err), w') \<Rightarrow>
               SaveStatusUpdatesIfObjectChanged changed jobs job' result err w'))"


section \<open>The state machine\<close>

inductive migration_step ::
  "externals \<Rightarrow> project_config \<Rightarrow> 'w job_clients \<Rightarrow> db_migration_job \<Rightarrow> db_migration_job \<Rightarrow> bool"
  for x config cl where
  reconcile: "DbMigration_handle x config cl now job w = ((True, job', result, err), w') \<Longrightarrow>
   migration_step x config cl job job'"
| retag: "migration_step x config cl job (job\<lparr>dm_spec := spec\<rparr>)"

text \<open>
  The second rule is the site handler, which may change the spec at any time. The abstract life
  cycle: a pair of tags decides whether the job restarts.
\<close>

inductive migration_phase :: "db_migration_job \<Rightarrow> db_migration_job_status \<Rightarrow> bool" where
  restart: "dms_image_tag (dm_spec j) \<noteq> dmt_last_tag (dm_status j) \<Longrightarrow>
     migration_phase j ((dm_status j)\<lparr>dmt_state := JobPending, dmt_last_tag := dms_image_tag (dm_spec j),
                                      dmt_deadline := Some d\<rparr>)"
| start: "dms_image_tag (dm_spec j) = dmt_last_tag (dm_status j) \<Longrightarrow> dmt_state (dm_status j) = JobPending \<Longrightarrow>
     migration_phase j ((dm_status j)\<lparr>dmt_state := JobRunning\<rparr>)"
| miss: "dms_image_tag (dm_spec j) = dmt_last_tag (dm_status j) \<Longrightarrow> dmt_state (dm_status j) = JobRunning \<Longrightarrow>
     dmt_not_found (dm_status j) + 1 \<le> 5 \<Longrightarrow>
     migration_phase j ((dm_status j)\<lparr>dmt_not_found := dmt_not_found (dm_status j) + 1\<rparr>)"
| give_up: "dms_image_tag (dm_spec j) = dmt_last_tag (dm_status j) \<Longrightarrow> dmt_state (dm_status j) = JobRunning \<Longrightarrow>
     dmt_not_found (dm_status j) + 1 > 5 \<Longrightarrow>
     migration_phase j ((dm_status j)\<lparr>dmt_not_found := dmt_not_found (dm_status j) + 1, dmt_state := JobFailed\<rparr>)"
| watch: "dms_image_tag (dm_spec j) = dmt_last_tag (dm_status j) \<Longrightarrow> dmt_state (dm_status j) = JobRunning \<Longrightarrow>
     migration_phase j ((dm_status j)\<lparr>dmt_not_found := 0\<rparr>)"
| finish: "dms_image_tag (dm_spec j) = dmt_last_tag (dm_status j) \<Longrightarrow> dmt_state (dm_status j) = JobRunning \<Longrightarrow>
     JobState_IsFinal f \<Longrightarrow>
     migration_phase j ((dm_status j)\<lparr>dmt_not_found := 0, dmt_state := f\<rparr>)"

inductive_cases migration_phaseE: "migration_phase j t"

lemma migration_not_found_zero:
  "(if dmt_not_found st > 0 then st\<lparr>dmt_not_found := 0\<rparr> else st) = st\<lparr>dmt_not_found := 0\<rparr>"
  by (cases st) (simp add: word_gt_0)

lemma migration_running_phase:
  assumes "DbMigration_processRunningJob batch now job w = Inr (True, job')"
    and tag: "dms_image_tag (dm_spec job) = dmt_last_tag (dm_status job)"
    and st: "dmt_state (dm_status job) = JobRunning"
  shows "migration_phase job (dm_status job') \<and> job'\<lparr>dm_status := dm_status job\<rparr> = job"
proof -
  obtain items where items: "getOwnedMigrationJobs batch job w = Inr items"
    using assms(1) by (auto simp: DbMigration_processRunningJob_def split: sum.splits)
  show ?thesis
  proof (cases "length items = 1")
    case False
    then show ?thesis
      using assms(1) miss[OF tag st] give_up[OF tag st]
      by (auto simp: DbMigration_processRunningJob_def items Let_def DbInitMaxJobFailedLoadLimit_def
          not_less split: if_splits)
  next
    case True
    show ?thesis
    proof (cases "finished_state (bj_conditions (hd items))")
      case (Some s)
      then have "JobState_IsFinal s" using finished_state_Some by fastforce
      with True Some show ?thesis
        using assms(1) migration_phase.finish[OF tag st, of s]
        by (auto simp: DbMigration_processRunningJob_def items Let_def migration_not_found_zero split: if_splits)
    next
      case None
      then show ?thesis
        using True assms(1) migration_phase.finish[OF tag st, of JobFailed] migration_phase.watch[OF tag st]
        unfolding DbMigration_processRunningJob_def items Let_def migration_not_found_zero
        by (auto split: if_splits option.splits)
    qed
  qed
qed

lemma migration_create_phase:
  assumes "DbMigration_createJobIfNeeded x config cl job w = (Inr (True, job'), w')"
    and tag: "dms_image_tag (dm_spec job) = dmt_last_tag (dm_status job)"
    and st: "dmt_state (dm_status job) = JobPending"
  shows "migration_phase job (dm_status job') \<and> job'\<lparr>dm_status := dm_status job\<rparr> = job"
proof -
  have "job' = set_migration_state JobRunning job"
    using assms(1) by (auto simp: DbMigration_createJobIfNeeded_def split: sum.splits if_splits prod.splits)
  then show ?thesis
    using start[OF tag st] by (auto simp: set_migration_state_def)
qed

lemma migration_handle_phase:
  assumes "DbMigration_handle x config cl now job w = ((True, job', result, err), w')"
  shows "migration_phase job (dm_status job') \<and> job'\<lparr>dm_status := dm_status job\<rparr> = job"
proof (cases "dms_image_tag (dm_spec job) = dmt_last_tag (dm_status job)")
  case False
  then show ?thesis
    using assms restart[OF False, of "deadline_after now (dms_deadline_seconds (dm_spec job))"]
    by (auto simp: DbMigration_handle_def split: prod.splits sum.splits)
next
  case True
  show ?thesis
  proof (cases "dmt_state (dm_status job)")
    case JobPending
    then have "DbMigration_createJobIfNeeded x config cl job w = (Inr (True, job'), w')"
      using assms True by (simp add: DbMigration_handle_def on_handled_True)
    then show ?thesis by (rule migration_create_phase[OF _ True JobPending])
  next
    case JobRunning
    then have "DbMigration_processRunningJob (jc_batch cl) now job w = Inr (True, job')"
      using assms True by (auto simp: DbMigration_handle_def on_handled_True)
    then show ?thesis by (rule migration_running_phase[OF _ True JobRunning])
  qed (use assms True in \<open>auto simp: DbMigration_handle_def\<close>)
qed

end
