(* ===== verification/DbMigrationProperties.thy ===== *)
theory DbMigrationProperties
  imports DbMigrationController
begin

text \<open>
  The migration controller follows its abstract life cycle, reruns exactly on a change of the
  tag, and never dereferences a missing deadline; two of its corners are not what they should be:
  the counter of failed look-ups survives a restart, and an empty tag never starts.
\<close>

text \<open>
  C18. Every reconcile of a migration job, whatever its state. When the tag in the spec differs from
  the tag last migrated, the old batch jobs are deleted and, unless that fails, the job restarts,
  also out of Complete and Failed: it is Pending, records the new tag, has a new deadline and is
  requeued at once. When the tag is the recorded one and the job is Complete or Failed, nothing is
  written. And whatever is written is a step of the abstract life cycle, changes nothing but the
  status and leaves the tag of the spec recorded.
\<close>

theorem migration_refines_life_cycle:
  assumes "DbMigration_handle x config cl now job w = ((changed, job', result, err), w')"
  shows "(dms_image_tag (dm_spec job) \<noteq> dmt_last_tag (dm_status job) \<longrightarrow>
           (case deleteAssociatedJobs (jc_batch cl) job w of
              (Inl e, v) \<Rightarrow> \<not> changed \<and> job' = job \<and> err = Some e \<and> w' = v
            | (Inr _, v) \<Rightarrow> changed \<and> err = None \<and> result = requeue_now \<and> w' = v \<and>
                dmt_state (dm_status job') = JobPending \<and>
                dmt_deadline (dm_status job') = Some (deadline_after now (dms_deadline_seconds (dm_spec job))))) \<and>
         (dms_image_tag (dm_spec job) = dmt_last_tag (dm_status job) \<longrightarrow>
          JobState_IsFinal (dmt_state (dm_status job)) \<longrightarrow>
            \<not> changed \<and> job' = job \<and> result = no_requeue \<and> err = None \<and> w' = w) \<and>
         (changed \<longrightarrow> migration_phase job (dm_status job') \<and> job'\<lparr>dm_status := dm_status job\<rparr> = job \<and>
            dmt_last_tag (dm_status job') = dms_image_tag (dm_spec job'))"
proof (intro conjI impI)
  assume tag: "dms_image_tag (dm_spec job) \<noteq> dmt_last_tag (dm_status job)"
  show "case deleteAssociatedJobs (jc_batch cl) job w of
      (Inl e, v) \<Rightarrow> \<not> changed \<and> job' = job \<and> err = Some e \<and> w' = v
    | (Inr _, v) \<Rightarrow> changed \<and> err = None \<and> result = requeue_now \<and> w' = v \<and>
        dmt_state (dm_status job') = JobPending \<and>
        dmt_deadline (dm_status job') = Some (deadline_after now (dms_deadline_seconds (dm_spec job)))"
    using assms tag by (auto simp: DbMigration_handle_def split: prod.splits sum.splits)
next
  assume changed
  with assms have "DbMigration_handle x config cl now job w = ((True, job', result, err), w')" by simp
  note phase = migration_handle_phase[OF this]
  from phase show "migration_phase job (dm_status job')" "job'\<lparr>dm_status := dm_status job\<rparr> = job"
    by simp_all
  from conjunct2[OF phase] have "dm_spec job' = dm_spec job" by (cases job; cases job'; simp)
  with phase show "dmt_last_tag (dm_status job') = dms_image_tag (dm_spec job')"
    by (auto elim!: migration_phaseE)
qed (use assms in \<open>auto simp: DbMigration_handle_def JobState_IsFinal_def split: if_splits\<close>)

definition toy_fresh_migration :: "string \<Rightarrow> db_migration_job" where
  "toy_fresh_migration tag =
     \<lparr>dm_meta = new_meta ''my-site-sh'' ''ns'' [(labels_Site, ''my-site''), (labels_Service, ''shop'')],
      dm_spec = \<lparr>dms_site = ''my-site'', dms_service = ''shop'', dms_image_tag = tag,
        dms_deadline_seconds = 600\<rparr>,
      dm_status = \<lparr>dmt_state = JobUnset, dmt_not_found = 0, dmt_last_tag = [], dmt_deadline = None\<rparr>\<rparr>"

definition toy_pending_migration :: "string \<Rightarrow> db_migration_job" where
  "toy_pending_migration tag = (toy_fresh_migration tag)\<lparr>dm_status :=
     \<lparr>dmt_state = JobPending, dmt_not_found = 0, dmt_last_tag = tag, dmt_deadline = Some (deadline_after 0 600)\<rparr>\<rparr>"

lemma toy_delete_all: "jc_batch toy_clients = mem_client bj_meta"
  by (simp add: toy_clients_def)

lemma toy_migration_started:
  assumes "tag \<noteq> []"
  shows "DbMigration_handle toy_externals defaultCtrlConfig toy_clients 0 (toy_fresh_migration tag) [] =
    ((True, toy_pending_migration tag, requeue_now, None), [])"
  using assms
  by (simp add: DbMigration_handle_def deleteAssociatedJobs_def toy_delete_all mem_client_def
      toy_fresh_migration_def toy_pending_migration_def)

theorem migration_refines_life_cycle_witness:
  "migration_phase (toy_fresh_migration ''v1'') (dm_status (toy_pending_migration ''v1''))"
  using migration_refines_life_cycle[OF toy_migration_started[of "''v1''"]] by simp


section \<open>Invariant\<close>

definition migration_ok :: "db_migration_job_status \<Rightarrow> bool" where
  "migration_ok s \<longleftrightarrow> (dmt_state s = JobUnset \<or> dmt_deadline s \<noteq> None) \<and>
     (\<nexists>t. dmt_state s = JobUnknown t)"

lemma migration_phase_ok: "migration_phase j s \<Longrightarrow> migration_ok (dm_status j) \<Longrightarrow> migration_ok s"
  by (erule migration_phaseE) (auto simp: migration_ok_def JobState_IsFinal_def split: if_splits)

lemma migration_reachable_ok:
  "(migration_step x config cl)\<^sup>*\<^sup>* job job' \<Longrightarrow> migration_ok (dm_status job) \<Longrightarrow> migration_ok (dm_status job')"
proof (induction rule: rtranclp_induct)
  case (step y z)
  from step.hyps(2) step.IH step.prems show ?case
    by cases (auto dest: migration_handle_phase migration_phase_ok)
qed

lemma migration_no_panic:
  assumes "migration_ok (dm_status job)"
    and "DbMigration_processRunningJob batch now job w = Inl err" "dmt_state (dm_status job) = JobRunning"
  shows "getOwnedMigrationJobs batch job w = Inl err"
  using assms
  by (auto simp: DbMigration_processRunningJob_def migration_ok_def Let_def
      split: sum.splits option.splits if_splits)

text \<open>
  No reachable migration job, however its spec is changed between the reconciles, has a
  running state without a deadline or an unknown state: the controller's dereference of the
  deadline is safe, and an error while a job runs can only come from listing the batch jobs.
\<close>

theorem migration_deadline_never_missing:
  assumes "dm_status job = \<lparr>dmt_state = JobUnset, dmt_not_found = 0, dmt_last_tag = [], dmt_deadline = None\<rparr>"
    and "(migration_step x config cl)\<^sup>*\<^sup>* job job'" "dmt_state (dm_status job') = JobRunning"
    and "DbMigration_processRunningJob (jc_batch cl) now job' w = Inl err"
  shows "dmt_deadline (dm_status job') \<noteq> None \<and> getOwnedMigrationJobs (jc_batch cl) job' w = Inl err"
proof -
  have ok: "migration_ok (dm_status job')"
    by (rule migration_reachable_ok[OF assms(2)]) (simp add: assms(1) migration_ok_def)
  then show ?thesis using migration_no_panic[OF ok assms(4,3)] assms(3) by (simp add: migration_ok_def)
qed

definition failing_clients :: "batch_job list job_clients" where
  "failing_clients = toy_clients\<lparr>jc_batch := (mem_client bj_meta)
     \<lparr>cl_list := (\<lambda>ns sel w. if w = [] then Inl (ApiError ''down'') else Inr [toy_batch [] []])\<rparr>\<rparr>"

lemma failing_run:
  "(migration_step toy_externals defaultCtrlConfig failing_clients)\<^sup>*\<^sup>* (toy_fresh_migration ''v1'')
     (set_migration_state JobRunning (toy_pending_migration ''v1''))"
proof -
  have "DbMigration_handle toy_externals defaultCtrlConfig failing_clients 0 (toy_fresh_migration ''v1'') [] =
    ((True, toy_pending_migration ''v1'', requeue_now, None), [])"
    by (simp add: DbMigration_handle_def deleteAssociatedJobs_def failing_clients_def mem_client_def
        toy_fresh_migration_def toy_pending_migration_def)
  moreover have "DbMigration_handle toy_externals defaultCtrlConfig failing_clients 0
      (toy_pending_migration ''v1'') [toy_batch [] []] =
    ((True, set_migration_state JobRunning (toy_pending_migration ''v1''), no_requeue, None), [toy_batch [] []])"
    by (simp add: DbMigration_handle_def toy_fresh_migration_def toy_pending_migration_def on_handled_def
        DbMigration_createJobIfNeeded_def getOwnedMigrationJobs_def failing_clients_def)
  ultimately show ?thesis
    by (meson converse_rtranclp_into_rtranclp migration_step.reconcile r_into_rtranclp)
qed

theorem migration_deadline_never_missing_witness:
  "dmt_deadline (dm_status (set_migration_state JobRunning (toy_pending_migration ''v1''))) \<noteq> None"
proof -
  have "DbMigration_processRunningJob (jc_batch failing_clients) 0
      (set_migration_state JobRunning (toy_pending_migration ''v1'')) [] = Inl (ApiError ''down'')"
    by (simp add: DbMigration_processRunningJob_def getOwnedMigrationJobs_def failing_clients_def)
  from migration_deadline_never_missing[OF _ failing_run _ this] show ?thesis
    by (simp add: toy_fresh_migration_def set_migration_state_def toy_pending_migration_def)
qed


section \<open>Two corners\<close>

definition migration_next ::
  "externals \<Rightarrow> project_config \<Rightarrow> 'w job_clients \<Rightarrow> time \<Rightarrow> 'w \<Rightarrow> db_migration_job \<Rightarrow> db_migration_job" where
  "migration_next x config cl now w job = fst (snd (fst (DbMigration_handle x config cl now job w)))"

text \<open>
  The counter of failed look-ups is not reset by a restart: a job that was given up on after
  six misses and then gets a new tag is Pending with the counter at six, and when it runs again
  the first miss fails it instead of the sixth.
\<close>

theorem restart_keeps_miss_count:
  "let job = (toy_pending_migration ''v1'')\<lparr>dm_status := (dm_status (toy_pending_migration ''v1''))
               \<lparr>dmt_state := JobFailed, dmt_not_found := 6\<rparr>,
             dm_spec := (dm_spec (toy_pending_migration ''v1''))\<lparr>dms_image_tag := ''v2''\<rparr>\<rparr>;
       next_job = migration_next toy_externals defaultCtrlConfig toy_clients 0 [];
       restarted = next_job job
   in dmt_state (dm_status restarted) = JobPending \<and> dmt_not_found (dm_status restarted) = 6 \<and>
      dmt_state (dm_status (next_job (set_migration_state JobRunning restarted))) = JobFailed"
  by (simp add: Let_def migration_next_def DbMigration_handle_def deleteAssociatedJobs_def toy_delete_all
      mem_client_def toy_pending_migration_def toy_fresh_migration_def set_migration_state_def
      on_handled_def DbMigration_processRunningJob_def getOwnedMigrationJobs_def
      DbInitMaxJobFailedLoadLimit_def)

text \<open>
  A new job with an empty image tag never starts: the tag equals the initial value of the tag
  last migrated, so the state stays empty, and every reconcile ends in an error and writes nothing.
\<close>

theorem empty_tag_never_migrates:
  "DbMigration_handle x config cl now (toy_fresh_migration []) w =
     ((False, toy_fresh_migration [], no_requeue, Some (PlainError ''unknown state: '')), w)"
  by (simp add: DbMigration_handle_def toy_fresh_migration_def)

end
