(* ===== verification/BackupController.thy ===== *)
theory BackupController
  imports Controllers
begin

text \<open>
  \<^verbatim>\<open>controllers/job/backup_controller.go\<close>: a \<^verbatim>\<open>Backup\<close> runs one batch job for every service of
  the site that has a backup pod spec and collects their outcomes. \<open>clk\<close> gives the reading of the
  clock at each place that asks for it: for the batch job of a service, and at the two places of
  the branch without services. Both status pointers of the source are the one record \<open>backup\<close>.
\<close>

abbreviation bk_state :: "backup \<Rightarrow> job_state" where
  "bk_state b \<equiv> bd_state (bk_detail b)"

definition set_backup_state :: "job_state \<Rightarrow> backup \<Rightarrow> backup" where
  "set_backup_state s b = b\<lparr>bk_detail := (bk_detail b)\<lparr>bd_state := s\<rparr>\<rparr>"

definition backup_service :: "backup \<Rightarrow> string \<Rightarrow> backup_detail" where
  "backup_service b name = lookup_or zero_detail (bk_services b) name"

definition set_backup_service :: "string \<Rightarrow> backup_detail \<Rightarrow> backup \<Rightarrow> backup" where
  "set_backup_service name d b = b\<lparr>bk_services := AList.update name d (bk_services b)\<rparr>"

definition ensureStatusIsInitialised :: "backup \<Rightarrow> bool \<times> backup" where
  "ensureStatusIsInitialised b =
     (if bk_state b = JobUnset then (True, set_backup_state JobPending b) else (False, b))"

definition updateJobStartedAtIfNeeded :: "backup \<Rightarrow> time \<Rightarrow> bool \<times> backup" where
  "updateJobStartedAtIfNeeded b currentStartedAt =
     (if bd_started (bk_detail b) = None \<or> the (bd_started (bk_detail b)) > currentStartedAt
      then (True, b\<lparr>bk_detail := (bk_detail b)\<lparr>bd_started := Some currentStartedAt\<rparr>\<rparr>)
      else (False, b))"

definition getBatchJobName :: "digest \<Rightarrow> string \<Rightarrow> string \<Rightarrow> string" where
  "getBatchJobName md5 serviceName jobName =
     ShortenHumanReadableValue md5 (''backup-'' @ serviceName @ ''-'' @ jobName) 50"

text \<open>
  The loop over the services in the site's status. The job is changed as the loop goes, also when
  it ends in an error.
\<close>

fun load_services ::
  "('w, service_config) client \<Rightarrow> 'w \<Rightarrow> string \<Rightarrow> string list \<Rightarrow> backup \<Rightarrow> bool \<Rightarrow> service_config gomap \<Rightarrow>
   (go_error + service_config gomap) \<times> bool \<times> backup" where
  "load_services cfgs w ns [] job isChanged services = (Inr services, isChanged, job)"
| "load_services cfgs w ns (name # names) job isChanged services =
     (case cl_get cfgs ns name w of
        Inl err \<Rightarrow> (Inl err, isChanged, job)
      | Inr service \<Rightarrow>
          if sc_backup_pod_spec service = None
          then load_services cfgs w ns names job isChanged services
          else if bd_state (backup_service job name) = JobUnset
          then load_services cfgs w ns names
                 (set_backup_service name ((backup_service job name)\<lparr>bd_state := JobPending\<rparr>) job)
                 True (AList.update name service services)
          else load_services cfgs w ns names job isChanged (AList.update name service services))"

definition loadServicesForSite ::
  "order \<Rightarrow> ('w, service_config) client \<Rightarrow> backup \<Rightarrow> staging_site \<Rightarrow> 'w \<Rightarrow>
   (go_error + service_config gomap) \<times> bool \<times> backup" where
  "loadServicesForSite ord cfgs job site w =
     load_services cfgs w (om_namespace (bk_meta job))
       (map fst (go_range ord 0 (su_services (st_status site)))) job False []"

definition getNewBackupJob ::
  "externals \<Rightarrow> project_config \<Rightarrow> 'w job_clients \<Rightarrow> backup \<Rightarrow> staging_site \<Rightarrow> service_config \<Rightarrow> 'w \<Rightarrow>
   go_error + batch_job" where
  "getNewBackupJob x config cl job site serviceConfig w =
     (let jobLabels = [(labels_Type, ''backup''), (labels_JobName, om_name (bk_meta job)),
                       (labels_Site, bk_site job), (labels_Service, sc_name serviceConfig)]
      in case LoadConfigs (jc_configs cl) w (NewSite site serviceConfig) of
           Inl err \<Rightarrow> Inl err
         | Inr templateHandler \<Rightarrow>
             (case sc_backup_pod_spec serviceConfig of
                None \<Rightarrow> Inl (Panic ''nil backup pod spec'')
              | Some backupSpec \<Rightarrow>
                  (case ReplaceTemplateVariablesInPodSpec (ex_pod_codec x) (ex_order x) 20 backupSpec
                          [GetTemplateValues (ex_md5 x) (ex_order x) templateHandler] of
                     Inl err \<Rightarrow> Inl err
                   | Inr podSpec \<Rightarrow>
                       (case ex_set_ref x (bk_meta job)
                               (new_meta (getBatchJobName (ex_md5 x) (sc_name serviceConfig) (om_name (bk_meta job)))
                                  (om_namespace (bk_meta job)) jobLabels) of
                          Inl err \<Rightarrow> Inl err
                        | Inr meta \<Rightarrow>
                            Inr \<lparr>bj_meta = meta,
                                 bj_deadline = scast (jc_deadline (pc_backup_job config)),
                                 bj_backoff = jc_backoff (pc_backup_job config),
                                 bj_ttl = jc_ttl (pc_backup_job config), bj_pod_labels = jobLabels,
                                 bj_pod = SetExtraEnvVarsOnPodSpec (ex_sort x) (ex_order x) 40
                                            (set_restart_policy podSpec) site serviceConfig,
                                 bj_conditions = [], bj_start = None, bj_completion = None\<rparr>))))"

record backup_loop =
  bl_job :: backup
  bl_changed :: bool
  bl_finished :: bool
  bl_last :: "time option"

text \<open>The loop over the conditions of a batch job, with the time of the deciding condition.\<close>

fun first_finished :: "job_condition list \<Rightarrow> (job_state \<times> time) option" where
  "first_finished [] = None"
| "first_finished (v # vs) =
     (if condition_true ''Complete'' v then Some (JobComplete, cn_transition v)
      else if condition_true ''Failed'' v then Some (JobFailed, cn_transition v)
      else first_finished vs)"

definition later_of :: "time option \<Rightarrow> time \<Rightarrow> time option" where
  "later_of l t = (if l = None \<or> the l < t then Some t else l)"

text \<open>A service whose part of the backup is in a final state already.\<close>

definition backup_final_service :: "backup_detail \<Rightarrow> backup_loop \<Rightarrow> go_error option \<times> backup_loop" where
  "backup_final_service serviceStatus s =
     (if bd_state serviceStatus = JobFailed
      then (None, s\<lparr>bl_job := set_backup_state JobFailed (bl_job s), bl_changed := True\<rparr>)
      else if bl_last s = None
      then (case bd_finished serviceStatus of
              None \<Rightarrow> (Some (Panic ''nil finish time''), s)
            | Some t \<Rightarrow> (None, s\<lparr>bl_last := Some t, bl_changed := True\<rparr>))
      else (case bd_finished serviceStatus of
              None \<Rightarrow> (Some (Panic ''nil finish time''), s)
            | Some t \<Rightarrow> if the (bl_last s) < t
                        then (None, s\<lparr>bl_last := Some t, bl_changed := True\<rparr>) else (None, s)))"

text \<open>A service whose batch job exists.\<close>

definition backup_found_job :: "string \<Rightarrow> backup_detail \<Rightarrow> batch_job \<Rightarrow> backup_loop \<Rightarrow> backup_loop" where
  "backup_found_job name serviceStatus batchJob s =
     (let created = om_creation (bj_meta batchJob);
          serviceStatus = serviceStatus\<lparr>bd_started := Some created\<rparr>;
          s = (if bl_changed s then s
               else case updateJobStartedAtIfNeeded (bl_job s) created of
                      (changed, job) \<Rightarrow> s\<lparr>bl_changed := changed, bl_job := job\<rparr>)
      in case first_finished (bj_conditions batchJob) of
           Some (JobComplete, t) \<Rightarrow>
             s\<lparr>bl_last := later_of (bl_last s) t, bl_changed := True,
               bl_job := set_backup_service name
                 (serviceStatus\<lparr>bd_state := JobComplete, bd_finished := Some t\<rparr>) (bl_job s)\<rparr>
         | Some (_, t) \<Rightarrow>
             s\<lparr>bl_changed := True, bl_finished := False,
               bl_job := set_backup_service name (serviceStatus\<lparr>bd_state := JobFailed\<rparr>)
                           (set_backup_state JobFailed (bl_job s))\<rparr>
         | None \<Rightarrow> s\<lparr>bl_finished := False, bl_job := set_backup_service name serviceStatus (bl_job s)\<rparr>)"

text \<open>A service that has no batch job yet.\<close>

definition backup_new_job ::
  "externals \<Rightarrow> project_config \<Rightarrow> 'w job_clients \<Rightarrow> time \<Rightarrow> staging_site \<Rightarrow> string \<Rightarrow> service_config \<Rightarrow>
   backup_detail \<Rightarrow> backup_loop \<Rightarrow> 'w \<Rightarrow> (go_error option \<times> backup_loop) \<times> 'w" where
  "backup_new_job x config cl now site name service serviceStatus s w =
     (case getNewBackupJob x config cl (bl_job s) site service w of
        Inl err \<Rightarrow> ((Some err, s), w)
      | Inr batchJob \<Rightarrow>
          let s = s\<lparr>bl_changed := True, bl_finished := False,
                    bl_job := set_backup_state JobRunning (snd (updateJobStartedAtIfNeeded (bl_job s) now))\<rparr>;
              serviceStatus = serviceStatus\<lparr>bd_started := Some now, bd_finished := None, bd_state := JobRunning\<rparr>
          in case cl_create (jc_batch cl) batchJob w of
               (Inl err, w') \<Rightarrow> ((Some err, s), w')
             | (Inr _, w') \<Rightarrow> ((None, s\<lparr>bl_job := set_backup_service name serviceStatus (bl_job s)\<rparr>), w'))"

definition backup_one_service ::
  "externals \<Rightarrow> project_config \<Rightarrow> 'w job_clients \<Rightarrow> (string \<Rightarrow> time) \<Rightarrow> staging_site \<Rightarrow>
   string \<times> service_config \<Rightarrow> backup_loop \<Rightarrow> 'w \<Rightarrow> (go_error option \<times> backup_loop) \<times> 'w" where
  "backup_one_service x config cl clk site ns s w =
     (let name = fst ns; job = bl_job s; serviceStatus = backup_service job name
      in if JobState_IsFinal (bd_state serviceStatus)
         then (backup_final_service serviceStatus s, w)
         else case cl_get (jc_batch cl) (om_namespace (bk_meta job))
                     (getBatchJobName (ex_md5 x) name (om_name (bk_meta job))) w of
                Inl err \<Rightarrow>
                  if ignore_not_found err \<noteq> None then ((Some err, s), w)
                  else backup_new_job x config cl (clk name) site name (snd ns) serviceStatus s w
              | Inr batchJob \<Rightarrow> ((None, backup_found_job name serviceStatus batchJob s), w))"

fun process_services ::
  "externals \<Rightarrow> project_config \<Rightarrow> 'w job_clients \<Rightarrow> (string \<Rightarrow> time) \<Rightarrow> staging_site \<Rightarrow>
   service_config gomap \<Rightarrow> backup_loop \<Rightarrow> 'w \<Rightarrow> (go_error option \<times> backup_loop) \<times> 'w" where
  "process_services x config cl clk site [] s w = ((None, s), w)"
| "process_services x config cl clk site (ns # nss) s w =
     (case backup_one_service x config cl clk site ns s w of
        ((Some err, s'), w') \<Rightarrow> ((Some err, s'\<lparr>bl_finished := False\<rparr>), w')
      | ((None, s'), w') \<Rightarrow> process_services x config cl clk site nss s' w')"

definition processServiceInJob ::
  "externals \<Rightarrow> project_config \<Rightarrow> 'w job_clients \<Rightarrow> (string \<Rightarrow> time) \<Rightarrow> backup \<Rightarrow> service_config gomap \<Rightarrow>
   bool \<Rightarrow> staging_site \<Rightarrow> 'w \<Rightarrow> (go_error option \<times> backup_loop) \<times> 'w" where
  "processServiceInJob x config cl clk job services isChanged site w =
     process_services x config cl clk site (go_range (ex_order x) 1 services)
       \<lparr>bl_job = job, bl_changed = isChanged, bl_finished = True, bl_last = None\<rparr> w"

definition complete_empty_backup :: "(string \<Rightarrow> time) \<Rightarrow> backup \<Rightarrow> backup" where
  "complete_empty_backup clk job =
     (let job = snd (updateJobStartedAtIfNeeded (set_backup_state JobComplete job) (clk ''started''))
      in if bd_finished (bk_detail job) = None
         then job\<lparr>bk_detail := (bk_detail job)\<lparr>bd_finished := Some (clk ''finished'')\<rparr>\<rparr> else job)"

definition complete_backup :: "backup_loop \<Rightarrow> backup" where
  "complete_backup s =
     (let job = set_backup_state JobComplete (bl_job s)
      in case bl_last s of
           Some t \<Rightarrow> job\<lparr>bk_detail := (bk_detail job)\<lparr>bd_finished := Some t\<rparr>\<rparr> | None \<Rightarrow> job)"

definition ensureJobsAreUpToDate ::
  "externals \<Rightarrow> project_config \<Rightarrow> 'w job_clients \<Rightarrow> (string \<Rightarrow> time) \<Rightarrow> backup \<Rightarrow> 'w \<Rightarrow>
   (bool \<times> backup \<times> go_error option) \<times> 'w" where
  "ensureJobsAreUpToDate x config cl clk job w =
     (case cl_get (jc_sites cl) (om_namespace (bk_meta job)) (bk_site job) w of
        Inl err \<Rightarrow> ((False, job, Some err), w)
      | Inr site \<Rightarrow>
          (case loadServicesForSite (ex_order x) (cc_service (jc_configs cl)) job site w of
             (Inl err, isChanged, job) \<Rightarrow> ((isChanged, job, Some err), w)
           | (Inr services, isChanged, job) \<Rightarrow>
               if services = [] then ((True, complete_empty_backup clk job, None), w)
               else (case processServiceInJob x config cl clk job services isChanged site w of
                       ((Some err, s), w') \<Rightarrow> ((bl_changed s, bl_job s, Some err), w')
                     | ((None, s), w') \<Rightarrow>
                         if bk_state (bl_job s) \<noteq> JobFailed \<and> bl_finished s
                         then ((True, complete_backup s, None), w')
                         else ((bl_changed s, bl_job s, None), w'))))"

definition Backup_doReconcile ::
  "externals \<Rightarrow> project_config \<Rightarrow> 'w job_clients \<Rightarrow> ('w, backup) client \<Rightarrow> (string \<Rightarrow> time) \<Rightarrow> string \<Rightarrow>
   string \<Rightarrow> 'w \<Rightarrow> reconcile_result \<times> 'w" where
  "Backup_doReconcile x config cl bks clk ns name w =
     (case cl_get bks ns name w of
        Inl err \<Rightarrow> ((no_requeue, ignore_not_found err), w)
      | Inr job \<Rightarrow>
          (case ensureStatusIsInitialised job of
             (True, job) \<Rightarrow> SaveStatusUpdatesIfObjectChanged True bks job requeue_now None w
           | (False, job) \<Rightarrow>
               (case ensureJobsAreUpToDate x config cl clk job w of
                  ((isChanged, job, err), w') \<Rightarrow>
                    SaveStatusUpdatesIfObjectChanged isChanged bks job no_requeue err w')))"


section \<open>A backup is complete only if all its parts are\<close>

lemma backup_service_simps [simp]:
  "backup_service (set_backup_service n d b) m = (if m = n then d else backup_service b m)"
  "backup_service (set_backup_state st b) m = backup_service b m"
  "bk_state (set_backup_service n d b) = bk_state b" "bk_state (set_backup_state st b) = st"
  by (simp_all add: backup_service_def set_backup_service_def set_backup_state_def lookup_or_def gomap_simps)

lemma updateJobStarted_simps [simp]:
  "backup_service (snd (updateJobStartedAtIfNeeded b t)) m = backup_service b m"
  "bk_state (snd (updateJobStartedAtIfNeeded b t)) = bk_state b"
  by (simp_all add: updateJobStartedAtIfNeeded_def backup_service_def)

text \<open>
  The invariant of the loop: as long as every service so far has finished and none has failed the
  backup, the services so far are complete.
\<close>

definition all_complete :: "string set \<Rightarrow> backup_loop \<Rightarrow> bool" where
  "all_complete N s \<longleftrightarrow> (bl_finished s \<and> bk_state (bl_job s) \<noteq> JobFailed \<longrightarrow>
     (\<forall>n \<in> N. bd_state (backup_service (bl_job s) n) = JobComplete))"

lemma backup_final_keeps:
  assumes "backup_final_service d s = (None, s')" "all_complete N s"
    and "d = backup_service (bl_job s) name" "JobState_IsFinal (bd_state d)"
  shows "all_complete (insert name N) s'"
  using assms
  by (auto simp: backup_final_service_def all_complete_def JobState_IsFinal_def
      split: if_splits option.splits)

lemma first_finished_states: "first_finished cs = Some (st, t) \<Longrightarrow> st = JobComplete \<or> st = JobFailed"
  by (induction cs) (auto split: if_splits)

lemma backup_found_keeps:
  assumes "all_complete N s" "name \<notin> N"
  shows "all_complete (insert name N) (backup_found_job name d bj s)"
proof -
  let ?c = "om_creation (bj_meta bj)"
  let ?s = "if bl_changed s then s else case updateJobStartedAtIfNeeded (bl_job s) ?c of
      (changed, job) \<Rightarrow> s\<lparr>bl_changed := changed, bl_job := job\<rparr>"
  have s: "bl_finished ?s = bl_finished s" "bk_state (bl_job ?s) = bk_state (bl_job s)"
    "backup_service (bl_job ?s) n = backup_service (bl_job s) n" for n
    by (simp_all add: case_prod_unfold)
  show ?thesis
  proof (cases "first_finished (bj_conditions bj)")
    case None
    then show ?thesis by (simp add: backup_found_job_def Let_def all_complete_def)
  next
    case (Some r)
    obtain st t where r: "r = (st, t)" by force
    then have "st = JobComplete \<or> st = JobFailed" using Some first_finished_states by blast
    then show ?thesis
    proof
      assume c: "st = JobComplete"
      have "backup_found_job name d bj s = ?s\<lparr>bl_last := later_of (bl_last ?s) t, bl_changed := True,
          bl_job := set_backup_service name
            (d\<lparr>bd_started := Some ?c, bd_state := JobComplete, bd_finished := Some t\<rparr>) (bl_job ?s)\<rparr>"
        unfolding backup_found_job_def Let_def Some r c by simp
      then show ?thesis using assms s by (simp only: all_complete_def) auto
    next
      assume "st = JobFailed"
      then show ?thesis by (simp add: backup_found_job_def Let_def Some r all_complete_def)
    qed
  qed
qed

lemma backup_one_keeps:
  assumes "backup_one_service x config cl clk site nc s w = ((None, s'), w')" "all_complete N s"
    and "fst nc \<notin> N"
  shows "all_complete (insert (fst nc) N) s'"
proof (cases "JobState_IsFinal (bd_state (backup_service (bl_job s) (fst nc)))")
  case True
  then show ?thesis
    using assms backup_final_keeps by (auto simp: backup_one_service_def Let_def)
next
  case False
  let ?get = "cl_get (jc_batch cl) (om_namespace (bk_meta (bl_job s)))
     (getBatchJobName (ex_md5 x) (fst nc) (om_name (bk_meta (bl_job s)))) w"
  show ?thesis
  proof (cases ?get)
    case (Inl err)
    then have "backup_new_job x config cl (clk (fst nc)) site (fst nc) (snd nc)
        (backup_service (bl_job s) (fst nc)) s w = ((None, s'), w')"
      using assms(1) False by (auto simp: backup_one_service_def Let_def split: if_splits)
    then have "\<not> bl_finished s'"
      by (auto simp: backup_new_job_def Let_def split: sum.splits prod.splits)
    then show ?thesis by (simp add: all_complete_def)
  next
    case (Inr bj)
    then show ?thesis
      using assms(1) False backup_found_keeps[OF assms(2,3)] by (auto simp: backup_one_service_def Let_def)
  qed
qed

lemma process_services_complete:
  assumes "process_services x config cl clk site ncs s w = ((None, s'), w')" "all_complete N s"
    and "wf_map ncs" "fst ` set ncs \<inter> N = {}"
  shows "all_complete (fst ` set ncs \<union> N) s'"
  using assms
proof (induction ncs arbitrary: s w N)
  case (Cons nc ncs)
  obtain s1 w1 where one: "backup_one_service x config cl clk site nc s w = ((None, s1), w1)"
      and rest: "process_services x config cl clk site ncs s1 w1 = ((None, s'), w')"
    using Cons.prems(1) by (auto split: prod.splits option.splits)
  have "all_complete (insert (fst nc) N) s1"
    by (rule backup_one_keeps[OF one Cons.prems(2)]) (use Cons.prems(4) in auto)
  then have "all_complete (fst ` set ncs \<union> insert (fst nc) N) s'"
    by (rule Cons.IH[OF rest]) (use Cons.prems(3,4) in auto)
  then show ?case by simp
qed simp

lemma backup_complete_means_all:
  assumes "range_order (ex_order x)" "wf_map services"
    and "processServiceInJob x config cl clk job services isChanged site w = ((None, s), w')"
    and "bk_state (bl_job s) \<noteq> JobFailed" "bl_finished s" "name \<in> dom (map_of services)"
  shows "bd_state (backup_service (complete_backup s) name) = JobComplete"
proof -
  have "all_complete (fst ` set (go_range (ex_order x) 1 services) \<union> {}) s"
    by (rule process_services_complete[OF assms(3)[unfolded processServiceInJob_def]])
      (use assms(1,2) in \<open>simp_all add: all_complete_def range_simps\<close>)
  then have "bd_state (backup_service (bl_job s) name) = JobComplete"
    using assms(1,2,4-6) by (auto simp: all_complete_def range_simps dom_keys)
  then show ?thesis
    by (simp add: complete_backup_def Let_def backup_service_def set_backup_state_def split: option.split)
qed

lemma updateJobStarted_state:
  "updateJobStartedAtIfNeeded b t = (c, b') \<Longrightarrow> bk_state b' = bk_state b"
  using updateJobStarted_simps(2)[of b t] by simp

lemma backup_one_state:
  assumes "backup_one_service x config cl clk site nc s w = ((r, s'), w')" "bk_state (bl_job s) \<noteq> JobComplete"
  shows "bk_state (bl_job s') \<noteq> JobComplete"
  using assms
  by (auto simp: backup_one_service_def Let_def backup_final_service_def backup_new_job_def
      backup_found_job_def split: if_splits sum.splits prod.splits option.splits job_state.splits
      dest: updateJobStarted_state)

lemma process_services_state:
  "process_services x config cl clk site ncs s w = ((r, s'), w') \<Longrightarrow> bk_state (bl_job s) \<noteq> JobComplete \<Longrightarrow>
   bk_state (bl_job s') \<noteq> JobComplete"
proof (induction ncs arbitrary: s w)
  case (Cons nc ncs)
  obtain r1 s1 w1 where one: "backup_one_service x config cl clk site nc s w = ((r1, s1), w1)"
    by (metis prod.exhaust)
  note n = backup_one_state[OF one Cons.prems(2)]
  show ?case
  proof (cases r1)
    case None
    then show ?thesis using Cons.IH[OF _ n] Cons.prems(1) one by simp
  next
    case (Some e)
    then show ?thesis using n Cons.prems(1) one by auto
  qed
qed simp

lemma load_services_facts:
  "load_services cfgs w ns names job c services = (Inr services', c', job') \<Longrightarrow> wf_map services \<Longrightarrow>
   wf_map services' \<and> bk_state job' = bk_state job"
  by (induction names arbitrary: job c services) (fastforce split: sum.splits if_splits)+

end
