(* ===== verification/BackupProperties.thy ===== *)
theory BackupProperties
  imports BackupController DbInitProperties
begin

text \<open>
  What a backup guarantees, and which services it covers.
\<close>

text \<open>
  C12. A backup is reported complete only if it is: when a reconcile that starts from an
  unfinished backup writes the state Complete, every service that has a backup pod spec is
  complete in the written status. A failed service therefore never hides behind a complete
  backup, whatever the order in which the services are visited.
\<close>

theorem backup_complete_is_truthful:
  assumes "range_order (ex_order x)"
    and "ensureJobsAreUpToDate x config cl clk job w = ((changed, job', None), w')"
    and "bk_state job \<noteq> JobComplete" "bk_state job' = JobComplete"
    and "cl_get (jc_sites cl) (om_namespace (bk_meta job)) (bk_site job) w = Inr site"
    and "loadServicesForSite (ex_order x) (cc_service (jc_configs cl)) job site w = (Inr services, c, job1)"
    and "map_of services name = Some cfg"
  shows "bd_state (backup_service job' name) = JobComplete"
proof -
  have facts: "wf_map services" "bk_state job1 = bk_state job"
    using load_services_facts[OF assms(6)[unfolded loadServicesForSite_def]] by simp_all
  have ne: "services \<noteq> []" using assms(7) by auto
  obtain r s w1 where p: "processServiceInJob x config cl clk job1 services c site w = ((r, s), w1)"
    by (metis prod.exhaust)
  have "bk_state (bl_job s) \<noteq> JobComplete"
    using process_services_state[OF p[unfolded processServiceInJob_def]] facts(2) assms(3) by simp
  then have done1: "r = None" "bk_state (bl_job s) \<noteq> JobFailed" "bl_finished s" "job' = complete_backup s"
    using assms(2,4) ne
    by (auto simp: ensureJobsAreUpToDate_def assms(5,6) p split: if_splits option.splits)
  show ?thesis
    unfolding done1(4)
    by (rule backup_complete_means_all[OF assms(1) facts(1) p[unfolded done1(1)] done1(2,3)])
      (use assms(7) in blast)
qed

definition toy_backup_site :: staging_site where
  "toy_backup_site = toy_db_site\<lparr>st_status := (st_status toy_db_site)\<lparr>su_services :=
     [(''shop'', zero_service_status)]\<rparr>\<rparr>"

definition toy_backup_config :: service_config where
  "toy_backup_config = (toy_service ''shop'' ''sh'')\<lparr>sc_backup_pod_spec :=
     Some \<lparr>ps_containers = [], ps_restart_policy = [], ps_rest = []\<rparr>\<rparr>"

definition toy_backup_clients :: "batch_job list job_clients" where
  "toy_backup_clients = toy_clients
     \<lparr>jc_configs := (jc_configs toy_clients)\<lparr>cc_service := static_client sc_meta [toy_backup_config]\<rparr>,
      jc_sites := static_client st_meta [toy_backup_site]\<rparr>"

definition toy_running_backup :: backup where
  "toy_running_backup = \<lparr>bk_meta = new_meta ''b1'' ''ns'' [], bk_site = ''my-site'',
     bk_type = BackupTypeManual, bk_detail = zero_detail\<lparr>bd_state := JobRunning\<rparr>,
     bk_services = [(''shop'', zero_detail\<lparr>bd_state := JobRunning\<rparr>)]\<rparr>"

definition toy_backup_batch :: batch_job where
  "toy_backup_batch = (toy_batch [] [\<lparr>cn_type = ''Complete'', cn_status = ''True'', cn_transition = 7\<rparr>])
     \<lparr>bj_meta := new_meta ''backup-shop-b1'' ''ns'' []\<rparr>"

lemma toy_backup_gets:
  "cl_get (jc_sites toy_backup_clients) ''ns'' ''my-site'' w = Inr toy_backup_site"
  "cl_get (cc_service (jc_configs toy_backup_clients)) ''ns'' ''shop'' w = Inr toy_backup_config"
  "cl_get (jc_batch toy_backup_clients) ''ns'' ''backup-shop-b1'' [toy_backup_batch] = Inr toy_backup_batch"
  "om_namespace (bk_meta toy_running_backup) = ''ns''" "bk_site toy_running_backup = ''my-site''"
  by (simp_all add: toy_backup_clients_def toy_clients_def static_client_def obj_key_def mem_client_def
      toy_backup_site_def toy_db_site_def toy_site_def toy_backup_config_def toy_service_def
      toy_backup_batch_def toy_running_backup_def)

lemma toy_backup_services:
  "loadServicesForSite (ex_order toy_externals) (cc_service (jc_configs toy_backup_clients)) toy_running_backup
     toy_backup_site w = (Inr [(''shop'', toy_backup_config)], False, toy_running_backup)"
  by (simp add: loadServicesForSite_def toy_externals_def toy_backup_gets toy_backup_site_def go_range_id)
    (simp add: toy_backup_config_def backup_service_def toy_running_backup_def lookup_or_def zero_detail_def)

lemma toy_backup_run:
  "\<exists>job'. ensureJobsAreUpToDate toy_externals defaultCtrlConfig toy_backup_clients (\<lambda>_. 0) toy_running_backup
     [toy_backup_batch] = ((True, job', None), [toy_backup_batch]) \<and> bk_state job' = JobComplete"
proof -
  have g: "go_range (ex_order toy_externals) l [(''shop'', toy_backup_config)] = [(''shop'', toy_backup_config)]" for l
    by (simp add: toy_externals_def go_range_id)
  have n: "getBatchJobName (ex_md5 toy_externals) ''shop'' (om_name (bk_meta toy_running_backup)) = ''backup-shop-b1''"
    by (simp add: getBatchJobName_def ShortenHumanReadableValue_def toy_running_backup_def)
  have st: "bk_state toy_running_backup = JobRunning"
    "\<not> JobState_IsFinal (bd_state (backup_service toy_running_backup ''shop''))"
    by (simp_all add: toy_running_backup_def backup_service_def lookup_or_def)
  have f: "first_finished (bj_conditions toy_backup_batch) = Some (JobComplete, 7)"
    by (simp add: toy_backup_batch_def condition_true_def)
  let ?start = "\<lparr>bl_job = toy_running_backup, bl_changed = False, bl_finished = True, bl_last = None\<rparr>"
  let ?final = "backup_found_job ''shop'' (backup_service toy_running_backup ''shop'') toy_backup_batch ?start"
  have one: "backup_one_service toy_externals defaultCtrlConfig toy_backup_clients (\<lambda>_. 0) toy_backup_site
      (''shop'', toy_backup_config) ?start [toy_backup_batch] = ((None, ?final), [toy_backup_batch])"
    using st(2) by (simp add: backup_one_service_def Let_def n toy_backup_gets)
  have "bl_finished ?final" "bk_state (bl_job ?final) \<noteq> JobFailed"
    using st(1) by (simp_all add: backup_found_job_def Let_def f case_prod_unfold)
  with one show ?thesis
    by (simp add: ensureJobsAreUpToDate_def toy_backup_gets toy_backup_services processServiceInJob_def g
        complete_backup_def Let_def set_backup_state_def split: option.split)
qed

theorem backup_complete_is_truthful_witness:
  "\<exists>job'. fst (fst (ensureJobsAreUpToDate toy_externals defaultCtrlConfig toy_backup_clients (\<lambda>_. 0)
     toy_running_backup [toy_backup_batch])) \<and> bk_state job' = JobComplete \<and>
     bd_state (backup_service job' ''shop'') = JobComplete"
proof -
  obtain job' where run: "ensureJobsAreUpToDate toy_externals defaultCtrlConfig toy_backup_clients (\<lambda>_. 0)
      toy_running_backup [toy_backup_batch] = ((True, job', None), [toy_backup_batch])" "bk_state job' = JobComplete"
    using toy_backup_run by blast
  have o: "range_order (ex_order toy_externals)" by (simp add: toy_externals_def)
  have st: "bk_state toy_running_backup \<noteq> JobComplete" by (simp add: toy_running_backup_def)
  have "bd_state (backup_service job' ''shop'') = JobComplete"
    by (rule backup_complete_is_truthful[OF o run(1) st run(2) _ toy_backup_services, where name = "''shop''"])
      (simp_all add: toy_backup_gets)
  with run show ?thesis by auto
qed

text \<open>
  The flag \<^verbatim>\<open>includeInBackups\<close> of a site's services has no effect: which services a backup
  covers depends on the site's status and the service configurations alone, so two sites that
  differ in their specs only are backed up alike.
\<close>

theorem include_in_backups_is_ignored:
  "loadServicesForSite ord cfgs job (site\<lparr>st_spec := spec\<rparr>) w = loadServicesForSite ord cfgs job site w"
  by (simp add: loadServicesForSite_def)


end
