(* ===== verification/KubernetesLists.thy ===== *)
theory KubernetesLists
  imports Kube
begin

text \<open>
  \<^verbatim>\<open>helpers/kubernetes/kubernetes.go\<close>: the configurations of a namespace, fetched page by page.
  The loop ends when the server reports no remaining items, so it may run for ever;
  \<open>fetch_pages\<close> is \<open>None\<close> then. The four functions differ in the type of the items only. \<open>list\<close>
  takes the continue token, with the empty string for none, and answers within one call.
\<close>

record 'o page =
  pg_items :: "'o list"
  pg_remaining :: "int option"
  pg_continue :: string

definition more_pages :: "'o page \<Rightarrow> bool" where
  "more_pages pg = (case pg_remaining pg of Some n \<Rightarrow> n > 0 | None \<Rightarrow> False)"

definition add_items :: "('o \<Rightarrow> string) \<Rightarrow> 'o list \<Rightarrow> 'o gomap \<Rightarrow> 'o gomap" where
  "add_items name items acc = fold (\<lambda>x m. AList.update (name x) x m) items acc"

partial_function (option) fetch_pages ::
  "(string \<Rightarrow> go_error + 'o page) \<Rightarrow> ('o \<Rightarrow> string) \<Rightarrow> string \<Rightarrow> 'o gomap \<Rightarrow> (go_error + 'o gomap) option"
where
  "fetch_pages list name token acc =
     (case list token of
        Inl err \<Rightarrow> Some (Inl err)
      | Inr pg \<Rightarrow>
          if more_pages pg
          then fetch_pages list name (pg_continue pg) (add_items name (pg_items pg) acc)
          else Some (Inr (add_items name (pg_items pg) acc)))"

declare fetch_pages.simps [code]

definition GetConfigsInNamespace ::
  "(string \<Rightarrow> go_error + 'o page) \<Rightarrow> ('o \<Rightarrow> string) \<Rightarrow> (go_error + 'o gomap) option" where
  "GetConfigsInNamespace list name = fetch_pages list name [] []"


section \<open>Collected items\<close>

lemma add_items_wf: "wf_map acc \<Longrightarrow> wf_map (add_items name xs acc)"
  unfolding add_items_def by (induction xs arbitrary: acc) simp_all

lemma add_items_Nil [simp]: "add_items name [] acc = acc"
  by (simp add: add_items_def)

lemma add_items_append: "add_items name (xs @ ys) acc = add_items name ys (add_items name xs acc)"
  by (simp add: add_items_def)

lemma add_items_lookup:
  "map_of (add_items name xs acc) k =
     (case find (\<lambda>x. name x = k) (rev xs) of Some x \<Rightarrow> Some x | None \<Rightarrow> map_of acc k)"
proof (induction xs rule: rev_induct)
  case (snoc x xs)
  then show ?case by (simp add: add_items_def gomap_simps)
qed (simp add: add_items_def)

lemma add_items_distinct:
  assumes "distinct (map name xs)"
  shows "map_of (add_items name xs []) k = Some x \<longleftrightarrow> x \<in> set xs \<and> name x = k"
proof -
  have d: "distinct (map name (rev xs))" using assms by (simp add: rev_map[symmetric])
  have "find (\<lambda>y. name y = k) ys = Some x \<longleftrightarrow> x \<in> set ys \<and> name x = k"
    if "distinct (map name ys)" for ys
    using that by (induction ys) auto
  from this[OF d] show ?thesis unfolding add_items_lookup by (auto split: option.splits)
qed


section \<open>Paging\<close>

text \<open>A server that answers with a given sequence of pages, from a given token on.\<close>

fun serves :: "(string \<Rightarrow> go_error + 'o page) \<Rightarrow> string \<Rightarrow> 'o page list \<Rightarrow> bool" where
  "serves list token [] = False"
| "serves list token (pg # pgs) \<longleftrightarrow> list token = Inr pg \<and>
     (if pgs = [] then \<not> more_pages pg else more_pages pg \<and> serves list (pg_continue pg) pgs)"

lemma fetch_pages_serves:
  "serves list token pgs \<Longrightarrow>
   fetch_pages list name token acc = Some (Inr (add_items name (concat (map pg_items pgs)) acc))"
proof (induction pgs arbitrary: token acc)
  case (Cons pg pgs)
  then show ?case
    by (subst fetch_pages.simps) (auto simp: add_items_append split: if_splits)
qed simp

text \<open>
  C38. The paging loop returns, and returns everything: against a server that answers with a
  finite sequence of pages, the result holds exactly the items of all pages, under their names.
\<close>

theorem paging_complete:
  assumes "serves list [] pgs" "distinct (map name (concat (map pg_items pgs)))"
  shows "\<exists>m. GetConfigsInNamespace list name = Some (Inr m) \<and> wf_map m \<and>
           (\<forall>k x. map_of m k = Some x \<longleftrightarrow> x \<in> set (concat (map pg_items pgs)) \<and> name x = k)"
  unfolding GetConfigsInNamespace_def fetch_pages_serves[OF assms(1)]
  using add_items_distinct[OF assms(2)] add_items_wf[of "[]"] by auto

definition toy_pages :: "string \<Rightarrow> go_error + string page" where
  "toy_pages token =
     (if token = [] then Inr \<lparr>pg_items = [''a'', ''b''], pg_remaining = Some 1, pg_continue = ''t''\<rparr>
      else Inr \<lparr>pg_items = [''c''], pg_remaining = None, pg_continue = []\<rparr>)"

theorem paging_complete_witness:
  "\<exists>m. GetConfigsInNamespace toy_pages (\<lambda>x. x) = Some (Inr m) \<and> map_of m ''c'' = Some ''c''"
  using paging_complete[of toy_pages
      "[\<lparr>pg_items = [''a'', ''b''], pg_remaining = Some 1, pg_continue = ''t''\<rparr>,
        \<lparr>pg_items = [''c''], pg_remaining = None, pg_continue = []\<rparr>]" "\<lambda>x. x"]
  by (auto simp: toy_pages_def more_pages_def)

text \<open>What the loop returns is keyed by name, however the server answers.\<close>

definition keyed :: "('o \<Rightarrow> string) \<Rightarrow> 'o gomap \<Rightarrow> bool" where
  "keyed name m \<longleftrightarrow> wf_map m \<and> list_all (\<lambda>kx. name (snd kx) = fst kx) m"

lemma keyed_add_items: "keyed name acc \<Longrightarrow> keyed name (add_items name xs acc)"
proof (induction xs arbitrary: acc)
  case (Cons x xs)
  have "set (AList.update (name x) x acc) \<subseteq> insert (name x, x) (set acc)"
    by (induction acc) auto
  then have "keyed name (AList.update (name x) x acc)"
    using Cons.prems by (auto simp: keyed_def list_all_iff)
  then show ?case using Cons.IH by (simp add: add_items_def)
qed simp

lemma fetch_pages_keyed:
  assumes "fetch_pages list name token acc = Some r" "keyed name acc" "r = Inr m"
  shows "keyed name m"
proof -
  have "keyed n a \<longrightarrow> (\<forall>m. r = Inr m \<longrightarrow> keyed n m)" if "fetch_pages l n t a = Some r" for l n t a and r
    using that
  proof (rule fetch_pages.raw_induct[rotated])
    fix fetch l n t a r
    assume IH: "\<And>l n t a r. fetch l n t a = Some r \<Longrightarrow> keyed n a \<longrightarrow> (\<forall>m. r = Inr m \<longrightarrow> keyed n m)"
      and body: "(case l t of Inl err \<Rightarrow> Some (Inl err)
         | Inr pg \<Rightarrow> if more_pages pg then fetch l n (pg_continue pg) (add_items n (pg_items pg) a)
                      else Some (Inr (add_items n (pg_items pg) a))) = Some r"
    show "keyed n a \<longrightarrow> (\<forall>m. r = Inr m \<longrightarrow> keyed n m)"
    proof (intro impI allI)
      fix m assume a: "keyed n a" and r: "r = Inr m"
      obtain pg where pg: "l t = Inr pg" using body r by (cases "l t") auto
      note acc = keyed_add_items[OF a, of "pg_items pg"]
      show "keyed n m"
      proof (cases "more_pages pg")
        case True
        then have "fetch l n (pg_continue pg) (add_items n (pg_items pg) a) = Some r" using body pg by simp
        from IH[OF this] acc r show ?thesis by blast
      next
        case False
        then have "r = Inr (add_items n (pg_items pg) a)" using body pg by simp
        then show ?thesis using acc r by simp
      qed
    qed
  qed
  with assms show ?thesis by blast
qed

lemma GetConfigsInNamespace_keyed:
  assumes "GetConfigsInNamespace list name = Some (Inr m)"
  shows "wf_map m" "map_of m k = Some x \<Longrightarrow> name x = k"
proof -
  have "keyed name m"
    using assms unfolding GetConfigsInNamespace_def
    by (rule fetch_pages_keyed) (simp_all add: keyed_def)
  then show "wf_map m" "map_of m k = Some x \<Longrightarrow> name x = k"
    by (auto simp: keyed_def list_all_iff dest: map_of_SomeD)
qed

text \<open>
  A server that reports remaining items but hands out no continue token is asked for its
  first page for ever: the loop does not return.
\<close>

theorem paging_without_token_diverges:
  assumes "list [] = Inr pg" "more_pages pg" "pg_continue pg = []"
  shows "GetConfigsInNamespace list name = None"
proof -
  have "l = list \<longrightarrow> t \<noteq> []" if "fetch_pages l n t a = Some r" for l n t a and r
    using that
  proof (rule fetch_pages.raw_induct[rotated])
    fix fetch l n t a r
    assume IH: "\<And>l n t a r. fetch l n t a = Some r \<Longrightarrow> l = list \<longrightarrow> t \<noteq> []"
      and body: "(case l t of Inl err \<Rightarrow> Some (Inl err)
         | Inr pg \<Rightarrow> if more_pages pg then fetch l n (pg_continue pg) (add_items n (pg_items pg) a)
                      else Some (Inr (add_items n (pg_items pg) a))) = Some r"
    show "l = list \<longrightarrow> t \<noteq> []"
      using body assms IH[of l n "[]"] by auto
  qed
  from this[of list name "[]"] show ?thesis
    unfolding GetConfigsInNamespace_def by (cases "fetch_pages list name [] []") auto
qed

theorem paging_without_token_diverges_witness:
  "GetConfigsInNamespace (\<lambda>t. Inr \<lparr>pg_items = [''a''], pg_remaining = Some 1, pg_continue = []\<rparr>) (\<lambda>x. x) = None"
  by (rule paging_without_token_diverges[of _
        "\<lparr>pg_items = [''a''], pg_remaining = Some 1, pg_continue = []\<rparr>"]) (simp_all add: more_pages_def)

end
