(* ===== verification/SiteHandlers.thy ===== *)
theory SiteHandlers
  imports Controllers Converge
begin

text \<open>
  The handlers of \<^verbatim>\<open>handlers/site\<close>: they keep the config maps, the deployments, the services and
  the ingresses of a site in line with its services. Each list is read once, compared with what
  the service configurations give, and written in loops. A handler writes its result into the
  site's status, so the site is part of what it returns, also beside an error.
\<close>

section \<open>Config maps\<close>

text \<open>The map of a stored object may be nil, which \<^verbatim>\<open>reflect.DeepEqual\<close> tells from an empty map.\<close>

record config_map =
  cm_meta :: object_meta
  cm_data :: "string gomap option"

fun data_equal :: "string gomap option \<Rightarrow> string gomap option \<Rightarrow> bool" where
  "data_equal None None = True"
| "data_equal (Some a) (Some b) = map_eq a b"
| "data_equal _ _ = False"

definition label_of :: "object_meta \<Rightarrow> string \<Rightarrow> string" where
  "label_of m l = lookup_or [] (om_labels m) l"

definition makeConfigmapKey :: "string \<Rightarrow> string \<Rightarrow> string" where
  "makeConfigmapKey siteName configmapName = siteName @ ''.'' @ configmapName"

definition cm_key :: "config_map \<Rightarrow> string" where
  "cm_key c = makeConfigmapKey (label_of (cm_meta c) labels_Service) (label_of (cm_meta c) labels_Type)"

definition createConfigMap ::
  "externals \<Rightarrow> 'w config_clients \<Rightarrow> staging_site \<Rightarrow> service_config \<Rightarrow> string \<Rightarrow> string gomap \<Rightarrow> 'w \<Rightarrow>
   go_error + config_map" where
  "createConfigMap x cc site config typeName data w =
     (case LoadConfigs cc w (NewSite site config) of
        Inl err \<Rightarrow> Inl err
      | Inr templateHandler \<Rightarrow>
          (case ReplaceTemplateVariablesInStringMap (ex_order x) 52 data ''configmap data''
                  [GetTemplateValues (ex_md5 x) (ex_order x) templateHandler] of
             (_, Some err) \<Rightarrow> Inl err
           | (replacedData, None) \<Rightarrow>
               (case ex_set_ref x (st_meta site)
                       (new_meta (MakeConfigmapName (ex_md5 x) site config typeName) (st_namespace site)
                          [(labels_Site, st_name site), (labels_Service, sc_name config), (labels_Type, typeName)]) of
                  Inl err \<Rightarrow> Inl err
                | Inr meta \<Rightarrow> Inr \<lparr>cm_meta = meta, cm_data = Some replacedData\<rparr>)))"

fun configmaps_of_service ::
  "(string \<Rightarrow> string gomap \<Rightarrow> go_error + config_map) \<Rightarrow> string \<Rightarrow> string gomap gomap \<Rightarrow> config_map gomap \<Rightarrow>
   go_error + config_map gomap" where
  "configmaps_of_service create service [] acc = Inr acc"
| "configmaps_of_service create service (kv # kvs) acc =
     (case create (fst kv) (snd kv) of
        Inl err \<Rightarrow> Inl err
      | Inr dotenv \<Rightarrow> configmaps_of_service create service kvs
                        (AList.update (makeConfigmapKey service (fst kv)) dotenv acc))"

fun expected_configmaps ::
  "externals \<Rightarrow> 'w config_clients \<Rightarrow> staging_site \<Rightarrow> 'w \<Rightarrow> string list \<Rightarrow> config_map gomap \<Rightarrow>
   go_error + config_map gomap" where
  "expected_configmaps x cc site w [] acc = Inr acc"
| "expected_configmaps x cc site w (name # names) acc =
     (case cl_get (cc_service cc) (st_namespace site) name w of
        Inl err \<Rightarrow> Inl err
      | Inr config \<Rightarrow>
          (case configmaps_of_service (\<lambda>key values. createConfigMap x cc site config key values w)
                  (sc_name config) (go_range (ex_order x) 51 (sc_config_maps config)) acc of
             Inl err \<Rightarrow> Inl err
           | Inr acc' \<Rightarrow> expected_configmaps x cc site w names acc'))"

definition same_data :: "config_map \<Rightarrow> config_map \<Rightarrow> bool" where
  "same_data c e = data_equal (cm_data e) (cm_data c)"

definition set_data :: "config_map \<Rightarrow> config_map \<Rightarrow> config_map" where
  "set_data c e = c\<lparr>cm_data := cm_data e\<rparr>"

definition ensureConfigmapsAreUpToDate ::
  "externals \<Rightarrow> 'w config_clients \<Rightarrow> ('w, config_map) client \<Rightarrow> staging_site \<Rightarrow> 'w \<Rightarrow>
   (go_error + bool) \<times> 'w" where
  "ensureConfigmapsAreUpToDate x cc cms site w =
     (case cl_list cms (st_namespace site) [(labels_Site, st_name site)] w of
        Inl err \<Rightarrow> (Inl err, w)
      | Inr items \<Rightarrow>
          (case expected_configmaps x cc site w (map fst (go_range (ex_order x) 50 (site_services site))) [] of
             Inl err \<Rightarrow> (Inl err, w)
           | Inr expected \<Rightarrow>
               let p = classify cm_key same_data set_data items (start_plan expected)
               in finish True
                    (run_loops
                      [write_all (cl_delete cms) (go_range (ex_order x) 60 (to_delete p)),
                       write_all (cl_update cms) (go_range (ex_order x) 61 (to_update p)),
                       write_all (cl_create cms) (go_range (ex_order x) 62 (to_create p))] w)))"

definition EnsureConfigsAreUpToDate ::
  "externals \<Rightarrow> 'w config_clients \<Rightarrow> ('w, config_map) client \<Rightarrow> staging_site \<Rightarrow> 'w \<Rightarrow>
   ((go_error + bool) \<times> staging_site) \<times> 'w" where
  "EnsureConfigsAreUpToDate x cc cms site w =
     (let previousComplete = su_configs (st_status site)
      in case ensureConfigmapsAreUpToDate x cc cms site w of
           (Inl err, w') \<Rightarrow> ((Inl err, site), w')
         | (Inr complete, w') \<Rightarrow>
             ((Inr (previousComplete \<noteq> complete),
               site\<lparr>st_status := (st_status site)\<lparr>su_configs := complete\<rparr>\<rparr>), w'))"


section \<open>Deployments\<close>

record deployment =
  dp_meta :: object_meta
  dp_replicas :: "32 word option"
  dp_selector :: "string gomap"
  dp_pod_labels :: "string gomap"
  dp_pod :: pod_spec
  dp_status :: deployment_status

definition createDeployment ::
  "externals \<Rightarrow> 'w config_clients \<Rightarrow> staging_site \<Rightarrow> service_config \<Rightarrow> 'w \<Rightarrow> go_error + deployment" where
  "createDeployment x cc site serviceConfig w =
     (case LoadConfigs cc w (NewSite site serviceConfig) of
        Inl err \<Rightarrow> Inl err
      | Inr templateHandler \<Rightarrow>
          let labelsMap = [(labels_Site, st_name site), (labels_Service, sc_name serviceConfig)];
              replicas = svc_replicas (site_service_of site (sc_name serviceConfig));
              replicas = (if sint replicas < 1 then 1 else replicas)
          in case ReplaceTemplateVariablesInPodSpec (ex_pod_codec x) (ex_order x) 20
                    (sc_deployment_pod_spec serviceConfig)
                    [GetTemplateValues (ex_md5 x) (ex_order x) templateHandler] of
               Inl err \<Rightarrow> Inl err
             | Inr podSpec \<Rightarrow>
                 (case ex_set_ref x (st_meta site)
                         (new_meta (MakeDeploymentName (ex_md5 x) site serviceConfig) (st_namespace site) labelsMap) of
                    Inl err \<Rightarrow> Inl err
                  | Inr meta \<Rightarrow>
                      Inr \<lparr>dp_meta = meta, dp_replicas = Some replicas, dp_selector = labelsMap,
                           dp_pod_labels = labelsMap,
                           dp_pod = SetExtraEnvVarsOnPodSpec (ex_sort x) (ex_order x) 40
                             (UpdatePodSpecWithOverrides podSpec site serviceConfig) site serviceConfig,
                           dp_status = zero_deployment_status\<rparr>))"

definition updateDeploymentFromOther :: "deployment \<Rightarrow> deployment \<Rightarrow> deployment" where
  "updateDeploymentFromOther a b =
     a\<lparr>dp_meta := (dp_meta a)\<lparr>om_labels := om_labels (dp_meta b)\<rparr>, dp_pod_labels := dp_pod_labels b,
       dp_pod := dp_pod b, dp_replicas := dp_replicas b\<rparr>"

text \<open>
  The second loop: it sorts the existing deployments, copies their statuses into the site and
  keeps track of their health. A deployment to update comes with the state that the merge patch
  starts from.
\<close>

record deployment_plan =
  dn_create :: "deployment gomap"
  dn_update :: "(deployment \<times> deployment) gomap"
  dn_delete :: "deployment gomap"
  dn_site :: staging_site
  dn_healthy :: bool

definition set_deployment_status :: "string \<Rightarrow> deployment_status \<Rightarrow> staging_site \<Rightarrow> staging_site" where
  "set_deployment_status name ds site =
     (let serviceStatus = lookup_or zero_service_status (su_services (st_status site)) name
      in site\<lparr>st_status := (st_status site)\<lparr>su_services :=
           AList.update name (serviceStatus\<lparr>sst_deployment := ds\<rparr>) (su_services (st_status site))\<rparr>\<rparr>)"

definition dp_service :: "deployment \<Rightarrow> string" where
  "dp_service d = label_of (dp_meta d) labels_Service"

fun classify_deployments :: "deployment list \<Rightarrow> deployment_plan \<Rightarrow> deployment_plan" where
  "classify_deployments [] p = p"
| "classify_deployments (d # ds) p =
     (case map_of (dn_create p) (dp_service d) of
        Some expected \<Rightarrow>
          let existing = updateDeploymentFromOther d expected
          in classify_deployments ds
               (p\<lparr>dn_update := AList.update (dp_service d) (existing, d) (dn_update p),
                  dn_site := set_deployment_status (dp_service d) (dp_status existing) (dn_site p),
                  dn_healthy := dn_healthy p \<and> dp_replicas existing = Some (ds_ready_replicas (dp_status existing)),
                  dn_create := AList.delete (dp_service d) (dn_create p)\<rparr>)
      | None \<Rightarrow>
          classify_deployments ds (p\<lparr>dn_delete := AList.update (dp_service d) d (dn_delete p)\<rparr>))"

definition set_health :: "workload_health \<Rightarrow> staging_site \<Rightarrow> staging_site" where
  "set_health h site = site\<lparr>st_status := (st_status site)\<lparr>su_health := h\<rparr>\<rparr>"

definition service_deployment ::
  "externals \<Rightarrow> 'w config_clients \<Rightarrow> staging_site \<Rightarrow> 'w \<Rightarrow> string \<Rightarrow> site_service \<Rightarrow> go_error + deployment option" where
  "service_deployment x cc site w name service =
     (case cl_get (cc_service cc) (st_namespace site) name w of
        Inl err \<Rightarrow> Inl err
      | Inr config \<Rightarrow> map_sum id Some (createDeployment x cc site config w))"

definition ensureDeploymentsAreUpToDate ::
  "externals \<Rightarrow> 'w config_clients \<Rightarrow> ('w, deployment) client \<Rightarrow> staging_site \<Rightarrow> 'w \<Rightarrow>
   ((go_error + bool) \<times> staging_site) \<times> 'w" where
  "ensureDeploymentsAreUpToDate x cc dps site w =
     (case cl_list dps (st_namespace site) [(labels_Site, st_name site)] w of
        Inl err \<Rightarrow> ((Inl err, site), w)
      | Inr items \<Rightarrow>
          if \<not> su_enabled (st_status site)
          then (case write_list (cl_delete dps) items w of
                  (Some err, w') \<Rightarrow> ((Inl err, site), w')
                | (None, w') \<Rightarrow> ((Inr True, site), w'))
          else (case build_expected (service_deployment x cc site w)
                       (go_range (ex_order x) 50 (site_services site)) [] of
                  Inl err \<Rightarrow> ((Inl err, site), w)
                | Inr expected \<Rightarrow>
                    let p = classify_deployments items
                              \<lparr>dn_create = expected, dn_update = [], dn_delete = [], dn_site = site, dn_healthy = True\<rparr>;
                        site = set_health (if dn_healthy p then WorkloadHealthHealthy else WorkloadHealthUnhealthy) (dn_site p)
                    in case run_loops
                              [write_all (cl_delete dps) (go_range (ex_order x) 60 (dn_delete p)),
                               write_all (\<lambda>u. cl_patch dps (fst u) (snd u)) (go_range (ex_order x) 61 (dn_update p)),
                               write_all (cl_create dps) (go_range (ex_order x) 62 (dn_create p))] w of
                         (Some err, w') \<Rightarrow> ((Inl err, site), w')
                       | (None, w') \<Rightarrow> ((Inr True, site), w')))"

definition EnsureWorkloadObjectsAreUpToDate ::
  "externals \<Rightarrow> 'w config_clients \<Rightarrow> ('w, deployment) client \<Rightarrow> staging_site \<Rightarrow> 'w \<Rightarrow>
   ((go_error + bool) \<times> staging_site) \<times> 'w" where
  "EnsureWorkloadObjectsAreUpToDate x cc dps site w =
     (let previousComplete = su_workloads (st_status site); previousHealth = su_health (st_status site)
      in case ensureDeploymentsAreUpToDate x cc dps site w of
           ((Inl err, site'), w') \<Rightarrow> ((Inl err, site'), w')
         | ((Inr complete, site'), w') \<Rightarrow>
             ((Inr (previousComplete \<noteq> complete \<or> su_health (st_status site') \<noteq> previousHealth),
               site'\<lparr>st_status := (st_status site')\<lparr>su_workloads := complete\<rparr>\<rparr>), w'))"

end
