(* ===== verification/NetworkingHandler.thy ===== *)
theory NetworkingHandler
  imports SiteHandlers
begin

text \<open>
  \<^verbatim>\<open>handlers/site/networking_handler.go\<close>: the services and ingresses of a site. Existing objects
  are never changed; they are kept or deleted.
\<close>

record kube_service =
  ks_meta :: object_meta
  ks_spec :: service_spec

record kube_ingress =
  ki_meta :: object_meta
  ki_spec :: ingress_spec

definition ks_service :: "kube_service \<Rightarrow> string" where
  "ks_service s = label_of (ks_meta s) labels_Service"

definition ki_service :: "kube_ingress \<Rightarrow> string" where
  "ki_service i = label_of (ki_meta i) labels_Service"

definition createService ::
  "externals \<Rightarrow> 'w config_clients \<Rightarrow> staging_site \<Rightarrow> service_config \<Rightarrow> 'w \<Rightarrow> go_error + kube_service" where
  "createService x cc site config w =
     (case LoadConfigs cc w (NewSite site config) of
        Inl err \<Rightarrow> Inl err
      | Inr siteTemplateHandler \<Rightarrow>
          (case sc_service_spec config of
             None \<Rightarrow> Inl (Panic ''nil service spec'')
           | Some spec \<Rightarrow>
               (case ReplaceTemplateVariablesInServiceSpec (ex_service_codec x) (ex_order x) 20 spec
                       [GetTemplateValues (ex_md5 x) (ex_order x) siteTemplateHandler] of
                  Inl err \<Rightarrow> Inl err
                | Inr replacedSpec \<Rightarrow>
                    let names = [(labels_Site, st_name site), (labels_Service, sc_name config)]
                    in (case ex_set_ref x (st_meta site)
                               (new_meta (MakeServiceName (ex_md5 x) site config) (st_namespace site) names) of
                          Inl err \<Rightarrow> Inl err
                        | Inr meta \<Rightarrow> Inr \<lparr>ks_meta = meta, ks_spec = replacedSpec\<lparr>sv_selector := names\<rparr>\<rparr>))))"

text \<open>The owner reference of an ingress is set twice, first in the literal.\<close>

definition createIngress ::
  "externals \<Rightarrow> 'w config_clients \<Rightarrow> staging_site \<Rightarrow> service_config \<Rightarrow> 'w \<Rightarrow> go_error + kube_ingress" where
  "createIngress x cc site config w =
     (case LoadConfigs cc w (NewSite site config) of
        Inl err \<Rightarrow> Inl err
      | Inr siteTemplateHandler \<Rightarrow>
          (case sc_ingress_spec config of
             None \<Rightarrow> Inl (Panic ''nil ingress spec'')
           | Some spec \<Rightarrow>
               (case ReplaceTemplateVariablesInIngressSpec (ex_ingress_codec x) (ex_order x) 20 spec
                       [GetTemplateValues (ex_md5 x) (ex_order x) siteTemplateHandler,
                        [(''ingress.serviceName'', MakeServiceName (ex_md5 x) site config)]] of
                  Inl err \<Rightarrow> Inl err
                | Inr replacedSpec \<Rightarrow>
                    (case ex_set_ref x (st_meta site)
                            ((new_meta (MakeIngressName (ex_md5 x) site config) (st_namespace site)
                               [(labels_Site, st_name site), (labels_Service, sc_name config)])
                             \<lparr>om_annotations := sc_ingress_annotations config, om_controller := Some (st_name site)\<rparr>) of
                       Inl err \<Rightarrow> Inl err
                     | Inr meta \<Rightarrow> Inr \<lparr>ki_meta = meta, ki_spec = replacedSpec\<rparr>))))"

definition service_service ::
  "externals \<Rightarrow> 'w config_clients \<Rightarrow> staging_site \<Rightarrow> 'w \<Rightarrow> string \<Rightarrow> site_service \<Rightarrow> go_error + kube_service option" where
  "service_service x cc site w name service =
     (case cl_get (cc_service cc) (st_namespace site) name w of
        Inl err \<Rightarrow> Inl err
      | Inr config \<Rightarrow>
          if sc_service_spec config = None then Inr None
          else map_sum id Some (createService x cc site config w))"

definition service_ingress ::
  "externals \<Rightarrow> 'w config_clients \<Rightarrow> staging_site \<Rightarrow> 'w \<Rightarrow> string \<Rightarrow> site_service \<Rightarrow> go_error + kube_ingress option" where
  "service_ingress x cc site w name service =
     (case cl_get (cc_service cc) (st_namespace site) name w of
        Inl err \<Rightarrow> Inl err
      | Inr config \<Rightarrow>
          if sc_ingress_spec config = None then Inr None
          else map_sum id Some (createIngress x cc site config w))"

definition ensureServicesAreUpToDate ::
  "externals \<Rightarrow> 'w config_clients \<Rightarrow> ('w, kube_service) client \<Rightarrow> staging_site \<Rightarrow> 'w \<Rightarrow>
   (go_error + bool) \<times> 'w" where
  "ensureServicesAreUpToDate x cc svcs site w =
     (case cl_list svcs (st_namespace site) [(labels_Site, st_name site)] w of
        Inl err \<Rightarrow> (Inl err, w)
      | Inr items \<Rightarrow>
          if \<not> su_enabled (st_status site) then finish True (write_list (cl_delete svcs) items w)
          else (case build_expected (service_service x cc site w)
                       (go_range (ex_order x) 50 (site_services site)) [] of
                  Inl err \<Rightarrow> (Inl err, w)
                | Inr expected \<Rightarrow>
                    let p = classify ks_service (\<lambda>s e. True) (\<lambda>s e. s) items (start_plan expected)
                    in finish True
                         (run_loops
                           [write_all (cl_delete svcs) (go_range (ex_order x) 60 (to_delete p)),
                            write_all (cl_create svcs) (go_range (ex_order x) 62 (to_create p))] w)))"

definition ensureIngressesAreUpToDate ::
  "externals \<Rightarrow> 'w config_clients \<Rightarrow> ('w, kube_ingress) client \<Rightarrow> staging_site \<Rightarrow> 'w \<Rightarrow>
   (go_error + bool) \<times> 'w" where
  "ensureIngressesAreUpToDate x cc ings site w =
     (case cl_list ings (st_namespace site) [(labels_Site, st_name site)] w of
        Inl err \<Rightarrow> (Inl err, w)
      | Inr items \<Rightarrow>
          if \<not> su_enabled (st_status site) then finish True (write_list (cl_delete ings) items w)
          else (case build_expected (service_ingress x cc site w)
                       (go_range (ex_order x) 50 (site_services site)) [] of
                  Inl err \<Rightarrow> (Inl err, w)
                | Inr expected \<Rightarrow>
                    let p = classify ki_service (\<lambda>s e. True) (\<lambda>s e. s) items (start_plan expected)
                    in finish True
                         (run_loops
                           [write_all (cl_delete ings) (go_range (ex_order x) 60 (to_delete p)),
                            write_all (cl_create ings) (go_range (ex_order x) 62 (to_create p))] w)))"

definition EnsureNetworkingObjectsAreUpToDate ::
  "externals \<Rightarrow> 'w config_clients \<Rightarrow> ('w, kube_service) client \<Rightarrow> ('w, kube_ingress) client \<Rightarrow> staging_site \<Rightarrow> 'w \<Rightarrow>
   ((go_error + bool) \<times> staging_site) \<times> 'w" where
  "EnsureNetworkingObjectsAreUpToDate x cc svcs ings site w =
     (let previousComplete = su_networking (st_status site)
      in case ensureServicesAreUpToDate x cc svcs site w of
           (Inl err, w') \<Rightarrow> ((Inl err, site), w')
         | (Inr complete1, w') \<Rightarrow>
             (case ensureIngressesAreUpToDate x cc ings site w' of
                (Inl err, w'') \<Rightarrow> ((Inl err, site), w'')
              | (Inr complete2, w'') \<Rightarrow>
                  let isComplete = complete1 \<and> complete2
                  in ((Inr (previousComplete \<noteq> isComplete),
                       site\<lparr>st_status := (st_status site)\<lparr>su_networking := isComplete\<rparr>\<rparr>), w'')))"

end
