(* ===== verification/JobHandlers.thy ===== *)
theory JobHandlers
  imports JobTypes TaskProperties
begin

text \<open>
  The handlers of \<^verbatim>\<open>handlers/job\<close>: they keep the database init and migration jobs of a site in
  line with its spec, tell whether they are complete, and create backups.
\<close>

section \<open>Database init jobs\<close>

definition DbInit_getPopulatedJob ::
  "digest \<Rightarrow> set_ref \<Rightarrow> staging_site \<Rightarrow> service_config \<Rightarrow> string \<Rightarrow> string \<Rightarrow> go_error + db_init_job" where
  "DbInit_getPopulatedJob md5 setref site serviceConfig mysqlEnvironment mongoEnvironment =
     (case DbInitJob_PopulateFomSite md5 site serviceConfig mysqlEnvironment mongoEnvironment of
        Inl err \<Rightarrow> Inl err
      | Inr job \<Rightarrow>
          (case setref (st_meta site) (di_meta job) of
             Inl err \<Rightarrow> Inl err
           | Inr meta \<Rightarrow> Inr (job\<lparr>di_meta := meta\<rparr>)))"

definition DbInit_service_job ::
  "digest \<Rightarrow> set_ref \<Rightarrow> ('w, service_config) client \<Rightarrow> staging_site \<Rightarrow> 'w \<Rightarrow> string \<Rightarrow> site_service \<Rightarrow>
   go_error + db_init_job option" where
  "DbInit_service_job md5 setref cfgs site w name service =
     (if svc_mysql_env service = [] \<and> svc_mongo_env service = [] then Inr None
      else case cl_get cfgs (st_namespace site) name w of
             Inl err \<Rightarrow> Inl err
           | Inr serviceConfig \<Rightarrow>
               if sc_db_init_pod_spec serviceConfig = None then Inr None
               else map_sum id Some (DbInit_getPopulatedJob md5 setref site serviceConfig
                      (svc_mysql_env service) (svc_mongo_env service)))"

definition DbInit_EnsureJobsAreCreated ::
  "digest \<Rightarrow> set_ref \<Rightarrow> order \<Rightarrow> ('w, service_config) client \<Rightarrow> ('w, db_init_job) client \<Rightarrow>
   staging_site \<Rightarrow> 'w \<Rightarrow> (go_error + bool) \<times> 'w" where
  "DbInit_EnsureJobsAreCreated md5 setref ord cfgs jobs site w =
     (case cl_list jobs (st_namespace site) [(labels_Site, st_name site)] w of
        Inl err \<Rightarrow> (Inl err, w)
      | Inr items \<Rightarrow>
          (case build_expected (DbInit_service_job md5 setref cfgs site w)
                  (go_range ord 0 (site_services site)) [] of
             Inl err \<Rightarrow> (Inl err, w)
           | Inr expected \<Rightarrow>
               let p = classify di_service (\<lambda>x e. True) (\<lambda>x e. x) items (start_plan expected)
               in finish (to_delete p = [] \<and> to_create p = [])
                    (run_loops
                      [write_all (cl_delete jobs) (go_range ord 1 (to_delete p)),
                       write_all (cl_create jobs) (go_range ord 2 (to_create p))] w)))"

fun jobs_loop :: "('o \<Rightarrow> job_state) \<Rightarrow> ('o \<Rightarrow> go_error) \<Rightarrow> 'o list \<Rightarrow> bool \<Rightarrow> go_error + bool" where
  "jobs_loop state failure [] isEverythingReady = Inr isEverythingReady"
| "jobs_loop state failure (d # ds) isEverythingReady =
     (if state d = JobFailed then Inl (failure d)
      else jobs_loop state failure ds (isEverythingReady \<and> state d = JobComplete))"

definition DbInit_EnsureJobsAreComplete ::
  "('w, db_init_job) client \<Rightarrow> staging_site \<Rightarrow> 'w \<Rightarrow> go_error + bool" where
  "DbInit_EnsureJobsAreComplete jobs site w =
     (case cl_list jobs (st_namespace site) [(labels_Site, st_name site)] w of
        Inl err \<Rightarrow> Inl err
      | Inr items \<Rightarrow>
          jobs_loop (\<lambda>j. dit_state (di_status j))
            (\<lambda>j. DatabaseInitError (dis_site (di_spec j)) (dis_service (di_spec j)) []) items True)"


section \<open>Database migration jobs\<close>

definition DbMigration_getPopulatedJob ::
  "digest \<Rightarrow> set_ref \<Rightarrow> staging_site \<Rightarrow> service_config \<Rightarrow> go_error + db_migration_job" where
  "DbMigration_getPopulatedJob md5 setref site serviceConfig =
     (case DbMigrationJob_PopulateFomSite md5 site serviceConfig of
        Inl err \<Rightarrow> Inl err
      | Inr job \<Rightarrow>
          (case setref (st_meta site) (dm_meta job) of
             Inl err \<Rightarrow> Inl err
           | Inr meta \<Rightarrow> Inr (job\<lparr>dm_meta := meta\<rparr>)))"

definition DbMigration_service_job ::
  "digest \<Rightarrow> set_ref \<Rightarrow> ('w, service_config) client \<Rightarrow> staging_site \<Rightarrow> 'w \<Rightarrow> string \<Rightarrow> site_service \<Rightarrow>
   go_error + db_migration_job option" where
  "DbMigration_service_job md5 setref cfgs site w name service =
     (if svc_mysql_env service = [] \<and> svc_mongo_env service = [] then Inr None
      else case cl_get cfgs (st_namespace site) name w of
             Inl err \<Rightarrow> Inl err
           | Inr serviceConfig \<Rightarrow>
               if sc_migration_pod_spec serviceConfig = None then Inr None
               else map_sum id Some (DbMigration_getPopulatedJob md5 setref site serviceConfig))"

definition DbMigration_EnsureJobsAreCreated ::
  "digest \<Rightarrow> set_ref \<Rightarrow> order \<Rightarrow> ('w, service_config) client \<Rightarrow> ('w, db_migration_job) client \<Rightarrow>
   staging_site \<Rightarrow> 'w \<Rightarrow> (go_error + bool) \<times> 'w" where
  "DbMigration_EnsureJobsAreCreated md5 setref ord cfgs jobs site w =
     (case cl_list jobs (st_namespace site) [(labels_Site, st_name site)] w of
        Inl err \<Rightarrow> (Inl err, w)
      | Inr items \<Rightarrow>
          (case (if su_enabled (st_status site)
                 then build_expected (DbMigration_service_job md5 setref cfgs site w)
                        (go_range ord 0 (site_services site)) []
                 else Inr []) of
             Inl err \<Rightarrow> (Inl err, w)
           | Inr expected \<Rightarrow>
               let p = classify dm_service DbMigrationJob_Matches DbMigrationJob_UpdateFrom items
                         (start_plan expected)
               in finish (to_delete p = [] \<and> to_create p = [])
                    (run_loops
                      [write_all (cl_delete jobs) (go_range ord 1 (to_delete p)),
                       write_all (cl_update jobs) (go_range ord 2 (to_update p)),
                       write_all (cl_create jobs) (go_range ord 3 (to_create p))] w)))"

definition DbMigration_EnsureJobsAreComplete ::
  "('w, db_migration_job) client \<Rightarrow> staging_site \<Rightarrow> 'w \<Rightarrow> go_error + bool" where
  "DbMigration_EnsureJobsAreComplete jobs site w =
     (case cl_list jobs (st_namespace site) [(labels_Site, st_name site)] w of
        Inl err \<Rightarrow> Inl err
      | Inr items \<Rightarrow>
          jobs_loop (\<lambda>j. dmt_state (dm_status j))
            (\<lambda>j. DatabaseMigrationError (dms_site (dm_spec j)) (dms_service (dm_spec j)) []) items True)"


section \<open>Backups\<close>

text \<open>\<^verbatim>\<open>time.Time.Unix\<close>, in seconds.\<close>

definition unix_seconds :: "time \<Rightarrow> int" where
  "unix_seconds t = t div 1000000000"

fun backup_type_string :: "backup_type \<Rightarrow> string" where
  "backup_type_string BackupTypeManual = ''Manual''"
| "backup_type_string BackupTypeScheduled = ''Scheduled''"
| "backup_type_string BackupTypeFinal = ''Final''"
| "backup_type_string (BackupTypeOther s) = s"

fun makeBackupName :: "digest \<Rightarrow> string \<Rightarrow> backup_type \<Rightarrow> time \<Rightarrow> go_error + string" where
  "makeBackupName md5 siteName BackupTypeFinal ts =
     Inr (ShortenHumanReadableValue md5 (''final-'' @ siteName) 63)"
| "makeBackupName md5 siteName BackupTypeScheduled ts =
     Inr (ShortenHumanReadableValue md5 (''sched-'' @ siteName @ ''-'' @ show_int (unix_seconds ts)) 63)"
| "makeBackupName md5 siteName ty ts =
     Inl (PlainError (''unhandled backup type: '' @ backup_type_string ty))"

definition Backup_createJob ::
  "set_ref \<Rightarrow> staging_site \<Rightarrow> string \<Rightarrow> backup_type \<Rightarrow> go_error + backup" where
  "Backup_createJob setref site name ty =
     (case setref (st_meta site) (new_meta name (st_namespace site) []) of
        Inl err \<Rightarrow> Inl err
      | Inr meta \<Rightarrow> Inr \<lparr>bk_meta = meta, bk_site = st_name site, bk_type = ty,
                         bk_detail = zero_detail, bk_services = []\<rparr>)"

definition Backup_Create ::
  "digest \<Rightarrow> set_ref \<Rightarrow> ('w, backup) client \<Rightarrow> staging_site \<Rightarrow> backup_type \<Rightarrow> time \<Rightarrow> 'w \<Rightarrow>
   go_error option \<times> 'w" where
  "Backup_Create md5 setref bks site ty now w =
     (case makeBackupName md5 (st_name site) ty now of
        Inl err \<Rightarrow> (Some err, w)
      | Inr backupName \<Rightarrow>
          (case Backup_createJob setref site backupName ty of
             Inl err \<Rightarrow> (Some err, w)
           | Inr job \<Rightarrow>
               (case cl_create bks job w of
                  (Inl err, w') \<Rightarrow> (Some err, w')
                | (Inr _, w') \<Rightarrow> (None, w'))))"

definition Backup_EnsureFinalBackupIsComplete ::
  "digest \<Rightarrow> set_ref \<Rightarrow> ('w, backup) client \<Rightarrow> time \<Rightarrow> staging_site \<Rightarrow> 'w \<Rightarrow> (go_error + bool) \<times> 'w" where
  "Backup_EnsureFinalBackupIsComplete md5 setref bks now site w =
     (case makeBackupName md5 (st_name site) BackupTypeFinal now of
        Inl err \<Rightarrow> (Inl err, w)
      | Inr backupName \<Rightarrow>
          (case cl_get bks (st_namespace site) backupName w of
             Inl err \<Rightarrow>
               if ignore_not_found err \<noteq> None then (Inl err, w)
               else (case Backup_createJob setref site backupName BackupTypeFinal of
                       Inl err \<Rightarrow> (Inl err, w)
                     | Inr job \<Rightarrow>
                         (case cl_create bks job w of
                            (Inl err, w') \<Rightarrow> (Inl err, w')
                          | (Inr _, w') \<Rightarrow> (Inr False, w')))
           | Inr job \<Rightarrow>
               (case bd_state (bk_detail job) of
                  JobComplete \<Rightarrow> (Inr True, w)
                | JobFailed \<Rightarrow> (Inr True, w)
                | _ \<Rightarrow> (Inr False, w))))"

end
