(* ===== verification/GoTime.thy ===== *)
theory GoTime
  imports Kube "HOL-Library.Monad_Syntax"
begin

text \<open>
  What the sources use of Go's package \<^verbatim>\<open>time\<close>: the civil date and clock of an instant, formatting
  and parsing with the layout \<^verbatim>\<open>time.RFC3339\<close>, and \<^verbatim>\<open>%0wd\<close> of \<^verbatim>\<open>fmt.Sprintf\<close>. The clock of
  \<^verbatim>\<open>time.Now\<close> is in the local zone of the process, which is a parameter: the seconds that it is east
  of UTC at an instant. Instants are nanoseconds since 1970, years count on in both directions. The parser accepts what \<^verbatim>\<open>time.Parse\<close> accepts: one digit for the hour, a
  fraction of a second after a period or a comma, and a zone offset.
\<close>

section \<open>Civil dates\<close>

definition second_ns :: int where "second_ns = 1000000000"
definition day_ns :: int where "day_ns = 86400 * 1000000000"

definition is_leap :: "int \<Rightarrow> bool" where
  "is_leap y \<longleftrightarrow> y mod 4 = 0 \<and> (y mod 100 \<noteq> 0 \<or> y mod 400 = 0)"

definition days_in :: "int \<Rightarrow> int \<Rightarrow> int" where
  "days_in m y = (if m = 2 then (if is_leap y then 29 else 28)
                  else if m = 4 \<or> m = 6 \<or> m = 9 \<or> m = 11 then 30 else 31)"

text \<open>
  Years are taken to begin on the first of March, so that a leap day is the last day of its year:
  \<open>719468\<close> days lie between the first of March of the year 0 and the first of January 1970, and
  400, 100, 4 and 1 years have 146097, 36524, 1461 and 365 days. The month, counted from March, of
  day \<open>n\<close> of such a year is \<open>(5 * n + 2) div 153\<close>.
\<close>

definition march_day :: "int \<Rightarrow> int" where
  "march_day mp = (153 * mp + 2) div 5"

definition march_month :: "int \<Rightarrow> int" where
  "march_month n = (5 * n + 2) div 153"

definition march_date :: "int \<Rightarrow> int \<times> int" where
  "march_date z =
     (let a = z div 146097; r = z mod 146097;
          b = min 3 (r div 36524); r = r - 36524 * b;
          c = r div 1461; r = r mod 1461;
          e = min 3 (r div 365)
      in (400 * a + 100 * b + 4 * c + e, r - 365 * e))"

definition date_of_days :: "int \<Rightarrow> int \<times> int \<times> int" where
  "date_of_days days =
     (case march_date (days + 719468) of
        (y, n) \<Rightarrow>
          let mp = march_month n; m = (if mp < 10 then mp + 3 else mp - 9)
          in (if m \<le> 2 then y + 1 else y, m, n - march_day mp + 1))"

definition days_of_date :: "int \<Rightarrow> int \<Rightarrow> int \<Rightarrow> int" where
  "days_of_date y m d =
     (let y = (if m \<le> 2 then y - 1 else y); mp = (if m \<le> 2 then m + 9 else m - 3)
      in 146097 * (y div 400) + 36524 * (y mod 400 div 100) + 1461 * (y mod 100 div 4) + 365 * (y mod 4) +
         march_day mp + d - 1 - 719468)"

definition go_date :: "int \<Rightarrow> int \<Rightarrow> int \<Rightarrow> int \<Rightarrow> int \<Rightarrow> int \<Rightarrow> int \<Rightarrow> time" where
  "go_date y m d hour minute sec nsec =
     (days_of_date y m d * 86400 + hour * 3600 + minute * 60 + sec) * second_ns + nsec"

text \<open>The hour of an instant in UTC.\<close>

definition go_hour :: "time \<Rightarrow> int" where
  "go_hour t = t mod day_ns div (3600 * second_ns)"

text \<open>The local clock reads what a clock in UTC reads at \<open>local_time\<close>.\<close>

type_synonym zone = "time \<Rightarrow> int"

definition local_time :: "zone \<Rightarrow> time \<Rightarrow> time" where
  "local_time zone t = t + zone t * second_ns"


section \<open>Formatting\<close>

definition pad_int :: "nat \<Rightarrow> int \<Rightarrow> string" where
  "pad_int width i =
     (let s = show_nat (nat \<bar>i\<bar>); sign = (if i < 0 then ''-'' else [])
      in sign @ replicate (width - length sign - length s) (CHR ''0'') @ s)"

definition show_instant :: "int \<Rightarrow> int \<Rightarrow> int \<Rightarrow> int \<Rightarrow> int \<Rightarrow> int \<Rightarrow> string \<Rightarrow> string" where
  "show_instant y m d hour minute sec zone =
     pad_int 4 y @ ''-'' @ pad_int 2 m @ ''-'' @ pad_int 2 d @ ''T'' @
     pad_int 2 hour @ '':'' @ pad_int 2 minute @ '':'' @ pad_int 2 sec @ zone"

text \<open>The layout \<^verbatim>\<open>Z07:00\<close>: the seconds of an offset are dropped.\<close>

definition show_zone :: "int \<Rightarrow> string" where
  "show_zone offset =
     (if offset = 0 then ''Z''
      else let zone = \<bar>offset\<bar> div 60
           in (if offset < 0 \<and> 0 < zone then ''-'' else ''+'') @ pad_int 2 (zone div 60) @ '':'' @ pad_int 2 (zone mod 60))"

definition format_rfc3339 :: "zone \<Rightarrow> time \<Rightarrow> string" where
  "format_rfc3339 zone t =
     (let secs = local_time zone t div second_ns; s = secs mod 86400
      in case date_of_days (secs div 86400) of
           (y, m, d) \<Rightarrow> show_instant y m d (s div 3600) (s mod 3600 div 60) (s mod 60) (show_zone (zone t)))"


section \<open>Parsing\<close>

definition digit_value :: "char \<Rightarrow> int" where
  "digit_value c = int (of_char c) - 48"

fun digits_value :: "string \<Rightarrow> int \<Rightarrow> int" where
  "digits_value [] acc = acc"
| "digits_value (c # cs) acc = digits_value cs (10 * acc + digit_value c)"

fun getnum :: "bool \<Rightarrow> string \<Rightarrow> (int \<times> string) option" where
  "getnum fixed [] = None"
| "getnum fixed [c] = (if is_digit c \<and> \<not> fixed then Some (digit_value c, []) else None)"
| "getnum fixed (c # c' # cs) =
     (if \<not> is_digit c then None
      else if is_digit c' then Some (10 * digit_value c + digit_value c', cs)
      else if fixed then None else Some (digit_value c, c' # cs))"

definition get_year :: "string \<Rightarrow> (int \<times> string) option" where
  "get_year s = (if length s \<ge> 4 \<and> list_all is_digit (take 4 s)
                 then Some (digits_value (take 4 s) 0, drop 4 s) else None)"

fun skip_char :: "char \<Rightarrow> string \<Rightarrow> string option" where
  "skip_char c [] = None"
| "skip_char c (x # xs) = (if x = c then Some xs else None)"

fun get_fraction :: "string \<Rightarrow> int \<times> string" where
  "get_fraction (c # c' # cs) =
     (if (c = CHR ''.'' \<or> c = CHR '','') \<and> is_digit c'
      then let ds = take 9 (takeWhile is_digit (c' # cs))
           in (digits_value (ds @ replicate (9 - length ds) (CHR ''0'')) 0, dropWhile is_digit (c' # cs))
      else (0, c # c' # cs))"
| "get_fraction s = (0, s)"

text \<open>The offset in seconds.\<close>

definition get_zone :: "string \<Rightarrow> (int \<times> string) option" where
  "get_zone s =
     (case s of
        [] \<Rightarrow> None
      | c # cs \<Rightarrow>
          if c = CHR ''Z'' then Some (0, cs)
          else do {
            (hh, s) \<leftarrow> getnum True cs;
            s \<leftarrow> skip_char (CHR '':'') s;
            (mm, s) \<leftarrow> getnum True s;
            if hh > 24 \<or> mm > 60 then None
            else if c = CHR ''+'' then Some ((hh * 60 + mm) * 60, s)
            else if c = CHR ''-'' then Some (- ((hh * 60 + mm) * 60), s)
            else None
          })"

definition parse_rfc3339 :: "string \<Rightarrow> time option" where
  "parse_rfc3339 s =
     do {
       (y, s) \<leftarrow> get_year s;
       s \<leftarrow> skip_char (CHR ''-'') s;
       (m, s) \<leftarrow> getnum True s;
       s \<leftarrow> skip_char (CHR ''-'') s;
       (d, s) \<leftarrow> getnum True s;
       s \<leftarrow> skip_char (CHR ''T'') s;
       (hour, s) \<leftarrow> getnum False s;
       s \<leftarrow> skip_char (CHR '':'') s;
       (minute, s) \<leftarrow> getnum True s;
       s \<leftarrow> skip_char (CHR '':'') s;
       (sec, s) \<leftarrow> getnum True s;
       (nsec, s) \<leftarrow> Some (get_fraction s);
       (zone, s) \<leftarrow> get_zone s;
       if s = [] \<and> 1 \<le> m \<and> m \<le> 12 \<and> hour < 24 \<and> minute < 60 \<and> sec < 60 \<and> 1 \<le> d \<and> d \<le> days_in m y
       then Some (go_date y m d hour minute sec nsec - zone * second_ns)
       else None
     }"


section \<open>The calendar is one to one\<close>

lemma capped_div:
  fixes r k m :: int
  assumes "0 \<le> r" "r \<le> k * m + k" "0 < k" "0 \<le> m" "b = min m (r div k)"
  shows "0 \<le> b" "b \<le> m" "0 \<le> r - k * b" "r - k * b \<le> k" "b < m \<Longrightarrow> r - k * b < k"
proof -
  define q t where "q = r div k" and "t = r mod k"
  have q: "0 \<le> q" "r = k * q + t" "0 \<le> t" "t < k"
    using assms(1,3) by (simp_all add: q_def t_def pos_imp_zdiv_nonneg_iff)
  have b: "b = min m q" using assms(5) by (simp add: q_def)
  show "0 \<le> b" "b \<le> m" using q(1) assms(4) by (simp_all add: b)
  have "0 \<le> r - k * b \<and> r - k * b \<le> k \<and> (b < m \<longrightarrow> r - k * b < k)"
  proof (cases "m \<le> q")
    case True
    then have "k * m \<le> k * q" using assms(3) by simp
    with True q(2,3) assms(2) show ?thesis by (simp add: b)
  next
    case False
    with q(2-4) show ?thesis by (simp add: b)
  qed
  then show "0 \<le> r - k * b" "r - k * b \<le> k" "b < m \<Longrightarrow> r - k * b < k" by simp_all
qed

lemma year_parts:
  fixes a b c e :: int
  assumes "0 \<le> b" "b \<le> 3" "0 \<le> c" "c \<le> 24" "0 \<le> e" "e \<le> 3" and y: "y = 400 * a + 100 * b + 4 * c + e"
  shows "y div 400 = a" "y mod 400 div 100 = b" "y mod 100 div 4 = c" "y mod 4 = e"
proof -
  have m: "y mod 400 = 100 * b + 4 * c + e" "y mod 100 = 4 * c + e"
    using assms(1-6) by (intro int_mod_pos_eq[of _ _ a] int_mod_pos_eq[of _ _ "4 * a + b"]; simp add: y)+
  show "y div 400 = a" "y mod 400 div 100 = b" "y mod 100 div 4 = c" "y mod 4 = e"
    unfolding m using assms(1-6)
    by (intro int_div_pos_eq[of _ _ _ "100 * b + 4 * c + e"] int_div_pos_eq[of _ _ _ "4 * c + e"]
          int_div_pos_eq[of _ _ _ e] int_mod_pos_eq[of _ _ "100 * a + 25 * b + c"]; simp add: y)+
qed

lemma last_year_leap:
  fixes a b c :: int
  assumes "0 \<le> b" "b \<le> 3" "0 \<le> c" "c \<le> 24" "c = 24 \<Longrightarrow> b = 3"
  shows "is_leap (400 * a + 100 * b + 4 * c + 3 + 1)"
proof (cases "c = 24")
  case True
  then show ?thesis using assms(5) by (simp add: is_leap_def)
next
  case False
  have "(400 * a + 100 * b + 4 * c + 3 + 1) mod 4 = 0"
    by (rule int_mod_pos_eq[of _ _ "100 * a + 25 * b + c + 1"]) simp_all
  moreover have "(400 * a + 100 * b + 4 * c + 3 + 1) mod 100 = 4 * c + 4"
    using False assms(3,4) by (intro int_mod_pos_eq[of _ _ "4 * a + b"]) simp_all
  ultimately show ?thesis using assms(3) by (simp add: is_leap_def)
qed

lemma march_date_bounds:
  assumes "march_date z = (y, n)"
  shows "0 \<le> n" "n \<le> 365"
    and "146097 * (y div 400) + 36524 * (y mod 400 div 100) + 1461 * (y mod 100 div 4) + 365 * (y mod 4) + n = z"
    and "n = 365 \<Longrightarrow> is_leap (y + 1)"
proof -
  define a where "a = z div 146097"
  define r where "r = z mod 146097"
  define b where "b = min 3 (r div 36524)"
  define s where "s = r - 36524 * b"
  define c where "c = s div 1461"
  define u where "u = s mod 1461"
  define e where "e = min 3 (u div 365)"
  have yn: "y = 400 * a + 100 * b + 4 * c + e" "n = u - 365 * e"
    using assms[unfolded march_date_def Let_def, folded a_def r_def, folded b_def, folded s_def,
        folded c_def u_def, folded e_def] unfolding prod.inject by (elim conjE, simp only:)+
  have r: "0 \<le> r" "r < 146097" "z = 146097 * a + r" by (simp_all add: a_def r_def)
  have b: "0 \<le> b" "b \<le> 3" "0 \<le> s" "s < 36525" "b < 3 \<Longrightarrow> s < 36524"
  proof -
    have "r \<le> 36524 * 3 + 36524" using r(2) by simp
    note capped_div[OF r(1) this zero_less_numeral zero_le_numeral b_def, folded s_def]
    then show "0 \<le> b" "b \<le> 3" "0 \<le> s" "s < 36525" "b < 3 \<Longrightarrow> s < 36524" by simp_all
  qed
  have c: "0 \<le> c" "c \<le> 24" "0 \<le> u" "u < 1461" "s = 1461 * c + u"
    unfolding c_def u_def using b(3,4) by simp_all
  have e: "0 \<le> e" "e \<le> 3" "0 \<le> n" "n \<le> 365" "e < 3 \<Longrightarrow> n < 365"
  proof -
    have "u \<le> 365 * 3 + 365" using c(4) by simp
    note capped_div[OF c(3) this zero_less_numeral zero_le_numeral e_def, folded yn(2)]
    then show "0 \<le> e" "e \<le> 3" "0 \<le> n" "n \<le> 365" "e < 3 \<Longrightarrow> n < 365" by simp_all
  qed
  note y = year_parts[OF b(1,2) c(1,2) e(1,2) yn(1)]
  show "0 \<le> n" "n \<le> 365" by (rule e)+
  show "146097 * (y div 400) + 36524 * (y mod 400 div 100) + 1461 * (y mod 100 div 4) + 365 * (y mod 4) + n = z"
    unfolding y using r(3) c(5) yn(2) by (simp add: s_def)
  assume n: "n = 365"
  have e3: "e = 3" using e(2,5) n by (cases "e < 3") simp_all
  have u3: "u = 1460" using n e3 yn(2) by simp
  have "b = 3" if "c = 24" using that b(2,5) c(5) u3 by (cases "b < 3") simp_all
  then show "is_leap (y + 1)" unfolding yn(1) e3 by (rule last_year_leap[OF b(1,2) c(1,2)])
qed

lemma march_month_bounds:
  assumes "0 \<le> n" "n \<le> 365"
  shows "0 \<le> march_month n" "march_month n \<le> 11"
    and "0 \<le> n - march_day (march_month n)"
    and "n - march_day (march_month n) < (if march_month n = 11 then 28 + of_bool (n = 365)
           else if march_month n \<in> {1, 3, 6, 8} then 30 else 31)"
proof -
  have "\<forall>n \<in> set [0..365]. 0 \<le> march_month n \<and> march_month n \<le> 11 \<and> 0 \<le> n - march_day (march_month n) \<and>
      n - march_day (march_month n) < (if march_month n = 11 then 28 + of_bool (n = 365)
           else if march_month n \<in> {1, 3, 6, 8} then 30 else 31)"
    by code_simp
  then show "0 \<le> march_month n" "march_month n \<le> 11" "0 \<le> n - march_day (march_month n)"
    "n - march_day (march_month n) < (if march_month n = 11 then 28 + of_bool (n = 365)
           else if march_month n \<in> {1, 3, 6, 8} then 30 else 31)"
    using assms by (simp_all del: insert_iff)
qed

lemma date_of_days_valid:
  assumes "date_of_days z = (y, m, d)"
  shows "1 \<le> m" "m \<le> 12" "1 \<le> d" "d \<le> days_in m y" "days_of_date y m d = z"
proof -
  obtain y' n where yn: "march_date (z + 719468) = (y', n)" by force
  let ?mp = "march_month n"
  note b = march_date_bounds[OF yn]
  note mb = march_month_bounds[OF b(1,2)]
  have y: "y = (if m \<le> 2 then y' + 1 else y')" "m = (if ?mp < 10 then ?mp + 3 else ?mp - 9)"
    "d = n - march_day ?mp + 1"
    using assms by (auto simp: date_of_days_def yn Let_def)
  show "1 \<le> m" "m \<le> 12" using mb(1,2) by (simp_all add: y(2))
  show "1 \<le> d" using mb(3) by (simp add: y(3))
  have feb: "m = 2 \<longleftrightarrow> ?mp = 11" "m = 4 \<longleftrightarrow> ?mp = 1" "m = 6 \<longleftrightarrow> ?mp = 3" "m = 9 \<longleftrightarrow> ?mp = 6" "m = 11 \<longleftrightarrow> ?mp = 8"
    using mb(1,2) by (auto simp: y(2))
  have "d \<le> (if ?mp = 11 then 28 + of_bool (n = 365) else if ?mp \<in> {1, 3, 6, 8} then 30 else 31)"
    using mb(4) by (simp only: y(3))
  moreover have "is_leap y" if "n = 365" "m = 2"
    using b(4)[OF that(1)] that(2) by (simp add: y(1))
  ultimately show "d \<le> days_in m y"
    unfolding days_in_def feb insert_iff empty_iff by (cases "n = 365") (auto split: if_splits)
  have early: "m \<le> 2 \<longleftrightarrow> \<not> ?mp < 10" using mb(1,2) y(2) by (cases "?mp < 10") simp_all
  have yy: "(if m \<le> 2 then y - 1 else y) = y'" using y(1) by (cases "m \<le> 2") simp_all
  have mm: "(if m \<le> 2 then m + 9 else m - 3) = ?mp"
    unfolding early using y(2) by (cases "?mp < 10") simp_all
  show "days_of_date y m d = z"
    unfolding days_of_date_def Let_def yy mm using b(3) y(3) by linarith
qed



section \<open>Formatting and parsing are inverse\<close>

fun digits_of :: "nat \<Rightarrow> nat \<Rightarrow> string" where
  "digits_of 0 n = []"
| "digits_of (Suc w) n = digits_of w (n div 10) @ [show_digit (n mod 10)]"

lemma digits_of_zero: "digits_of w 0 = replicate w (CHR ''0'')"
proof (induction w)
  case (Suc w)
  have "show_digit 0 = CHR ''0''" by (code_simp)
  with Suc show ?case by (simp add: replicate_append_same)
qed simp

lemma length_show_nat: "0 < length (show_nat n)"
  by (subst show_nat.simps) simp

lemma padded_show_nat:
  "0 < w \<Longrightarrow> n < 10 ^ w \<Longrightarrow> replicate (w - length (show_nat n)) (CHR ''0'') @ show_nat n = digits_of w n"
proof (induction w arbitrary: n)
  case (Suc w)
  show ?case
  proof (cases "n < 10")
    case True
    then have "show_nat n = [show_digit n]" by (subst show_nat.simps) simp
    with True show ?thesis by (simp add: digits_of_zero)
  next
    case False
    then have s: "show_nat n = show_nat (n div 10) @ [show_digit (n mod 10)]" by (subst show_nat.simps) simp
    have "0 < w" using False Suc.prems(2) by (cases w) simp_all
    moreover have "n div 10 < 10 ^ w" using Suc.prems(2) by (simp add: less_mult_imp_div_less mult.commute)
    ultimately show ?thesis using Suc.IH[of "n div 10"] by (simp add: s)
  qed
qed simp

lemma pad_int_digits: "0 < w \<Longrightarrow> 0 \<le> i \<Longrightarrow> i < 10 ^ w \<Longrightarrow> pad_int w i = digits_of w (nat i)"
  using padded_show_nat[of w "nat i"] by (simp add: pad_int_def Let_def nat_less_iff)

lemma show_digit_value: "n < 10 \<Longrightarrow> is_digit (show_digit n) \<and> digit_value (show_digit n) = int n"
  by (simp add: char_class_defs digit_value_def show_digit_def)

lemma digits_value_append: "digits_value (xs @ [c]) acc = 10 * digits_value xs acc + digit_value c"
  by (induction xs arbitrary: acc) simp_all

lemma digits_of_facts:
  "length (digits_of w n) = w" "list_all is_digit (digits_of w n)"
  "n < 10 ^ w \<Longrightarrow> digits_value (digits_of w n) 0 = int n"
proof -
  show "length (digits_of w n) = w" by (induction w arbitrary: n) simp_all
  show "list_all is_digit (digits_of w n)"
    by (induction w arbitrary: n) (simp_all add: show_digit_value)
  show "digits_value (digits_of w n) 0 = int n" if "n < 10 ^ w"
    using that
  proof (induction w arbitrary: n)
    case (Suc w)
    have "n div 10 < 10 ^ w" using Suc.prems by (simp add: less_mult_imp_div_less mult.commute)
    from Suc.IH[OF this] show ?case
      by (simp add: digits_value_append show_digit_value zdiv_int zmod_int)
  qed simp
qed

lemma getnum_padded:
  assumes "0 \<le> i" "i < 100"
  shows "getnum fixed (pad_int 2 i @ s) = Some (i, s)"
proof -
  have n: "nat i < 10 ^ 2" "int (nat i) = i" using assms by simp_all
  have p: "pad_int 2 i = digits_of 2 (nat i)" using assms by (simp add: pad_int_digits)
  obtain a b where ab: "digits_of 2 (nat i) = [a, b]"
    using digits_of_facts(1)[of 2 "nat i"] by (metis length_0_conv length_Suc_conv numeral_2_eq_2)
  show ?thesis
    using digits_of_facts(2)[of 2 "nat i"] digits_of_facts(3)[OF n(1)] n(2) unfolding p ab by simp
qed

lemma get_year_padded:
  assumes "0 \<le> y" "y < 10000"
  shows "get_year (pad_int 4 y @ s) = Some (y, s)"
proof -
  have p: "pad_int 4 y = digits_of 4 (nat y)" using assms by (simp add: pad_int_digits)
  have "digits_value (digits_of 4 (nat y)) 0 = y"
    using digits_of_facts(3)[of "nat y" 4] assms by simp
  then show ?thesis
    by (simp add: get_year_def p digits_of_facts(1,2))
qed

lemma days_in_le: "days_in m y \<le> 31"
  by (simp add: days_in_def)

lemma skip_char_same [simp]: "skip_char c (c # s) = Some s"
  by simp

text \<open>A zone that the text of an instant can name: whole minutes, less than a day.\<close>

definition whole_minutes :: "int \<Rightarrow> bool" where
  "whole_minutes offset \<longleftrightarrow> offset mod 60 = 0 \<and> \<bar>offset\<bar> < 86400"

lemma zone_reads_back:
  assumes "whole_minutes offset"
  shows "get_zone (show_zone offset) = Some (offset, [])" "get_fraction (show_zone offset) = (0, show_zone offset)"
proof -
  define z where "z = \<bar>offset\<bar> div 60"
  have m: "z * 60 = \<bar>offset\<bar>" using assms by (cases "0 \<le> offset") (auto simp: whole_minutes_def z_def)
  have z: "0 \<le> z div 60" "z div 60 < 24" "0 \<le> z mod 60" "z mod 60 < 60"
  proof -
    have "0 \<le> z * 60" "z * 60 < 86400" using assms by (simp_all add: m whole_minutes_def)
    then have "0 \<le> z" "z < 24 * 60" by simp_all
    then show "0 \<le> z div 60" "z div 60 < 24" "0 \<le> z mod 60" "z mod 60 < 60"
      by (simp_all add: pos_imp_zdiv_nonneg_iff div_less_iff_less_mult)
  qed
  have n: "getnum True (pad_int 2 (z div 60) @ s) = Some (z div 60, s)" "getnum True (pad_int 2 (z mod 60)) = Some (z mod 60, [])" for s
    using getnum_padded[of "z div 60" True s] getnum_padded[of "z mod 60" True "[]"] z by simp_all
  have s: "(z div 60 * 60 + z mod 60) * 60 = \<bar>offset\<bar>" using m by simp
  show "get_zone (show_zone offset) = Some (offset, [])"
  proof (cases "offset = 0")
    case False
    then have "0 < z" using m by simp
    with False n z s show ?thesis
      by (auto simp: show_zone_def get_zone_def Let_def simp flip: z_def)
  qed (simp add: show_zone_def get_zone_def)
  show "get_fraction (show_zone offset) = (0, show_zone offset)"
    by (cases "pad_int 2 (z div 60)") (auto simp: show_zone_def Let_def simp flip: z_def)
qed

lemma zone_utc: "show_zone 0 = ''Z''" "whole_minutes 0"
  by (simp_all add: show_zone_def whole_minutes_def)

lemma parse_show_instant:
  assumes zone: "whole_minutes offset" and "0 \<le> y" "y < 10000" "1 \<le> m" "m \<le> 12" "1 \<le> d" "d \<le> days_in m y"
    and "0 \<le> hour" "hour < 100" "0 \<le> minute" "minute < 60" "0 \<le> sec" "sec < 60"
  shows "parse_rfc3339 (show_instant y m d hour minute sec (show_zone offset)) =
           (if hour < 24 then Some (go_date y m d hour minute sec 0 - offset * second_ns) else None)"
proof -
  have d: "0 \<le> d" "d < 100" "0 \<le> m" "m < 100" "minute < 100" "sec < 100"
    using assms days_in_le[of m y] by simp_all
  show ?thesis
    unfolding parse_rfc3339_def show_instant_def
    by (simp add: assms(2-) d get_year_padded getnum_padded zone_reads_back[OF zone] del: getnum.simps get_fraction.simps)
qed

lemma show_nat_digits: "list_all is_digit (show_nat n)"
proof (induction n rule: show_nat.induct)
  case (1 n)
  then show ?case by (subst show_nat.simps) (simp add: show_digit_value)
qed

lemma long_hour:
  assumes "100 \<le> hour"
  shows "\<exists>v c rest. getnum False (pad_int 2 hour @ s) = Some (v, c # rest) \<and> is_digit c"
proof -
  let ?n = "nat hour"
  have "show_nat ?n = show_nat (?n div 10) @ [show_digit (?n mod 10)]"
    "show_nat (?n div 10) = show_nat (?n div 10 div 10) @ [show_digit (?n div 10 mod 10)]"
    using assms by (subst show_nat.simps; simp)+
  moreover obtain a as where "show_nat (?n div 10 div 10) = a # as"
    using length_show_nat[of "?n div 10 div 10"] by (cases "show_nat (?n div 10 div 10)") simp_all
  ultimately have "\<exists>a b c rest. show_nat ?n = a # b # c # rest" by (cases as; cases "tl as") auto
  then obtain a b c rest where abc: "show_nat ?n = a # b # c # rest" by blast
  have "is_digit a" "is_digit b" "is_digit c" using show_nat_digits[of ?n] by (simp_all add: abc)
  with abc show ?thesis using assms by (simp add: pad_int_def Let_def)
qed

text \<open>An hour that is not on the clock is never parsed, however many digits it has.\<close>

lemma parse_late_hour:
  assumes "0 \<le> y" "y < 10000" "1 \<le> m" "m \<le> 12" "1 \<le> d" "d \<le> days_in m y"
    and "24 \<le> hour" "0 \<le> minute" "minute < 60" "0 \<le> sec" "sec < 60"
  shows "parse_rfc3339 (show_instant y m d hour minute sec ''Z'') = None"
proof (cases "hour < 100")
  case True
  then show ?thesis using parse_show_instant[OF zone_utc(2) assms(1-6) _ True assms(8-11)] assms(7)
    by (simp add: zone_utc(1))
next
  case False
  then have "100 \<le> hour" by simp
  from long_hour[OF this, of "CHR '':'' # pad_int 2 minute @ '':'' @ pad_int 2 sec @ ''Z''"]
  obtain v c rest where g: "getnum False (pad_int 2 hour @ CHR '':'' # pad_int 2 minute @ '':'' @ pad_int 2 sec @ ''Z'') =
      Some (v, c # rest)" and c: "is_digit c" by blast
  have "c \<noteq> CHR '':''" using c by (auto simp: char_class_defs)
  moreover have "0 \<le> d" "d < 100" "0 \<le> m" "m < 100"
    using assms days_in_le[of m y] by simp_all
  ultimately show ?thesis
    unfolding parse_rfc3339_def show_instant_def
    using g by (simp add: assms get_year_padded getnum_padded del: getnum.simps get_fraction.simps)
qed

text \<open>An instant formatted and parsed is the instant up to the second, from the year 0 to 9999.\<close>

definition four_digit_year :: "time \<Rightarrow> bool" where
  "four_digit_year t \<longleftrightarrow> (case date_of_days (t div day_ns) of (y, m, d) \<Rightarrow> 0 \<le> y \<and> y < 10000)"

lemma div_day: "t div second_ns div 86400 = t div day_ns"
  by (simp add: second_ns_def day_ns_def zdiv_zmult2_eq[symmetric])

lemma parse_format:
  assumes "four_digit_year (local_time zone u)" "whole_minutes (zone u)"
  shows "parse_rfc3339 (format_rfc3339 zone u) = Some (u - u mod second_ns)"
proof -
  define t where "t = local_time zone u"
  obtain y m d where ymd: "date_of_days (t div day_ns) = (y, m, d)" by (metis prod_cases3)
  define s where "s = t div second_ns mod 86400"
  have y: "0 \<le> y" "y < 10000" using assms(1) by (simp_all add: four_digit_year_def ymd flip: t_def)
  have s: "0 \<le> s" "s < 86400" by (simp_all add: s_def)
  have h: "0 \<le> s div 3600" "s div 3600 < 24" "0 \<le> s mod 3600 div 60" "s mod 3600 div 60 < 60" "0 \<le> s mod 60" "s mod 60 < 60"
    using s by (simp_all add: pos_imp_zdiv_nonneg_iff div_less_iff_less_mult)
  have "s div 3600 * 3600 + s mod 3600 div 60 * 60 + s mod 60 = s"
  proof -
    have "s mod 3600 div 60 * 60 + s mod 3600 mod 60 = s mod 3600" by simp
    moreover have "s mod 3600 mod 60 = s mod 60" by (rule mod_mod_cancel) simp
    ultimately show ?thesis by (simp add: add.assoc)
  qed
  moreover have "t div day_ns * 86400 + s = t div second_ns"
    unfolding s_def div_day[symmetric] by (rule div_mult_mod_eq)
  ultimately have "go_date y m d (s div 3600) (s mod 3600 div 60) (s mod 60) 0 = t div second_ns * second_ns"
    by (simp add: go_date_def date_of_days_valid(5)[OF ymd] add.assoc)
  also have "\<dots> = t - t mod second_ns" by (simp add: minus_mod_eq_div_mult)
  also have "\<dots> - zone u * second_ns = u - u mod second_ns" by (simp add: t_def local_time_def)
  finally show ?thesis
    using parse_show_instant[OF assms(2) y date_of_days_valid(1-4)[OF ymd] h(1) _ h(3-6)] h(2)
    by (simp add: format_rfc3339_def Let_def div_day ymd flip: s_def t_def)
qed

end
