(* ===== verification/SiteController.thy ===== *)
theory SiteController
  imports NetworkingHandler JobHandlers GoTime
begin

text \<open>
  \<^verbatim>\<open>controllers/site/stagingsite_controller.go\<close>: the controller of the staging sites, which runs the
  handlers of the databases, jobs, config maps, workloads and networking objects in stages. The
  environment holds the external functions, the clock with one reading for each place that asks
  for it, the local time zone, and \<^verbatim>\<open>sort.Slice\<close> on backups, whose order among equal elements Go leaves open.
\<close>

record site_env =
  en_x :: externals
  en_clock :: "nat \<Rightarrow> time"
  en_zone :: zone
  en_sort :: "backup list \<Rightarrow> backup list"

record 'w site_clients =
  sk_configs :: "'w config_clients"
  sk_sites :: "('w, staging_site) client"
  sk_mysql :: "('w, mysql_database) client"
  sk_mongo :: "('w, mongo_database) client"
  sk_redis :: "('w, redis_database) client"
  sk_inits :: "('w, db_init_job) client"
  sk_migrations :: "('w, db_migration_job) client"
  sk_backups :: "('w, backup) client"
  sk_config_maps :: "('w, config_map) client"
  sk_deployments :: "('w, deployment) client"
  sk_services :: "('w, kube_service) client"
  sk_ingresses :: "('w, kube_ingress) client"

definition on_status :: "(site_status \<Rightarrow> site_status) \<Rightarrow> staging_site \<Rightarrow> staging_site" where
  "on_status f site = site\<lparr>st_status := f (st_status site)\<rparr>"

abbreviation st_state :: "staging_site \<Rightarrow> site_state" where
  "st_state site \<equiv> su_state (st_status site)"

definition set_site_finalizers :: "string list \<Rightarrow> staging_site \<Rightarrow> staging_site" where
  "set_site_finalizers fs site = site\<lparr>st_meta := (st_meta site)\<lparr>om_finalizers := fs\<rparr>\<rparr>"


section \<open>The next backup\<close>

text \<open>The FNV-1a hash of \<^verbatim>\<open>hash/fnv\<close>.\<close>

definition fnv32a :: "string \<Rightarrow> 32 word" where
  "fnv32a s = fold (\<lambda>c h. Bit_Operations.xor h (of_nat (of_char c)) * 16777619) s 2166136261"

text \<open>The loop \<^verbatim>\<open>for nextRunAt.Before(now)\<close>.\<close>

function advance_days :: "time \<Rightarrow> time \<Rightarrow> time" where
  "advance_days nextRunAt now = (if nextRunAt < now then advance_days (nextRunAt + day_ns) now else nextRunAt)"
  by pat_completeness auto
termination by (relation "measure (\<lambda>(t, now). nat (now - t))") (simp_all add: day_ns_def)

declare advance_days.simps [simp del]

text \<open>
  The year, month and day are those of the local clock, the hour is one of UTC.
\<close>

definition getNextBackupTimeForSite :: "zone \<Rightarrow> time \<Rightarrow> staging_site \<Rightarrow> go_error + time option" where
  "getNextBackupTimeForSite zone now site =
     (case sp_backup_hour (st_spec site) of
        None \<Rightarrow> Inr None
      | Some hour \<Rightarrow>
          if sint hour < 0 then Inr None
          else let offsetSeconds = fnv32a (st_name site) mod 3600;
                   minutes = offsetSeconds div 60;
                   seconds = offsetSeconds mod 60
               in case date_of_days (local_time zone now div day_ns) of
                    (y, m, d) \<Rightarrow>
                      (case parse_rfc3339 (show_instant y m d (sint hour) (uint minutes) (uint seconds) ''Z'') of
                         None \<Rightarrow> Inl (PlainError ''parsing time'')
                       | Some nextRunAt \<Rightarrow> Inr (Some (advance_days nextRunAt now))))"


section \<open>The status\<close>

text \<open>
  The time of the last change of the spec comes from an annotation, which is written with the
  current time when it is missing or cannot be read. The result says whether it must be written.
\<close>

definition spec_change_time :: "zone \<Rightarrow> time \<Rightarrow> staging_site \<Rightarrow> bool \<times> time \<times> staging_site" where
  "spec_change_time zone now site =
     (let annotated = site\<lparr>st_meta := (st_meta site)\<lparr>om_annotations :=
            AList.update StagingSiteLastSpecChangeAt (format_rfc3339 zone now) (om_annotations (st_meta site))\<rparr>\<rparr>;
          annotation = lookup_or [] (om_annotations (st_meta site)) StagingSiteLastSpecChangeAt
      in if annotation = [] then (True, now, annotated)
         else case parse_rfc3339 annotation of
                None \<Rightarrow> (True, now, annotated)
              | Some t \<Rightarrow> (False, t, site))"

definition scheduled_time :: "time \<Rightarrow> time_interval \<Rightarrow> time option \<Rightarrow> bool \<times> time option" where
  "scheduled_time lastSpecChangedAt interval current =
     (if ti_never interval then (current \<noteq> None, None)
      else let at = Some (time_add lastSpecChangedAt (ToDuration interval)) in (current \<noteq> at, at))"

definition update_schedule :: "time \<Rightarrow> staging_site \<Rightarrow> bool \<times> staging_site" where
  "update_schedule lastSpecChangedAt site =
     (case scheduled_time lastSpecChangedAt (sp_disable_after (st_spec site)) (su_disable_at (st_status site)) of
        (c1, disableAt) \<Rightarrow>
          (case scheduled_time lastSpecChangedAt (sp_delete_after (st_spec site)) (su_delete_at (st_status site)) of
             (c2, deleteAt) \<Rightarrow>
               (c1 \<or> c2, on_status (\<lambda>s. s\<lparr>su_disable_at := disableAt, su_delete_at := deleteAt\<rparr>) site)))"

definition update_enabled :: "time \<Rightarrow> staging_site \<Rightarrow> bool \<times> staging_site" where
  "update_enabled now site =
     (let expectedEnabled = (sp_enabled (st_spec site) \<and>
            (su_disable_at (st_status site) = None \<or> now < the (su_disable_at (st_status site))))
      in if su_enabled (st_status site) \<noteq> expectedEnabled
         then (True, on_status (\<lambda>s. s\<lparr>su_enabled := expectedEnabled, su_state := StatePending\<rparr>) site)
         else (False, site))"

definition update_last_applied :: "time \<Rightarrow> staging_site \<Rightarrow> bool \<times> staging_site" where
  "update_last_applied lastSpecChangedAt site =
     (if su_last_applied (st_status site) = None \<or> the (su_last_applied (st_status site)) < lastSpecChangedAt
      then (True, on_status (\<lambda>s. s\<lparr>su_last_applied := Some lastSpecChangedAt\<rparr>) site)
      else (False, site))"

fun load_status_configs ::
  "('w, service_config) client \<Rightarrow> string \<Rightarrow> 'w \<Rightarrow> string list \<Rightarrow> service_config gomap \<Rightarrow>
   go_error + service_config gomap" where
  "load_status_configs cfgs ns w [] acc = Inr acc"
| "load_status_configs cfgs ns w (name # names) acc =
     (case cl_get cfgs ns name w of
        Inl err \<Rightarrow> Inl err
      | Inr config \<Rightarrow> load_status_configs cfgs ns w names (AList.update (sc_name config) config acc))"

text \<open>
  The loop over the service statuses: known services get their names, unknown ones are dropped.
  It leaves the configurations that have no status yet.
\<close>

fun sync_service_statuses ::
  "digest \<Rightarrow> staging_site \<Rightarrow> service_status gomap \<Rightarrow> bool \<times> service_status gomap \<times> service_config gomap \<Rightarrow>
   bool \<times> service_status gomap \<times> service_config gomap" where
  "sync_service_statuses md5 site [] acc = acc"
| "sync_service_statuses md5 site (ns # nss) (isChanged, services, configs) =
     (case map_of configs (fst ns) of
        Some config \<Rightarrow>
          let expectedUsername = MakeUsername md5 site config;
              expectedDbName = MakeDatabaseName md5 site config
          in sync_service_statuses md5 site nss
               (isChanged,
                if sst_username (snd ns) \<noteq> expectedUsername \<or> sst_db_name (snd ns) \<noteq> expectedDbName
                then AList.update (fst ns)
                       ((snd ns)\<lparr>sst_username := expectedUsername, sst_db_name := expectedDbName\<rparr>) services
                else services,
                AList.delete (fst ns) configs)
      | None \<Rightarrow> sync_service_statuses md5 site nss (True, AList.delete (fst ns) services, configs))"

definition new_service_status :: "digest \<Rightarrow> staging_site \<Rightarrow> service_config \<Rightarrow> service_status" where
  "new_service_status md5 site config =
     zero_service_status\<lparr>sst_username := MakeUsername md5 site config, sst_db_name := MakeDatabaseName md5 site config\<rparr>"

definition update_services ::
  "externals \<Rightarrow> staging_site \<Rightarrow> service_config gomap \<Rightarrow> bool \<times> staging_site" where
  "update_services x site serviceConfigs =
     (case sync_service_statuses (ex_md5 x) site (go_range (ex_order x) 61 (su_services (st_status site)))
             (False, su_services (st_status site), serviceConfigs) of
        (isChanged, services, configs) \<Rightarrow>
          (isChanged \<or> configs \<noteq> [],
           on_status (\<lambda>s. s\<lparr>su_services :=
               fold (\<lambda>nc. AList.update (fst nc) (new_service_status (ex_md5 x) site (snd nc)))
                 (go_range (ex_order x) 62 configs) services\<rparr>) site))"

definition update_health :: "staging_site \<Rightarrow> staging_site" where
  "update_health site =
     (if su_health (st_status site) = WorkloadHealthUnset
      then on_status (\<lambda>s. s\<lparr>su_health := WorkloadHealthIncomplete\<rparr>) site else site)"

text \<open>With an error the time is nil already, and the caller returns at once.\<close>

definition update_next_backup :: "zone \<Rightarrow> time \<Rightarrow> staging_site \<Rightarrow> go_error option \<times> bool \<times> staging_site" where
  "update_next_backup zone now site =
     (case sp_backup_hour (st_spec site) of
        Some hour \<Rightarrow>
          if su_next_backup (st_status site) = None \<or> go_hour (the (su_next_backup (st_status site))) \<noteq> sint hour
          then (case getNextBackupTimeForSite zone now site of
                  Inl err \<Rightarrow> (Some err, False, on_status (\<lambda>s. s\<lparr>su_next_backup := None\<rparr>) site)
                | Inr t \<Rightarrow> (None, True, on_status (\<lambda>s. s\<lparr>su_next_backup := t\<rparr>) site))
          else (None, False, site)
      | None \<Rightarrow>
          if su_next_backup (st_status site) \<noteq> None
          then (None, True, on_status (\<lambda>s. s\<lparr>su_next_backup := None\<rparr>) site)
          else (None, False, site))"

text \<open>The loop over the backups of the site: it also takes control of backups without an owner.\<close>

record backup_scan =
  bs_last :: "time option"
  bs_changed :: bool
  bs_finished :: "backup list"
  bs_claimed :: bool

definition scan_backup :: "backup \<Rightarrow> backup_scan \<Rightarrow> backup_scan" where
  "scan_backup b s =
     (let s = (if bd_state (bk_detail b) = JobComplete \<and> bd_finished (bk_detail b) \<noteq> None \<and>
                  (bs_last s = None \<or> the (bs_last s) < the (bd_finished (bk_detail b)))
               then s\<lparr>bs_last := bd_finished (bk_detail b), bs_changed := True\<rparr> else s)
      in if JobState_IsFinal (bd_state (bk_detail b)) then s\<lparr>bs_finished := bs_finished s @ [b]\<rparr> else s)"

fun claim_backups ::
  "set_ref \<Rightarrow> ('w, backup) client \<Rightarrow> object_meta \<Rightarrow> backup list \<Rightarrow> backup_scan \<Rightarrow> 'w \<Rightarrow>
   (go_error option \<times> backup_scan) \<times> 'w" where
  "claim_backups setref bks owner [] s w = ((None, s), w)"
| "claim_backups setref bks owner (b # bs) s w =
     (let s = scan_backup b s
      in if om_controller (bk_meta b) \<noteq> None then claim_backups setref bks owner bs s w
         else case setref owner (bk_meta b) of
                Inl err \<Rightarrow> ((Some err, s), w)
              | Inr meta \<Rightarrow>
                  (case cl_update bks (b\<lparr>bk_meta := meta\<rparr>) w of
                     (Inl err, w') \<Rightarrow> ((Some err, s), w')
                   | (Inr _, w') \<Rightarrow> claim_backups setref bks owner bs (s\<lparr>bs_claimed := True\<rparr>) w'))"

text \<open>The comparison of \<^verbatim>\<open>sort.Slice\<close>: a backup that never started comes first.\<close>

fun started_before :: "backup \<Rightarrow> backup \<Rightarrow> bool" where
  "started_before a b =
     (case (bd_started (bk_detail a), bd_started (bk_detail b)) of
        (None, s) \<Rightarrow> s \<noteq> None
      | (Some s, None) \<Rightarrow> False
      | (Some s, Some t) \<Rightarrow> s < t)"

definition old_backups :: "(backup list \<Rightarrow> backup list) \<Rightarrow> backup list \<Rightarrow> backup list" where
  "old_backups srt finishedBackups =
     (if length finishedBackups > 3 then take (length finishedBackups - 3) (srt finishedBackups) else [])"

type_synonym 'w status_result = "(go_error option \<times> bool \<times> staging_site) \<times> 'w"

definition update_backups :: "site_env \<Rightarrow> 'w site_clients \<Rightarrow> bool \<Rightarrow> staging_site \<Rightarrow> 'w \<Rightarrow> 'w status_result" where
  "update_backups e cl isChanged site w =
     (case cl_list_field (sk_backups cl) (st_namespace site) index_SiteName (st_name site) w of
        Inl err \<Rightarrow> ((Some err, isChanged, site), w)
      | Inr items \<Rightarrow>
          (case claim_backups (ex_set_ref (en_x e)) (sk_backups cl) (st_meta site) items
                  \<lparr>bs_last = su_last_backup (st_status site), bs_changed = isChanged, bs_finished = [], bs_claimed = False\<rparr> w of
             ((Some err, s), w') \<Rightarrow> ((Some err, bs_changed s, site), w')
           | ((None, s), w') \<Rightarrow>
               let newer = (bs_last s \<noteq> None \<and> (su_last_backup (st_status site) = None \<or>
                              the (su_last_backup (st_status site)) < the (bs_last s)));
                   site = (if newer then on_status (\<lambda>t. t\<lparr>su_last_backup := bs_last s\<rparr>) site else site);
                   isChanged = bs_changed s \<or> newer
               in if bs_claimed s then ((None, True, site), w')
                  else (case write_list (cl_delete (sk_backups cl)) (old_backups (en_sort e) (bs_finished s)) w' of
                          (err, w'') \<Rightarrow> ((err, isChanged, site), w''))))"

definition ensureStatusIsUpToDate :: "site_env \<Rightarrow> 'w site_clients \<Rightarrow> staging_site \<Rightarrow> 'w \<Rightarrow> 'w status_result" where
  "ensureStatusIsUpToDate e cl site w =
     (let site = (if st_state site = StateUnset then on_status (\<lambda>s. s\<lparr>su_state := StatePending\<rparr>) site else site)
      in case spec_change_time (en_zone e) (en_clock e 0) site of
           (annotationNeedsUpdate, lastSpecChangedAt, site) \<Rightarrow>
             if annotationNeedsUpdate
             then (case cl_update (sk_sites cl) site w of
                     (Inl err, w') \<Rightarrow> ((Some err, False, site), w')
                   | (Inr site', w') \<Rightarrow> ((None, True, site'), w'))
             else (case update_schedule lastSpecChangedAt site of
               (c1, site) \<Rightarrow> (case update_enabled (en_clock e 1) site of
               (c2, site) \<Rightarrow> (case update_last_applied lastSpecChangedAt site of
               (c3, site) \<Rightarrow>
                 (case load_status_configs (cc_service (sk_configs cl)) (st_namespace site) w
                         (map fst (go_range (ex_order (en_x e)) 60 (site_services site))) [] of
                    Inl err \<Rightarrow> ((Some err, False, site), w)
                  | Inr serviceConfigs \<Rightarrow>
                      (case update_services (en_x e) site serviceConfigs of
                         (c4, site) \<Rightarrow> (case update_next_backup (en_zone e) (en_clock e 2) (update_health site) of
                         (Some err, c5, site) \<Rightarrow> ((Some err, c1 \<or> c2 \<or> c3 \<or> c4, site), w)
                       | (None, c5, site) \<Rightarrow> update_backups e cl (c1 \<or> c2 \<or> c3 \<or> c4 \<or> c5) site w)))))))"

definition resetStatusErrors :: "staging_site \<Rightarrow> staging_site" where
  "resetStatusErrors site =
     (if st_state site = StateFailed then on_status (\<lambda>s. s\<lparr>su_state := StatePending, su_error := []\<rparr>) site else site)"


section \<open>The stages\<close>

text \<open>A stage returns whether the status has changed, or an error, and the site as it left it.\<close>

type_synonym 'w stage_result = "((go_error + bool) \<times> staging_site) \<times> 'w"

fun run_handlers ::
  "(staging_site \<Rightarrow> 'w \<Rightarrow> (go_error + bool) \<times> staging_site \<times> 'w) list \<Rightarrow> staging_site \<Rightarrow> 'w \<Rightarrow>
   go_error option \<times> staging_site \<times> 'w" where
  "run_handlers [] site w = (None, site, w)"
| "run_handlers (h # hs) site w =
     (case h site w of
        (Inl err, site, w') \<Rightarrow> (Some err, site, w')
      | (Inr isComplete, site, w') \<Rightarrow>
          run_handlers hs (on_status (\<lambda>s. s\<lparr>su_db_created := su_db_created s \<and> isComplete\<rparr>) site) w')"

definition created_handlers ::
  "externals \<Rightarrow> 'w site_clients \<Rightarrow> (staging_site \<Rightarrow> 'w \<Rightarrow> (go_error + bool) \<times> staging_site \<times> 'w) list" where
  "created_handlers x cl =
     (let cfgs = cc_service (sk_configs cl)
      in [\<lambda>site w. map_prod id (Pair site)
            (Mysql_EnsureDatabasesAreCreated (ex_md5 x) (ex_set_ref x) (ex_order x) cfgs (sk_mysql cl) site w),
          \<lambda>site w. map_prod id (Pair site)
            (Mongo_EnsureDatabasesAreCreated (ex_md5 x) (ex_set_ref x) (ex_order x) cfgs (sk_mongo cl) site w),
          \<lambda>site w. Redis_EnsureDatabasesAreCreated (ex_md5 x) (ex_set_ref x) (ex_order x) cfgs
            (cc_redis (sk_configs cl)) (sk_redis cl) site w])"

definition ready_handlers ::
  "'w site_clients \<Rightarrow> (staging_site \<Rightarrow> 'w \<Rightarrow> (go_error + bool) \<times> staging_site \<times> 'w) list" where
  "ready_handlers cl =
     [\<lambda>site w. (Mysql_EnsureDatabasesAreReady (sk_mysql cl) site w, site, w),
      \<lambda>site w. (Mongo_EnsureDatabasesAreReady (sk_mongo cl) site w, site, w),
      \<lambda>site w. (Redis_EnsureDatabasesAreReady (sk_redis cl) site w, site, w)]"

definition ensureDatabasesAreCreated :: "externals \<Rightarrow> 'w site_clients \<Rightarrow> staging_site \<Rightarrow> 'w \<Rightarrow> 'w stage_result" where
  "ensureDatabasesAreCreated x cl site w =
     (let originalCompletion = su_db_created (st_status site)
      in case run_handlers (created_handlers x cl) (on_status (\<lambda>s. s\<lparr>su_db_created := True\<rparr>) site) w of
           (Some err, site, w') \<Rightarrow> ((Inl err, site), w')
         | (None, site, w') \<Rightarrow>
             (case run_handlers (ready_handlers cl) (on_status (\<lambda>s. s\<lparr>su_db_initialised := True\<rparr>) site) w' of
                (Some err, site, w'') \<Rightarrow> ((Inl err, site), w'')
              | (None, site, w'') \<Rightarrow>
                  ((Inr (originalCompletion \<noteq> su_db_created (st_status site)), site), w'')))"

definition ensureDatabasesAreInitialised :: "externals \<Rightarrow> 'w site_clients \<Rightarrow> staging_site \<Rightarrow> 'w \<Rightarrow> 'w stage_result" where
  "ensureDatabasesAreInitialised x cl site w =
     (let originalCompletion = su_db_initialised (st_status site);
          site = on_status (\<lambda>s. s\<lparr>su_db_initialised := True\<rparr>) site
      in case DbInit_EnsureJobsAreCreated (ex_md5 x) (ex_set_ref x) (ex_order x) (cc_service (sk_configs cl))
                (sk_inits cl) site w of
           (Inl err, w') \<Rightarrow> ((Inl err, site), w')
         | (Inr isComplete, w') \<Rightarrow>
             let site = on_status (\<lambda>s. s\<lparr>su_db_initialised := su_db_initialised s \<and> isComplete\<rparr>) site
             in case DbInit_EnsureJobsAreComplete (sk_inits cl) site w' of
                  Inl err \<Rightarrow> ((Inl err, site), w')
                | Inr isComplete \<Rightarrow>
                    let site = on_status (\<lambda>s. s\<lparr>su_db_initialised := su_db_initialised s \<and> isComplete\<rparr>) site
                    in ((Inr (originalCompletion \<noteq> su_db_initialised (st_status site)), site), w'))"

definition ensureDatabaseMigrationJobsAreCreated ::
  "externals \<Rightarrow> 'w site_clients \<Rightarrow> staging_site \<Rightarrow> 'w \<Rightarrow> 'w stage_result" where
  "ensureDatabaseMigrationJobsAreCreated x cl site w =
     (let originalCompletion = su_db_migrated (st_status site);
          site = on_status (\<lambda>s. s\<lparr>su_db_migrated := True\<rparr>) site
      in case DbMigration_EnsureJobsAreCreated (ex_md5 x) (ex_set_ref x) (ex_order x) (cc_service (sk_configs cl))
                (sk_migrations cl) site w of
           (Inl err, w') \<Rightarrow> ((Inl err, site), w')
         | (Inr isComplete, w') \<Rightarrow>
             let site = on_status (\<lambda>s. s\<lparr>su_db_migrated := su_db_migrated s \<and> isComplete\<rparr>) site
             in case DbMigration_EnsureJobsAreComplete (sk_migrations cl) site w' of
                  Inl err \<Rightarrow> ((Inl err, site), w')
                | Inr isComplete \<Rightarrow>
                    let site = on_status (\<lambda>s. s\<lparr>su_db_migrated := su_db_migrated s \<and> isComplete\<rparr>) site
                    in ((Inr (originalCompletion \<noteq> su_db_migrated (st_status site)), site), w'))"

definition ensureConfigsAreUpToDate :: "externals \<Rightarrow> 'w site_clients \<Rightarrow> staging_site \<Rightarrow> 'w \<Rightarrow> 'w stage_result" where
  "ensureConfigsAreUpToDate x cl site w = EnsureConfigsAreUpToDate x (sk_configs cl) (sk_config_maps cl) site w"

definition ensureWorkloadObjectsAreUpToDate :: "externals \<Rightarrow> 'w site_clients \<Rightarrow> staging_site \<Rightarrow> 'w \<Rightarrow> 'w stage_result" where
  "ensureWorkloadObjectsAreUpToDate x cl site w =
     EnsureWorkloadObjectsAreUpToDate x (sk_configs cl) (sk_deployments cl) site w"

definition ensureNetworkingObjectsAreUpToDate ::
  "externals \<Rightarrow> 'w site_clients \<Rightarrow> staging_site \<Rightarrow> 'w \<Rightarrow> 'w stage_result" where
  "ensureNetworkingObjectsAreUpToDate x cl site w =
     EnsureNetworkingObjectsAreUpToDate x (sk_configs cl) (sk_services cl) (sk_ingresses cl) site w"


section \<open>Saving the status\<close>

definition setSiteState :: "staging_site \<Rightarrow> staging_site" where
  "setSiteState site =
     (let s = st_status site
      in if su_state s = StateFailed then site
         else if su_db_created s \<and> su_db_initialised s \<and> su_db_migrated s \<and> su_configs s \<and> su_networking s \<and>
                 su_workloads s \<and> om_deletion (st_meta site) = None
         then on_status (\<lambda>s. s\<lparr>su_state := StateComplete\<rparr>) site
         else on_status (\<lambda>s. s\<lparr>su_state := StatePending, su_health := WorkloadHealthIncomplete\<rparr>) site)"

text \<open>
  What \<^verbatim>\<open>SaveStatusUpdatesIfObjectChanged\<close> decides before it calls the function of the same name in
  \<^verbatim>\<open>controllers/helpers.go\<close>.
\<close>

definition fail_if_final ::
  "bool \<Rightarrow> staging_site \<Rightarrow> ctrl_result \<Rightarrow> go_error option \<Rightarrow> bool \<times> staging_site \<times> ctrl_result \<times> go_error option" where
  "fail_if_final isChanged site result err =
     (case err of
        None \<Rightarrow> (isChanged, site, result, None)
      | Some er \<Rightarrow>
          (case (if IsControllerError er \<and> IsFinal er
                 then (True, on_status (\<lambda>s. s\<lparr>su_state := StateFailed, su_error := error_string er\<rparr>) site, no_requeue, None)
                 else (isChanged, site, result, err)) of
             (isChanged, site, result, err) \<Rightarrow>
               (isChanged \<or> st_state site = StateFailed, site, result, err)))"

definition Site_SaveStatusUpdatesIfObjectChanged ::
  "('w, staging_site) client \<Rightarrow> bool \<Rightarrow> staging_site \<Rightarrow> ctrl_result \<Rightarrow> go_error option \<Rightarrow> 'w \<Rightarrow>
   reconcile_result \<times> 'w" where
  "Site_SaveStatusUpdatesIfObjectChanged sites isChanged site result err w =
     (case fail_if_final isChanged site result err of
        (isChanged, site, result, err) \<Rightarrow>
          SaveStatusUpdatesIfObjectChanged isChanged sites (setSiteState site) result err w)"


section \<open>The reconcile call\<close>

text \<open>The two ways in which the source returns: at once, or by saving the status.\<close>

datatype site_outcome =
    Return ctrl_result "go_error option"
  | SaveStatus bool staging_site ctrl_result "go_error option"

definition handleBackup :: "site_env \<Rightarrow> 'w site_clients \<Rightarrow> staging_site \<Rightarrow> 'w \<Rightarrow> 'w status_result" where
  "handleBackup e cl site w =
     (case Backup_Create (ex_md5 (en_x e)) (ex_set_ref (en_x e)) (sk_backups cl) site BackupTypeScheduled (en_clock e 5) w of
        (Some err, w') \<Rightarrow> ((Some err, False, site), w')
      | (None, w') \<Rightarrow>
          (case getNextBackupTimeForSite (en_zone e) (en_clock e 6) site of
             Inl err \<Rightarrow> ((Some err, True, on_status (\<lambda>s. s\<lparr>su_next_backup := None\<rparr>) site), w')
           | Inr t \<Rightarrow> ((None, True, on_status (\<lambda>s. s\<lparr>su_next_backup := t\<rparr>) site), w')))"

definition appendFinalizer :: "('w, staging_site) client \<Rightarrow> staging_site \<Rightarrow> 'w \<Rightarrow> reconcile_result \<times> 'w" where
  "appendFinalizer sites site w =
     (case cl_update sites (set_site_finalizers (om_finalizers (st_meta site) @ [SiteFinalizerName]) site) w of
        (Inl err, w') \<Rightarrow> ((no_requeue, Some err), w')
      | (Inr _, w') \<Rightarrow> ((requeue_now, None), w'))"

definition remove_site_finalizer :: "('w, staging_site) client \<Rightarrow> staging_site \<Rightarrow> 'w \<Rightarrow> reconcile_result \<times> 'w" where
  "remove_site_finalizer sites site w =
     (case cl_update sites
             (set_site_finalizers (RemoveStringFromSlice (om_finalizers (st_meta site)) SiteFinalizerName) site) w of
        (Inl err, w') \<Rightarrow> ((no_requeue, Some err), w')
      | (Inr _, w') \<Rightarrow> ((no_requeue, None), w'))"

definition handleDelete :: "site_env \<Rightarrow> 'w site_clients \<Rightarrow> staging_site \<Rightarrow> 'w \<Rightarrow> reconcile_result \<times> 'w" where
  "handleDelete e cl site w =
     (if \<not> SliceContainsString (om_finalizers (st_meta site)) SiteFinalizerName then ((no_requeue, None), w)
      else if st_state site \<noteq> StatePending
      then Site_SaveStatusUpdatesIfObjectChanged (sk_sites cl) True
             (on_status (\<lambda>s. s\<lparr>su_state := StatePending\<rparr>) site) requeue_now None w
      else if sp_backup_before_delete (st_spec site)
      then (case Backup_EnsureFinalBackupIsComplete (ex_md5 (en_x e)) (ex_set_ref (en_x e)) (sk_backups cl)
                   (en_clock e 0) site w of
              (Inl err, w') \<Rightarrow> ((no_requeue, Some err), w')
            | (Inr complete, w') \<Rightarrow>
                if complete then remove_site_finalizer (sk_sites cl) site w' else ((no_requeue, None), w'))
      else remove_site_finalizer (sk_sites cl) site w)"

definition overdue :: "time option \<Rightarrow> time \<Rightarrow> bool" where
  "overdue t now \<longleftrightarrow> (case t of None \<Rightarrow> False | Some s \<Rightarrow> s < now)"

definition getCtrlResultWithRecheckInterval :: "time \<Rightarrow> staging_site \<Rightarrow> ctrl_result" where
  "getCtrlResultWithRecheckInterval now site =
     (let s = st_status site;
          disableAt = (if su_enabled s then su_disable_at s else None)
      in if overdue disableAt now \<or> overdue (su_delete_at s) now \<or> overdue (su_next_backup s) now then requeue_now
         else let times = List.map_filter id [disableAt, su_delete_at s, su_next_backup s]
              in if times = [] then no_requeue
                 else \<lparr>rs_requeue = False, rs_after = time_sub (hd (sort times)) now\<rparr>)"

definition site_workload_stages ::
  "site_env \<Rightarrow> 'w site_clients \<Rightarrow> bool \<Rightarrow> staging_site \<Rightarrow> 'w \<Rightarrow> site_outcome \<times> 'w" where
  "site_workload_stages e cl isSiteChanged site w =
     (case ensureWorkloadObjectsAreUpToDate (en_x e) cl site w of
        ((Inl err, site), w1) \<Rightarrow> (SaveStatus isSiteChanged site no_requeue (Some err), w1)
      | ((Inr changed, site), w1) \<Rightarrow>
          let isSiteChanged = isSiteChanged \<or> changed
          in case ensureNetworkingObjectsAreUpToDate (en_x e) cl site w1 of
               ((Inl err, site), w2) \<Rightarrow> (SaveStatus isSiteChanged site no_requeue (Some err), w2)
             | ((Inr changed, site), w2) \<Rightarrow>
                 let isSiteChanged = isSiteChanged \<or> changed \<or> st_state site \<noteq> StateComplete;
                     site = on_status (\<lambda>s. s\<lparr>su_state := StateComplete\<rparr>) site
                 in if overdue (su_next_backup (st_status site)) (en_clock e 4)
                    then (case handleBackup e cl site w2 of
                            ((err, changed, site), w3) \<Rightarrow>
                              (SaveStatus (isSiteChanged \<or> changed) site
                                 (getCtrlResultWithRecheckInterval (en_clock e 7) site) err, w3))
                    else (SaveStatus isSiteChanged site (getCtrlResultWithRecheckInterval (en_clock e 7) site) None, w2))"

definition site_database_stages ::
  "site_env \<Rightarrow> 'w site_clients \<Rightarrow> bool \<Rightarrow> staging_site \<Rightarrow> 'w \<Rightarrow> site_outcome \<times> 'w" where
  "site_database_stages e cl isSiteChanged site w =
     (case ensureDatabasesAreInitialised (en_x e) cl site w of
        ((Inl err, site), w1) \<Rightarrow> (SaveStatus isSiteChanged site no_requeue (Some err), w1)
      | ((Inr changed, site), w1) \<Rightarrow>
          let isSiteChanged = isSiteChanged \<or> changed
          in if \<not> su_db_initialised (st_status site) then (SaveStatus isSiteChanged site no_requeue None, w1)
             else case ensureDatabaseMigrationJobsAreCreated (en_x e) cl site w1 of
                    ((Inl err, site), w2) \<Rightarrow> (SaveStatus isSiteChanged site no_requeue (Some err), w2)
                  | ((Inr changed, site), w2) \<Rightarrow>
                      let isSiteChanged = isSiteChanged \<or> changed
                      in if \<not> su_db_migrated (st_status site)
                         then (SaveStatus isSiteChanged site no_requeue None, w2)
                         else site_workload_stages e cl isSiteChanged site w2)"

definition site_stages :: "site_env \<Rightarrow> 'w site_clients \<Rightarrow> staging_site \<Rightarrow> 'w \<Rightarrow> site_outcome \<times> 'w" where
  "site_stages e cl site w =
     (case ensureDatabasesAreCreated (en_x e) cl site w of
        ((Inl err, site), w1) \<Rightarrow> (SaveStatus False site no_requeue (Some err), w1)
      | ((Inr isSiteChanged, site), w1) \<Rightarrow>
          (case ensureConfigsAreUpToDate (en_x e) cl site w1 of
             ((Inl err, site), w2) \<Rightarrow> (SaveStatus isSiteChanged site no_requeue (Some err), w2)
           | ((Inr changed, site), w2) \<Rightarrow>
               let isSiteChanged = isSiteChanged \<or> changed
               in if \<not> su_configs (st_status site) \<or> \<not> su_db_created (st_status site)
                  then (SaveStatus isSiteChanged site no_requeue None, w2)
                  else site_database_stages e cl isSiteChanged site w2))"

definition site_live :: "site_env \<Rightarrow> 'w site_clients \<Rightarrow> staging_site \<Rightarrow> 'w \<Rightarrow> site_outcome \<times> 'w" where
  "site_live e cl site w =
     (case ensureStatusIsUpToDate e cl site w of
        ((err, changed, site), w1) \<Rightarrow>
          if err \<noteq> None \<or> changed
          then (SaveStatus changed site (if changed \<and> err = None then requeue_now else no_requeue) err, w1)
          else let site = resetStatusErrors site
               in if overdue (su_delete_at (st_status site)) (en_clock e 3)
                  then (case cl_delete (sk_sites cl) site w1 of
                          (Inl err, w2) \<Rightarrow> (Return no_requeue (Some err), w2)
                        | (Inr _, w2) \<Rightarrow> (Return no_requeue None, w2))
                  else site_stages e cl site w1)"

definition finish_reconcile :: "'w site_clients \<Rightarrow> site_outcome \<times> 'w \<Rightarrow> reconcile_result \<times> 'w" where
  "finish_reconcile cl out =
     (case out of
        (Return result err, w) \<Rightarrow> ((result, err), w)
      | (SaveStatus isChanged site result err, w) \<Rightarrow>
          Site_SaveStatusUpdatesIfObjectChanged (sk_sites cl) isChanged site result err w)"

definition Site_doReconcile ::
  "site_env \<Rightarrow> 'w site_clients \<Rightarrow> string \<Rightarrow> string \<Rightarrow> 'w \<Rightarrow> reconcile_result \<times> 'w" where
  "Site_doReconcile e cl ns name w =
     (case cl_get (sk_sites cl) ns name w of
        Inl err \<Rightarrow> ((no_requeue, ignore_not_found err), w)
      | Inr site \<Rightarrow>
          if om_deletion (st_meta site) \<noteq> None then handleDelete e cl site w
          else if \<not> SliceContainsString (om_finalizers (st_meta site)) SiteFinalizerName
          then appendFinalizer (sk_sites cl) site w
          else finish_reconcile cl (site_live e cl site w))"


section \<open>The indexes\<close>

text \<open>The functions that \<^verbatim>\<open>SetupWithManager\<close> registers with the field indexer.\<close>

definition service_config_index :: "string \<Rightarrow> service_config \<Rightarrow> string list" where
  "service_config_index field config =
     (if field = index_ShortName then [sc_short_name config]
      else if field = index_DefaultMongoEnvironment then [sc_default_mongo config]
      else if field = index_DefaultMysqlEnvironment then [sc_default_mysql config]
      else if field = index_DefaultRedisEnvironment then [sc_default_redis config]
      else [])"

definition backup_index :: "string \<Rightarrow> backup \<Rightarrow> string list" where
  "backup_index field b = (if field = index_SiteName then [bk_site b] else [])"

end
