(* ===== verification/SiteHandlerProperties.thy ===== *)
theory SiteHandlerProperties
  imports NetworkingHandler DbInitProperties
begin

text \<open>
  The config maps of a site converge in one pass, with the interpretations of \<open>store_kind\<close> for the
  config maps, services and ingresses. The workloads are in \<open>WorkloadProperties\<close>, the convergence
  of services and ingresses in \<open>NetworkingProperties\<close>.
\<close>

section \<open>Convergence\<close>

definition has_data :: "config_map \<Rightarrow> bool" where
  "has_data c \<longleftrightarrow> (case cm_data c of None \<Rightarrow> False | Some m \<Rightarrow> wf_map m)"

interpretation configmap: store_kind cm_key same_data set_data has_data cm_meta
proof (unfold_locales, goal_cases)
  case (1 e x)
  then show ?case by (auto simp: same_data_def set_data_def has_data_def map_eq_refl split: option.splits)
next
  case (3 e)
  then show ?case by (auto simp: same_data_def has_data_def map_eq_refl split: option.splits)
qed (simp_all add: cm_key_def set_data_def obj_key_def selects_def)

interpretation kservice: store_kind ks_service "\<lambda>s e. True" "\<lambda>s e. s" "\<lambda>s. True" ks_meta
  by unfold_locales (simp_all add: obj_key_def)

interpretation kingress: store_kind ki_service "\<lambda>s e. True" "\<lambda>s e. s" "\<lambda>s. True" ki_meta
  by unfold_locales (simp_all add: obj_key_def)

text \<open>Configurations that do not change between two passes.\<close>

definition static_configs :: "'w config_clients \<Rightarrow> bool" where
  "static_configs cc \<longleftrightarrow>
     (\<forall>ns n w w'. cl_get (cc_service cc) ns n w = cl_get (cc_service cc) ns n w') \<and>
     (\<forall>ns sel w w'. cl_list (cc_service cc) ns sel w = cl_list (cc_service cc) ns sel w' \<and>
        cl_list (cc_mysql cc) ns sel w = cl_list (cc_mysql cc) ns sel w' \<and>
        cl_list (cc_mongo cc) ns sel w = cl_list (cc_mongo cc) ns sel w' \<and>
        cl_list (cc_redis cc) ns sel w = cl_list (cc_redis cc) ns sel w')"

lemma static_configsD:
  assumes "static_configs cc"
  shows "cl_get (cc_service cc) ns n w = cl_get (cc_service cc) ns n w'"
    "LoadConfigs cc w handler = LoadConfigs cc w' handler"
proof -
  show "cl_get (cc_service cc) ns n w = cl_get (cc_service cc) ns n w'"
    using assms unfolding static_configs_def by blast
  have l: "cl_list (cc_service cc) ns' sel w = cl_list (cc_service cc) ns' sel w'"
    "cl_list (cc_mysql cc) ns' sel w = cl_list (cc_mysql cc) ns' sel w'"
    "cl_list (cc_mongo cc) ns' sel w = cl_list (cc_mongo cc) ns' sel w'"
    "cl_list (cc_redis cc) ns' sel w = cl_list (cc_redis cc) ns' sel w'" for ns' sel
    using assms unfolding static_configs_def by blast+
  show "LoadConfigs cc w handler = LoadConfigs cc w' handler"
    unfolding LoadConfigs_def LoadServiceConfigs_def ListMongoConfigsInNamespace_def
      ListMysqlConfigsInNamespace_def ListRedisConfigsInNamespace_def
      l(1)[of _ "[]"] l(2)[of _ "[]"] l(3)[of _ "[]"] l(4)[of _ "[]"] by (rule refl)
qed

lemma createConfigMap_static:
  "static_configs cc \<Longrightarrow> createConfigMap x cc site config t data w = createConfigMap x cc site config t data w'"
  unfolding createConfigMap_def by (subst static_configsD(2)[of cc w _ w']) simp_all

lemma expected_configmaps_static:
  assumes "static_configs cc"
  shows "expected_configmaps x cc site w names acc = expected_configmaps x cc site w' names acc"
proof (induction names arbitrary: acc)
  case (Cons n names)
  have "(\<lambda>key values. createConfigMap x cc site config key values w) =
      (\<lambda>key values. createConfigMap x cc site config key values w')" for config
    by (intro ext createConfigMap_static[OF assms])
  then show ?case
    using static_configsD(1)[OF assms, of _ _ w w'] Cons by (simp split: sum.splits)
qed simp

lemma expected_configmaps_wf:
  "expected_configmaps x cc site w names acc = Inr E \<Longrightarrow> wf_map acc \<Longrightarrow> wf_map E"
proof (induction names arbitrary: acc)
  case (Cons n names)
  have "configmaps_of_service f s kvs a = Inr a' \<Longrightarrow> wf_map a \<Longrightarrow> wf_map a'" for f s kvs a a'
    by (induction kvs arbitrary: a) (auto split: sum.splits)
  with Cons show ?case by (auto split: sum.splits)
qed simp

lemma run_nothing: "plan_empty p \<Longrightarrow> range_order ord \<Longrightarrow>
  run_loops [write_all f (go_range ord i (to_delete p)), write_all g (go_range ord j (to_update p)),
             write_all h (go_range ord k (to_create p))] w = (None, w)"
  by (simp add: plan_empty_def)

text \<open>
  C22. The config maps of a site converge in one pass: over a working API server, one pass of
  \<^verbatim>\<open>ensureConfigmapsAreUpToDate\<close> returns without an error and leaves exactly the expected config
  maps, one for each entry of each service configuration, with the substituted data, and the next
  pass writes nothing.
\<close>

theorem configmaps_converge:
  assumes store: "kube_store cm_meta cms objs" and ord: "range_order (ex_order x)" and cfgs: "static_configs cc"
    and E: "expected_configmaps x cc site w (map fst (go_range (ex_order x) 50 (site_services site))) [] = Inr E"
    and ready: "configmap.ready (st_namespace site) [(labels_Site, st_name site)] E (objs w)"
  shows "\<exists>w'. ensureConfigmapsAreUpToDate x cc cms site w = (Inr True, w') \<and>
           (\<forall>k e. map_of E k = Some e \<longrightarrow>
              (\<exists>c \<in> set (objs w'). selects cm_meta (st_namespace site) [(labels_Site, st_name site)] c \<and>
                 cm_key c = k \<and> data_equal (cm_data e) (cm_data c))) \<and>
           (\<forall>c \<in> set (objs w'). selects cm_meta (st_namespace site) [(labels_Site, st_name site)] c \<longrightarrow>
              map_of E (cm_key c) \<noteq> None) \<and>
           ensureConfigmapsAreUpToDate x cc cms site w' = (Inr True, w')"
proof -
  let ?ns = "st_namespace site" and ?sel = "[(labels_Site, st_name site)]"
  note list = kube_storeD(1)[OF store]
  let ?p = "configmap.plan_of ?ns ?sel E (objs w)"
  obtain w' where run: "run_loops [write_all (cl_delete cms) (go_range (ex_order x) 60 (to_delete ?p)),
        write_all (cl_update cms) (go_range (ex_order x) 61 (to_update ?p)),
        write_all (cl_create cms) (go_range (ex_order x) 62 (to_create ?p))] w = (None, w')"
      and sync: "configmap.in_sync E (filter (selects cm_meta ?ns ?sel) (objs w'))"
    using configmap.pass_converges_update_first[OF ready configmap.plan_maps_range[OF ready ord] store] by blast
  have first: "ensureConfigmapsAreUpToDate x cc cms site w = (Inr True, w')"
    using run by (simp add: ensureConfigmapsAreUpToDate_def list E configmap.plan_of_def)
  have E': "expected_configmaps x cc site w' (map fst (go_range (ex_order x) 50 (site_services site))) [] = Inr E"
    using E expected_configmaps_static[OF cfgs, of x site w' _ _ w] by simp
  have pe: "plan_empty (classify cm_key same_data set_data (filter (selects cm_meta ?ns ?sel) (objs w')) (start_plan E))"
    using sync configmap.plan_empty_iff[OF _ expected_configmaps_wf[OF E]] by (simp add: configmap.in_sync_def)
  have second: "ensureConfigmapsAreUpToDate x cc cms site w' = (Inr True, w')"
    unfolding ensureConfigmapsAreUpToDate_def list E' sum.case Let_def run_nothing[OF pe ord] finish_simps
    by (rule refl)
  have "\<exists>c \<in> set (objs w'). selects cm_meta ?ns ?sel c \<and> cm_key c = k \<and> data_equal (cm_data e) (cm_data c)"
    if "map_of E k = Some e" for k e
    by (rule configmap.in_sync_entry[OF sync that]) (auto simp: same_data_def)
  moreover have "map_of E (cm_key c) \<noteq> None" if "c \<in> set (objs w')" "selects cm_meta ?ns ?sel c" for c
    using configmap.in_sync_key[OF sync, of c] that by auto
  ultimately show ?thesis using first second by blast
qed

text \<open>A text without the character \<^verbatim>\<open>$\<close> is left as it is.\<close>

lemma replace_plain:
  "plain_text s \<Longrightarrow> ReplaceTemplateVariablesInString ord l s ts = s"
proof -
  assume p: "plain_text s"
  have "replace_entries nvs s = s" for nvs
    using p replace_all_absent[of "CHR ''$''" s] by (induction nvs) (simp_all add: plain_text_def template_ref_def)
  then show ?thesis by (induction ts arbitrary: l) simp_all
qed

definition toy_env_service :: service_config where
  "toy_env_service = (toy_service ''shop'' ''sh'')\<lparr>sc_config_maps := [(''env'', [(''KEY'', ''value'')])]\<rparr>"

definition toy_config_clients :: "'w config_clients" where
  "toy_config_clients = \<lparr>cc_service = static_client sc_meta [toy_env_service], cc_mysql = static_client myc_meta [],
     cc_mongo = static_client moc_meta [], cc_redis = static_client rec_meta []\<rparr>"

lemma toy_config_clients_static: "static_configs toy_config_clients"
  by (simp add: static_configs_def toy_config_clients_def static_client_def)

definition toy_config_map :: config_map where
  "toy_config_map =
     \<lparr>cm_meta = new_meta (MakeConfigmapName toy_md5 toy_db_site toy_env_service ''env'') ''ns''
        [(labels_Site, ''my-site''), (labels_Service, ''shop''), (labels_Type, ''env'')],
      cm_data = Some [(''KEY'', ''value'')]\<rparr>"

lemma toy_config_load: "LoadConfigs toy_config_clients w h =
    Inr (h\<lparr>th_mongo := [], th_mysql := [], th_redis := [], th_services := (if st_namespace (th_site h) = ''ns''
           then [(''shop'', toy_env_service)] else [])\<rparr>)"
  by (simp add: LoadConfigs_def LoadServiceConfigs_def ListMongoConfigsInNamespace_def
      ListMysqlConfigsInNamespace_def ListRedisConfigsInNamespace_def by_name_def toy_config_clients_def
      static_client_def selects_def toy_env_service_def toy_service_def)

lemma toy_replaced:
  "ReplaceTemplateVariablesInStringMap (\<lambda>l ks. ks) 52 [(''KEY'', ''value'')] entity ts = ([(''KEY'', ''value'')], None)"
proof -
  have p: "plain_text ''value''" by (simp add: plain_text_def)
  have u: "GetUnresolvedTemplatesFromString ''value'' = []" by (simp add: GetUnresolvedTemplatesFromString_def)
  show ?thesis
    by (simp add: ReplaceTemplateVariablesInStringMap_def go_range_id replace_plain[OF p] u Let_def)
qed

lemma toy_env_service_name: "sc_name toy_env_service = ''shop''"
  by (simp add: toy_env_service_def)

lemma toy_externals_simps:
  "ex_order toy_externals = (\<lambda>l ks. ks)" "ex_set_ref toy_externals owner m = Inr m" "ex_md5 toy_externals = toy_md5"
  by (simp_all add: toy_externals_def toy_set_ref_def)

lemma toy_configmap_created:
  "createConfigMap toy_externals toy_config_clients toy_db_site toy_env_service ''env'' [(''KEY'', ''value'')] w =
     Inr toy_config_map"
  unfolding createConfigMap_def toy_config_load sum.case toy_externals_simps toy_replaced prod.case option.case
    toy_env_service_name toy_config_map_def toy_db_site_simps by (rule refl)

lemma toy_expected_configmaps:
  "expected_configmaps toy_externals toy_config_clients toy_db_site w [''shop''] [] =
     Inr [(''shop.env'', toy_config_map)]"
proof -
  have g: "cl_get (cc_service toy_config_clients) ''ns'' ''shop'' w = Inr toy_env_service"
    by (simp add: toy_config_clients_def static_client_def obj_key_def toy_env_service_def toy_service_def)
  have c: "sc_config_maps toy_env_service = [(''env'', [(''KEY'', ''value'')])]" "sc_name toy_env_service = ''shop''"
    by (simp_all add: toy_env_service_def)
  have o: "ex_order toy_externals = (\<lambda>l ks. ks)" by (simp add: toy_externals_def)
  show ?thesis
    by (simp add: g c o go_range_id toy_configmap_created makeConfigmapKey_def)
qed

lemma label_distinct_type [simp]: "labels_Type \<noteq> labels_Site" "labels_Type \<noteq> labels_Service"
  by (simp_all add: label_defs)

definition toy_old_config_maps :: "config_map list" where
  "toy_old_config_maps = [toy_config_map\<lparr>cm_data := Some [(''KEY'', ''old'')]\<rparr>]"

lemma toy_config_map_simps:
  "om_labels (cm_meta toy_config_map) = [(labels_Site, ''my-site''), (labels_Service, ''shop''), (labels_Type, ''env'')]"
  "om_namespace (cm_meta toy_config_map) = ''ns''" "om_finalizers (cm_meta toy_config_map) = []"
  "cm_data toy_config_map = Some [(''KEY'', ''value'')]"
  by (simp_all add: toy_config_map_def)

lemma toy_config_maps_ready:
  "configmap.ready (st_namespace toy_db_site) [(labels_Site, st_name toy_db_site)] [(''shop.env'', toy_config_map)]
     (id toy_old_config_maps)"
  by (simp add: configmap.ready_def toy_old_config_maps_def selects_def cm_key_def label_of_def lookup_or_def
      makeConfigmapKey_def has_data_def toy_config_map_simps obj_key_def)

theorem configmaps_converge_witness:
  "\<exists>w'. ensureConfigmapsAreUpToDate toy_externals toy_config_clients (mem_client cm_meta) toy_db_site
          toy_old_config_maps = (Inr True, w') \<and>
     ensureConfigmapsAreUpToDate toy_externals toy_config_clients (mem_client cm_meta) toy_db_site w' = (Inr True, w')"
proof -
  have E: "expected_configmaps toy_externals toy_config_clients toy_db_site toy_old_config_maps
      (map fst (go_range (ex_order toy_externals) 50 (site_services toy_db_site))) [] = Inr [(''shop.env'', toy_config_map)]"
    using toy_expected_configmaps by (simp add: toy_externals_def go_range_id)
  have o: "range_order (ex_order toy_externals)" by (simp add: toy_externals_def)
  show ?thesis
    by (insert configmaps_converge[OF mem_client_store o toy_config_clients_static E toy_config_maps_ready])
      (elim exE conjE, intro exI conjI, assumption+)
qed

end
