(* ===== verification/JobProperties.thy ===== *)
theory JobProperties
  imports JobHandlers
begin

text \<open>
  What the job handlers guarantee: which init jobs exist when creation is complete, convergence
  of the init jobs, what happens to migration jobs of a disabled site and after a change of the
  image tag, and when the final backup counts as done.
\<close>

section \<open>Init jobs\<close>

lemma dbinit_plan_empty:
  "plan_empty (classify di_service (\<lambda>x e. True) (\<lambda>x e. x) xs (start_plan E)) \<longleftrightarrow>
   to_delete (classify di_service (\<lambda>x e. True) (\<lambda>x e. x) xs (start_plan E)) = [] \<and>
   to_create (classify di_service (\<lambda>x e. True) (\<lambda>x e. x) xs (start_plan E)) = []"
  using no_update_when_all_match[of "start_plan E" di_service "\<lambda>x e. x" xs]
  by (auto simp: plan_empty_def)

text \<open>The services of a site that need an init job, as the configurations in the world say.\<close>

definition needs_init :: "('w, service_config) client \<Rightarrow> staging_site \<Rightarrow> 'w \<Rightarrow> string \<Rightarrow> bool" where
  "needs_init cfgs site w name \<longleftrightarrow>
     (case map_of (site_services site) name of
        None \<Rightarrow> False
      | Some svc \<Rightarrow> (svc_mysql_env svc \<noteq> [] \<or> svc_mongo_env svc \<noteq> []) \<and>
          (case cl_get cfgs (st_namespace site) name w of
             Inl e \<Rightarrow> False | Inr cfg \<Rightarrow> sc_db_init_pod_spec cfg \<noteq> None))"

lemma DbInit_service_job_exact:
  assumes "map_of (site_services site) name = Some svc"
    and "DbInit_service_job md5 setref cfgs site w name svc = Inr r"
  shows "needs_init cfgs site w name \<longleftrightarrow> r \<noteq> None"
  using assms
  by (auto simp: needs_init_def DbInit_service_job_def map_sum_def split: if_splits sum.splits)

text \<open>
  When \<^verbatim>\<open>DbInitJobHandler.EnsureJobsAreCreated\<close> reports completion it has written nothing,
  and the site has exactly one init job for each service that has a MySQL or Mongo environment
  and an init pod spec, and no other init job.
\<close>

theorem init_jobs_complete_exact:
  assumes "DbInit_EnsureJobsAreCreated md5 setref ord cfgs jobs site w = (Inr True, w')"
    and "range_order ord" "wf_map (site_services site)"
    and "cl_list jobs (st_namespace site) [(labels_Site, st_name site)] w = Inr items"
  shows "w' = w \<and> distinct (map di_service items) \<and>
         di_service ` set items = {name. needs_init cfgs site w name}"
proof -
  let ?f = "DbInit_service_job md5 setref cfgs site w"
  obtain E where E: "build_expected ?f (go_range ord 0 (site_services site)) [] = Inr E"
    using assms(1,4) by (auto simp: DbInit_EnsureJobsAreCreated_def split: sum.splits)
  let ?p = "classify di_service (\<lambda>x e. True) (\<lambda>x e. x) items (start_plan E)"
  have done0: "to_delete ?p = []" "to_create ?p = []" "w' = w"
    using assms(1,2,4) by (auto simp: DbInit_EnsureJobsAreCreated_def E Let_def finish_Inr)
  then have sync: "dbinit.in_sync E items"
    using build_expected_wf[OF E] by (intro dbinit.plan_empty_in_sync) (simp_all add: dbinit_plan_empty)
  have E_dom: "map_of E k = (case map_of (site_services site) k of
      Some x \<Rightarrow> (case ?f k x of Inr (Some e) \<Rightarrow> Some e | _ \<Rightarrow> None) | None \<Rightarrow> None)" for k
    using build_expected_dom[OF E, unfolded map_of.simps] assms(2,3) by (simp add: range_simps)
  have "needs_init cfgs site w k \<longleftrightarrow> k \<in> dom (map_of E)" for k
  proof (cases "map_of (site_services site) k")
    case None
    then show ?thesis by (simp add: needs_init_def domIff E_dom)
  next
    case (Some svc)
    have mem: "(k, svc) \<in> set (go_range ord 0 (site_services site))"
      using map_of_SomeD[OF Some] by (simp add: range_simps assms(2,3))
    obtain r where r: "?f k svc = Inr r" by (rule build_expected_defined[OF E mem])
    have "needs_init cfgs site w k \<longleftrightarrow> r \<noteq> None" by (rule DbInit_service_job_exact[OF Some r])
    also have "\<dots> \<longleftrightarrow> k \<in> dom (map_of E)" by (cases r) (simp_all add: domIff E_dom Some r)
    finally show ?thesis .
  qed
  then have "dom (map_of E) = {name. needs_init cfgs site w name}" by auto
  with sync done0(3) show ?thesis by (simp add: dbinit.in_sync_def)
qed

theorem init_jobs_complete_exact_witness:
  "\<not> needs_init toy_configs toy_db_site ([] :: db_init_job list) ''shop''"
proof -
  have c: "DbInit_EnsureJobsAreCreated toy_md5 toy_set_ref (\<lambda>l ks. ks) toy_configs (mem_client di_meta)
      toy_db_site [] = (Inr True, [])"
    by (simp add: DbInit_EnsureJobsAreCreated_def DbInit_service_job_def go_range_id mem_client_def
        toy_service_def)
  have "di_service ` set [] = {name. needs_init toy_configs toy_db_site ([] :: db_init_job list) name}"
    using init_jobs_complete_exact[OF c, of "[]"] by (simp add: mem_client_def)
  then show ?thesis by auto
qed


text \<open>
  The init jobs converge in one pass: over a working API server, one pass of
  \<^verbatim>\<open>DbInitJobHandler.EnsureJobsAreCreated\<close> returns without an error, and the next one finds
  nothing to do and reports completion, with exactly the init jobs that the site needs.
\<close>

theorem init_jobs_converge:
  assumes store: "kube_store di_meta jobs objs" and ord: "range_order ord" and cfgs: "static_reads cfgs"
    and services: "wf_map (site_services site)"
    and E: "build_expected (DbInit_service_job md5 setref cfgs site w) (go_range ord 0 (site_services site)) [] = Inr E"
    and r: "dbinit.ready (st_namespace site) [(labels_Site, st_name site)] E (objs w)"
  shows "\<exists>b w'. DbInit_EnsureJobsAreCreated md5 setref ord cfgs jobs site w = (Inr b, w') \<and>
           DbInit_EnsureJobsAreCreated md5 setref ord cfgs jobs site w' = (Inr True, w') \<and>
           di_service ` {j \<in> set (objs w'). selects di_meta (st_namespace site) [(labels_Site, st_name site)] j} =
             {name. needs_init cfgs site w' name}"
proof -
  let ?p = "dbinit.plan_of (st_namespace site) [(labels_Site, st_name site)] E (objs w)"
  have none: "to_update ?p = []" unfolding dbinit.plan_of_def by (simp add: no_update_when_all_match)
  obtain w' where w': "run_loops [write_all (cl_delete jobs) (go_range ord 1 (to_delete ?p)),
       write_all (cl_create jobs) (go_range ord 2 (to_create ?p))] w = (None, w')"
      and sync: "dbinit.in_sync E (filter (selects di_meta (st_namespace site) [(labels_Site, st_name site)]) (objs w'))"
    by (rule dbinit.pass_without_updates[OF r ord store none])
  have "DbInit_service_job md5 setref cfgs site w' = DbInit_service_job md5 setref cfgs site w"
    unfolding fun_eq_iff DbInit_service_job_def
    by (subst cfgs[unfolded static_reads_def, rule_format, of _ _ w' w]) simp
  then have E': "build_expected (DbInit_service_job md5 setref cfgs site w') (go_range ord 0 (site_services site)) [] = Inr E"
    using E by simp
  have "plan_empty (classify di_service (\<lambda>x e. True) (\<lambda>x e. x)
      (filter (selects di_meta (st_namespace site) [(labels_Site, st_name site)]) (objs w')) (start_plan E))"
    using sync dbinit.plan_empty_iff[OF _ dbinit.readyD(3)[OF r]] by (simp add: dbinit.in_sync_def)
  then have second: "DbInit_EnsureJobsAreCreated md5 setref ord cfgs jobs site w' = (Inr True, w')"
    using ord by (simp add: DbInit_EnsureJobsAreCreated_def kube_storeD(1)[OF store] E' plan_empty_def)
  have "\<exists>b. DbInit_EnsureJobsAreCreated md5 setref ord cfgs jobs site w = (Inr b, w')"
    using w' by (simp add: DbInit_EnsureJobsAreCreated_def kube_storeD(1)[OF store] E dbinit.plan_of_def Let_def)
  then show ?thesis
    using second init_jobs_complete_exact[OF second ord services kube_storeD(1)[OF store]] by auto
qed

definition toy_old_init_job :: db_init_job where
  "toy_old_init_job = (projr (DbInitJob_PopulateFomSite toy_md5 toy_db_site (toy_service ''shop'' ''sh'') ''my1'' ''mo1''))
     \<lparr>di_meta := new_meta ''old'' ''ns'' [(labels_Site, ''my-site''), (labels_Service, ''old'')]\<rparr>"

theorem init_jobs_converge_witness:
  "\<exists>b w'. DbInit_EnsureJobsAreCreated toy_md5 toy_set_ref (\<lambda>l ks. ks) toy_configs (mem_client di_meta) toy_db_site
       [toy_old_init_job] = (Inr b, w') \<and>
     DbInit_EnsureJobsAreCreated toy_md5 toy_set_ref (\<lambda>l ks. ks) toy_configs (mem_client di_meta) toy_db_site w' =
       (Inr True, w')"
proof -
  have c: "static_reads toy_configs" unfolding toy_configs_def by (rule static_client_reads)
  have E: "build_expected (DbInit_service_job toy_md5 toy_set_ref toy_configs toy_db_site [toy_old_init_job])
      (go_range (\<lambda>l ks. ks) 0 (site_services toy_db_site)) [] = Inr []"
    by (simp add: DbInit_service_job_def go_range_id toy_service_def)
  have "om_finalizers (di_meta toy_old_init_job) = []" by (simp add: toy_old_init_job_def)
  then have r: "dbinit.ready (st_namespace toy_db_site) [(labels_Site, st_name toy_db_site)] [] (id [toy_old_init_job])"
    by (simp add: dbinit.ready_def)
  show ?thesis
    by (insert init_jobs_converge[OF mem_client_store _ c _ E r]) (simp, blast)
qed


section \<open>Migration jobs\<close>

lemma plan_nothing_expected:
  assumes "distinct (map dm_service xs)"
  defines "p \<equiv> classify dm_service DbMigrationJob_Matches DbMigrationJob_UpdateFrom xs (start_plan [])"
  shows "to_create p = []" "to_update p = []" "snd ` set (to_delete p) = set xs"
proof -
  show "to_create p = []"
    unfolding p_def migration.alist_nil_iff by (simp add: migration.plan_create)
  show "to_update p = []"
    unfolding p_def migration.alist_nil_iff by (simp add: migration.plan_update[OF assms(1)])
  have wf: "wf_map (to_delete p)" unfolding p_def by (rule migration.classify_wf(3)) simp_all
  show "snd ` set (to_delete p) = set xs"
  proof (intro equalityI subsetI)
    fix x assume "x \<in> snd ` set (to_delete p)"
    then obtain k where "map_of (to_delete p) k = Some x" using wf by (auto simp: map_of_is_SomeI)
    then show "x \<in> set xs" unfolding p_def migration.plan_delete[OF assms(1)] by simp
  next
    fix x assume "x \<in> set xs"
    then have "map_of (to_delete p) (dm_service x) = Some x"
      unfolding p_def migration.plan_delete[OF assms(1)] by simp
    then show "x \<in> snd ` set (to_delete p)" by (force dest: map_of_SomeD)
  qed
qed

text \<open>
  A disabled site keeps no migration jobs: over a working API server the handler deletes them
  all, they are gone when it returns, and jobs of other sites stay.
\<close>

theorem disabled_site_has_no_migrations:
  assumes "kube_store dm_meta jobs objs" "\<not> su_enabled (st_status site)" "range_order ord"
    and "distinct (map (obj_key dm_meta) (objs w))"
    and "distinct (map dm_service (filter (selects dm_meta (st_namespace site) [(labels_Site, st_name site)]) (objs w)))"
    and "list_all (\<lambda>j. om_finalizers (dm_meta j) = []) (objs w)"
  shows "\<exists>b w'. DbMigration_EnsureJobsAreCreated md5 setref ord cfgs jobs site w = (Inr b, w') \<and>
    objs w' = filter (\<lambda>j. \<not> selects dm_meta (st_namespace site) [(labels_Site, st_name site)] j) (objs w)"
proof -
  let ?sel = "selects dm_meta (st_namespace site) [(labels_Site, st_name site)]"
  let ?xs = "filter ?sel (objs w)"
  let ?p = "classify dm_service DbMigrationJob_Matches DbMigrationJob_UpdateFrom ?xs (start_plan [])"
  note p = plan_nothing_expected[OF assms(5)]
  have wf: "wf_map (to_delete ?p)" by (rule migration.classify_wf(3)) simp_all
  have D: "snd ` set (go_range ord 1 (to_delete ?p)) = set ?xs"
    using p(3) by (simp add: range_simps assms(3) wf)
  then have fin: "\<forall>kx \<in> set (go_range ord 1 (to_delete ?p)). om_finalizers (dm_meta (snd kx)) = []"
    using assms(6) by (auto simp: list_all_iff)
  obtain w' where w': "write_all (cl_delete jobs) (go_range ord 1 (to_delete ?p)) w = (None, w')"
      "objs w' = filter (\<lambda>y. obj_key dm_meta y \<notin> obj_key dm_meta ` set ?xs) (objs w)"
    using delete_loop[OF assms(1) fin] unfolding D by blast
  have "obj_key dm_meta y \<in> obj_key dm_meta ` set ?xs \<longleftrightarrow> ?sel y" if "y \<in> set (objs w)" for y
    using that migration.same_object[OF assms(4)] by (auto simp: image_iff)
  then have "objs w' = filter (\<lambda>j. \<not> ?sel j) (objs w)"
    unfolding w'(2) by (intro filter_cong) auto
  moreover have "DbMigration_EnsureJobsAreCreated md5 setref ord cfgs jobs site w =
      (Inr (to_delete ?p = [] \<and> to_create ?p = []), w')"
    using w'(1) p(1,2) assms(2,3)
    by (simp add: DbMigration_EnsureJobsAreCreated_def kube_storeD(1)[OF assms(1)] Let_def)
  ultimately show ?thesis by blast
qed

definition toy_migration :: "string \<Rightarrow> string \<Rightarrow> string \<Rightarrow> db_migration_job" where
  "toy_migration site tag done_tag =
     \<lparr>dm_meta = new_meta (site @ ''-sh'') ''ns'' [(labels_Site, site), (labels_Service, ''shop'')],
      dm_spec = \<lparr>dms_site = site, dms_service = ''shop'', dms_image_tag = tag,
        dms_deadline_seconds = 600\<rparr>,
      dm_status = \<lparr>dmt_state = JobComplete, dmt_not_found = 0, dmt_last_tag = done_tag,
        dmt_deadline = None\<rparr>\<rparr>"

theorem disabled_site_has_no_migrations_witness:
  "\<exists>b w'. DbMigration_EnsureJobsAreCreated toy_md5 toy_set_ref (\<lambda>l ks. rev ks) toy_configs
      (mem_client dm_meta) toy_db_site [toy_migration ''my-site'' ''v1'' ''v1'', toy_migration ''other'' ''v1'' ''v1''] =
        (Inr b, w') \<and> w' = [toy_migration ''other'' ''v1'' ''v1'']"
proof -
  have s: "selects dm_meta ''ns'' [(labels_Site, ''my-site'')] (toy_migration site t d) \<longleftrightarrow> site = ''my-site''"
    for site t d by (simp add: selects_def toy_migration_def)
  have k: "obj_key dm_meta (toy_migration site t d) = (''ns'', site @ ''-sh'')" for site t d
    by (simp add: obj_key_def toy_migration_def)
  show ?thesis
    using disabled_site_has_no_migrations[OF mem_client_store, of toy_db_site "\<lambda>l ks. rev ks"
        "[toy_migration ''my-site'' ''v1'' ''v1'', toy_migration ''other'' ''v1'' ''v1'']"
        toy_md5 toy_set_ref toy_configs]
    by (simp add: s k) (simp add: toy_db_site_def toy_site_def GetDummySite_def toy_migration_def)
qed

definition migrating_site :: staging_site where
  "migrating_site =
     toy_db_site\<lparr>st_status := (st_status toy_db_site)\<lparr>su_enabled := True\<rparr>,
       st_spec := (st_spec toy_db_site)\<lparr>sp_services :=
         [(''shop'', zero_service\<lparr>svc_mysql_env := ''my1'', svc_image_tag := ''v2''\<rparr>)]\<rparr>\<rparr>"

definition migrating_configs :: "('w, service_config) client" where
  "migrating_configs = static_client sc_meta
     [(toy_service ''shop'' ''sh'')\<lparr>sc_migration_pod_spec :=
        Some \<lparr>ps_containers = [], ps_restart_policy = [], ps_rest = []\<rparr>\<rparr>]"

text \<open>
  After a change of the image tag the handler reports at once that the migration jobs exist,
  and the completion check that follows still sees the state of the previous run: both stages
  pass although the new tag has not been migrated.
\<close>

theorem tag_change_passes_before_migration:
  "(let (r, w') = DbMigration_EnsureJobsAreCreated toy_md5 toy_set_ref (\<lambda>l ks. ks) migrating_configs
       (mem_client dm_meta) migrating_site [toy_migration ''my-site'' ''v1'' ''v1'']
    in r = Inr True \<and> DbMigration_EnsureJobsAreComplete (mem_client dm_meta) migrating_site w' = Inr True \<and>
       map (\<lambda>j. (dms_image_tag (dm_spec j), dmt_last_tag (dm_status j))) w' = [(''v2'', ''v1'')])"
  by code_simp


section \<open>The final backup\<close>

text \<open>
  \<^verbatim>\<open>EnsureFinalBackupIsComplete\<close> lets a deletion go on exactly when the final backup exists and
  has reached one of its two final states; then it writes nothing. Otherwise it creates the
  backup once and waits, and it reports every error but "not found".
\<close>

theorem final_backup_exact:
  "Backup_EnsureFinalBackupIsComplete md5 setref bks now site w = (Inr True, w') \<longleftrightarrow>
     w' = w \<and> (\<exists>b. cl_get bks (st_namespace site)
                      (ShortenHumanReadableValue md5 (''final-'' @ st_name site) 63) w = Inr b \<and>
                    JobState_IsFinal (bd_state (bk_detail b)))"
proof (cases "cl_get bks (st_namespace site) (ShortenHumanReadableValue md5 (''final-'' @ st_name site) 63) w")
  case (Inl e)
  show ?thesis
    unfolding Backup_EnsureFinalBackupIsComplete_def makeBackupName.simps sum.case Inl
    by (auto split: sum.split prod.split)
next
  case (Inr b)
  show ?thesis
    unfolding Backup_EnsureFinalBackupIsComplete_def makeBackupName.simps sum.case Inr
    by (cases "bd_state (bk_detail b)") auto
qed

end
