(* ===== verification/SiteControllerProperties.thy ===== *)
theory SiteControllerProperties
  imports SiteController SiteHandlerProperties JobProperties
begin

text \<open>
  What the site controller guarantees: when the next backup and the next check are due, what a
  status that reports no change says, which errors fail a site, what the state Complete means, and
  in which order the stages may write.
\<close>

section \<open>Times\<close>

lemma go_hour_of: "0 \<le> k \<Longrightarrow> k < day_ns \<Longrightarrow> go_hour (z * day_ns + k) = k div (3600 * second_ns)"
  by (simp add: go_hour_def)

lemma go_hour_range: "0 \<le> go_hour t" "go_hour t < 24"
proof -
  have m: "0 \<le> t mod day_ns" "t mod day_ns < 86400000000000" by (simp_all add: day_ns_def)
  show "0 \<le> go_hour t" using m(1) by (simp add: go_hour_def second_ns_def pos_imp_zdiv_nonneg_iff)
  show "go_hour t < 24" using m by (simp add: go_hour_def second_ns_def div_less_iff_less_mult)
qed

text \<open>The offset of a site in its backup hour, in seconds.\<close>

definition backup_offset :: "staging_site \<Rightarrow> int" where
  "backup_offset site = uint (fnv32a (st_name site)) mod 3600"

lemma backup_offset_range: "0 \<le> backup_offset site" "backup_offset site < 3600"
  by (simp_all add: backup_offset_def)

lemma backup_offset_parts:
  "uint (fnv32a (st_name site) mod 3600 div 60) = backup_offset site div 60"
  "uint (fnv32a (st_name site) mod 3600 mod 60) = backup_offset site mod 60"
  by (simp_all add: backup_offset_def uint_div uint_mod)

lemma next_backup_parsed:
  assumes "sp_backup_hour (st_spec site) = Some h" "0 \<le> sint h" "sint h < 100" "four_digit_year (local_time zone now)"
  shows "getNextBackupTimeForSite zone now site =
    (if sint h < 24
     then Inr (Some (advance_days (local_time zone now div day_ns * day_ns + (sint h * 3600 + backup_offset site) * second_ns) now))
     else Inl (PlainError ''parsing time''))"
proof -
  obtain y m d where ymd: "date_of_days (local_time zone now div day_ns) = (y, m, d)" by (metis prod_cases3)
  have y: "0 \<le> y" "y < 10000" using assms(4) by (simp_all add: four_digit_year_def ymd)
  let ?o = "backup_offset site"
  have o: "0 \<le> ?o div 60" "?o div 60 < 60" "0 \<le> ?o mod 60" "?o mod 60 < 60" "?o div 60 * 60 + ?o mod 60 = ?o"
    using backup_offset_range[of site] by (simp_all add: pos_imp_zdiv_nonneg_iff div_less_iff_less_mult)
  have g: "go_date y m d (sint h) (?o div 60) (?o mod 60) 0 =
      local_time zone now div day_ns * day_ns + (sint h * 3600 + ?o) * second_ns"
    using o(5) by (simp add: go_date_def date_of_days_valid(5)[OF ymd] day_ns_def second_ns_def)
  show ?thesis
    using parse_show_instant[OF zone_utc(2) y date_of_days_valid(1-4)[OF ymd] assms(2,3) o(1-4)] assms(1,2)
    by (simp add: zone_utc(1) getNextBackupTimeForSite_def Let_def ymd backup_offset_parts g)
qed

lemma advance_days_first:
  "now \<le> advance_days t now \<and> (\<exists>q. advance_days t now = t + q * day_ns) \<and>
   advance_days t now < max (t + 1) (now + day_ns)"
proof (induction t now rule: advance_days.induct)
  case (1 t now)
  have pos: "0 < day_ns" by (simp add: day_ns_def)
  show ?case
  proof (cases "t < now")
    case True
    from 1[OF True] obtain q where q: "advance_days (t + day_ns) now = t + day_ns + q * day_ns" by blast
    have "advance_days t now = t + (q + 1) * day_ns"
      using True q by (subst advance_days.simps) (simp add: algebra_simps)
    moreover have "advance_days t now = advance_days (t + day_ns) now" using True by (subst advance_days.simps) simp
    ultimately show ?thesis using 1[OF True] True by auto
  next
    case False
    then have "advance_days t now = t" by (subst advance_days.simps) simp
    then show ?thesis using False by (auto intro: exI[of _ 0])
  qed
qed

lemma next_backup_window:
  assumes "sp_backup_hour (st_spec site) = Some h" "0 \<le> sint h" "sint h < 24" "four_digit_year (local_time zone now)"
  shows "\<exists>t. getNextBackupTimeForSite zone now site = Inr (Some t) \<and>
             now \<le> t \<and> t < now + day_ns + max 0 (zone now * second_ns) \<and>
             go_hour t = sint h \<and> t mod day_ns = (sint h * 3600 + backup_offset site) * second_ns"
proof -
  let ?k = "(sint h * 3600 + backup_offset site) * second_ns" and ?z = "local_time zone now div day_ns"
  have k: "0 \<le> ?k" "?k < day_ns" "?k div (3600 * second_ns) = sint h"
    using assms(2,3) backup_offset_range[of site] by (simp_all add: day_ns_def second_ns_def)
  have z: "?z * day_ns \<le> now + zone now * second_ns"
    using div_mult_mod_eq[of "local_time zone now" day_ns] pos_mod_sign[of day_ns "local_time zone now"]
    by (simp add: day_ns_def local_time_def)
  let ?t = "advance_days (?z * day_ns + ?k) now"
  have "getNextBackupTimeForSite zone now site = Inr (Some ?t)"
    using next_backup_parsed[OF assms(1,2) _ assms(4)] assms(3) by simp
  moreover note a = advance_days_first[of now "?z * day_ns + ?k"]
  have "now \<le> ?t" "?t < now + day_ns + max 0 (zone now * second_ns)" using a k z by linarith+
  moreover obtain q where "?t = ?z * day_ns + ?k + q * day_ns" using a by blast
  then have "\<exists>q. ?t = q * day_ns + ?k" by (intro exI[of _ "?z + q"]) (simp add: algebra_simps)
  then have "go_hour ?t = sint h \<and> ?t mod day_ns = ?k"
    using k by (elim exE) (simp only: go_hour_of mod_mult_self3 mod_pos_pos_trivial)
  ultimately show ?thesis by blast
qed

text \<open>
  C34. The next scheduled backup of a site lies in the hour of UTC that the spec asks for, at a
  minute and second that depend on the name of the site only, and it is never in the past. It is less
  than 24 hours away when the local zone of the process is UTC or west of it; in a zone to the east it is
  less than 24 hours and the offset of the zone away, because the date is read off the local clock.
\<close>

theorem next_backup_in_window:
  assumes "sp_backup_hour (st_spec site) = Some h" "0 \<le> sint h" "sint h < 24" "four_digit_year (local_time zone now)"
  shows "\<exists>t. getNextBackupTimeForSite zone now site = Inr (Some t) \<and>
             now \<le> t \<and> t < now + day_ns + max 0 (zone now * second_ns) \<and>
             go_hour t = sint h \<and> t mod day_ns = (sint h * 3600 + backup_offset site) * second_ns"
  by (rule next_backup_window[OF assms])

definition toy_backup_time_site :: "int \<Rightarrow> staging_site" where
  "toy_backup_time_site h = toy_db_site\<lparr>st_spec := (st_spec toy_db_site)\<lparr>sp_backup_hour := Some (word_of_int h)\<rparr>\<rparr>"

theorem next_backup_in_window_witness:
  "\<exists>t. getNextBackupTimeForSite (\<lambda>t. 7200) 1700000000123456789 (toy_backup_time_site 14) = Inr (Some t) \<and> go_hour t = 14"
proof -
  have "four_digit_year (local_time (\<lambda>t. 7200) 1700000000123456789)" by code_simp
  from next_backup_in_window[of "toy_backup_time_site 14" 14, OF _ _ _ this] show ?thesis
    by (auto simp: toy_backup_time_site_def)
qed

text \<open>The longer bound is needed: thirteen hours east of UTC a backup can be more than a day away.\<close>

lemma east_of_utc_skips_a_day:
  "case getNextBackupTimeForSite (\<lambda>t. 13 * 3600) 1699964000000000000 (toy_backup_time_site 14) of
     Inr (Some t) \<Rightarrow> 1699964000000000000 + day_ns < t | _ \<Rightarrow> False"
  by code_simp

text \<open>
  The next check of a site: the reference is the earliest of the instants at which something is
  due for the site.
\<close>

definition due_times :: "staging_site \<Rightarrow> time set" where
  "due_times site =
     {t. su_enabled (st_status site) \<and> su_disable_at (st_status site) = Some t \<or>
         su_delete_at (st_status site) = Some t \<or> su_next_backup (st_status site) = Some t}"

lemma due_times_list:
  "due_times site = set (List.map_filter id
     [if su_enabled (st_status site) then su_disable_at (st_status site) else None,
      su_delete_at (st_status site), su_next_backup (st_status site)])"
  by (auto simp: due_times_def map_filter_def)

lemma hd_sort_Min: "xs \<noteq> [] \<Longrightarrow> hd (sort xs) = Min (set (xs :: int list))"
proof -
  assume ne: "xs \<noteq> []"
  obtain a l where al: "sort xs = a # l"
    using ne set_sort[of "\<lambda>x. x" xs] by (cases "sort xs") (simp_all del: set_sort)
  have "set xs = insert a (set l)" using set_sort[of "\<lambda>x. x" xs] by (simp only: al list.set)
  moreover have "\<forall>x \<in> set l. a \<le> x" using sorted_sort[of xs] by (simp add: al)
  ultimately show ?thesis by (simp add: al Min_insert2)
qed

lemma overdue_iff: "overdue t now \<longleftrightarrow> (\<exists>s. t = Some s \<and> s < now)"
  by (auto simp: overdue_def split: option.splits)

lemma recheck_reference:
  "getCtrlResultWithRecheckInterval now site =
     (if due_times site = {} then no_requeue
      else if Min (due_times site) < now then requeue_now
      else \<lparr>rs_requeue = False, rs_after = time_sub (Min (due_times site)) now\<rparr>)"
proof -
  define d where "d = (if su_enabled (st_status site) then su_disable_at (st_status site) else None)"
  define l where "l = List.map_filter id [d, su_delete_at (st_status site), su_next_backup (st_status site)]"
  have due: "due_times site = set l" by (simp only: due_times_list l_def d_def)
  have "t \<in> due_times site \<longleftrightarrow> d = Some t \<or> su_delete_at (st_status site) = Some t \<or> su_next_backup (st_status site) = Some t" for t
    by (simp add: due_times_def d_def)
  then have "overdue d now \<or> overdue (su_delete_at (st_status site)) now \<or> overdue (su_next_backup (st_status site)) now \<longleftrightarrow>
      (\<exists>t \<in> set l. t < now)"
    unfolding due[symmetric] overdue_iff by blast
  then have over: "overdue d now \<or> overdue (su_delete_at (st_status site)) now \<or> overdue (su_next_backup (st_status site)) now \<longleftrightarrow>
      l \<noteq> [] \<and> Min (set l) < now"
    by (cases "l = []") (simp_all add: Min_less_iff)
  show ?thesis
    unfolding getCtrlResultWithRecheckInterval_def Let_def d_def[symmetric] l_def[symmetric] over due
    using hd_sort_Min[of l] by simp
qed

text \<open>
  C35. A site is looked at again no later than when the next thing is due for it: at once when
  something is overdue, and after exactly the remaining time otherwise, which stops at the longest
  duration of Go, some 292 years. Nothing is asked for only when nothing is scheduled or something is
  due at this very instant (\<open>recheck_lost_at_due_time\<close>).
\<close>

theorem recheck_at_next_due_time:
  "getCtrlResultWithRecheckInterval now site =
     (if due_times site = {} then no_requeue
      else if Min (due_times site) < now then requeue_now
      else \<lparr>rs_requeue = False, rs_after = time_sub (Min (due_times site)) now\<rparr>)"
  by (rule recheck_reference)

text \<open>
  One instant is missed: a check that happens exactly when the next thing is due asks for an
  interval of zero, which is the result of a call that asks for nothing.
\<close>

theorem recheck_lost_at_due_time:
  "getCtrlResultWithRecheckInterval (Min (due_times site)) site = no_requeue"
  by (simp add: recheck_reference no_requeue_def time_sub_def)



section \<open>An hour that is not on the clock\<close>

lemma scan_backup_changed: "bs_changed s \<Longrightarrow> bs_changed (scan_backup b s)"
  by (simp add: scan_backup_def Let_def)

lemma claim_backups_changed:
  "claim_backups setref bks owner items s w = ((err, s'), w') \<Longrightarrow> bs_changed s \<Longrightarrow> bs_changed s'"
proof (induction items arbitrary: s w)
  case (Cons b items)
  have c: "bs_changed (scan_backup b s)" "bs_changed ((scan_backup b s)\<lparr>bs_claimed := True\<rparr>)"
    using scan_backup_changed[OF Cons.prems(2)] by simp_all
  from Cons.prems(1) show ?case
    using Cons.IH c by (auto simp: Let_def split: if_splits sum.splits prod.splits)
qed simp

lemma update_backups_changed:
  "update_backups e cl True site w = ((err, ch, site'), w') \<Longrightarrow> ch"
  by (auto simp: update_backups_def Let_def split: sum.splits prod.splits if_splits option.splits
      dest: claim_backups_changed)

lemma on_status_keeps [simp]: "st_spec (on_status f site) = st_spec site" "st_meta (on_status f site) = st_meta site"
  "st_status (on_status f site) = f (st_status site)"
  by (simp_all add: on_status_def)

lemma steps_keep_spec:
  "update_schedule t site = (c, site') \<Longrightarrow> st_spec site' = st_spec site \<and> st_meta site' = st_meta site"
  "update_enabled t site = (c, site') \<Longrightarrow> st_spec site' = st_spec site \<and> st_meta site' = st_meta site"
  "update_last_applied t site = (c, site') \<Longrightarrow> st_spec site' = st_spec site \<and> st_meta site' = st_meta site"
  "update_services x site cfgs = (c, site') \<Longrightarrow> st_spec site' = st_spec site \<and> st_meta site' = st_meta site"
  "st_spec (update_health site) = st_spec site" "st_meta (update_health site) = st_meta site"
  by (auto simp: update_schedule_def update_enabled_def update_last_applied_def update_services_def
      update_health_def Let_def split: prod.splits if_splits)

lemma bad_hour_never_next:
  assumes "sp_backup_hour (st_spec site) = Some h" "sint h < 0 \<or> 24 \<le> sint h" "four_digit_year (local_time zone now)"
  shows "getNextBackupTimeForSite zone now site = Inr None \<or> (\<exists>er. getNextBackupTimeForSite zone now site = Inl er)"
proof (cases "sint h < 0")
  case True
  then show ?thesis using assms(1) by (simp add: getNextBackupTimeForSite_def)
next
  case False
  obtain y m d where ymd: "date_of_days (local_time zone now div day_ns) = (y, m, d)" by (metis prod_cases3)
  have y: "0 \<le> y" "y < 10000" using assms(3) by (simp_all add: four_digit_year_def ymd)
  let ?o = "backup_offset site"
  have o: "0 \<le> ?o div 60" "?o div 60 < 60" "0 \<le> ?o mod 60" "?o mod 60 < 60"
    using backup_offset_range[of site] by (simp_all add: pos_imp_zdiv_nonneg_iff div_less_iff_less_mult)
  have late: "24 \<le> sint h" using assms(2) False by simp
  show ?thesis
    using parse_late_hour[OF y date_of_days_valid(1-4)[OF ymd] late o] assms(1) False
    by (simp add: getNextBackupTimeForSite_def Let_def ymd backup_offset_parts)
qed

lemma bad_hour_step:
  assumes "sp_backup_hour (st_spec site) = Some h" "sint h < 0 \<or> 24 \<le> sint h" "four_digit_year (local_time zone now)"
    and "update_next_backup zone now site = (err, c, site')"
  shows "err \<noteq> None \<or> c"
proof -
  have "go_hour t \<noteq> sint h" for t using go_hour_range[of t] assms(2) by auto
  then show ?thesis
    using assms(1,4) by (auto simp: update_next_backup_def split: sum.splits)
qed

definition pending_if_unset :: "staging_site \<Rightarrow> staging_site" where
  "pending_if_unset site = (if st_state site = StateUnset then on_status (\<lambda>s. s\<lparr>su_state := StatePending\<rparr>) site else site)"

lemma pending_if_unset_keeps [simp]:
  "st_spec (pending_if_unset site) = st_spec site" "st_meta (pending_if_unset site) = st_meta site"
  by (simp_all add: pending_if_unset_def)

text \<open>The three ways through the update of the status.\<close>

lemma ensureStatus_cases [consumes 1, case_names annotation config body]:
  assumes "ensureStatusIsUpToDate e cl site w = ((err, ch, site'), w')"
  obtains q s0 where "err \<noteq> None \<or> ch" "cl_update (sk_sites cl) s0 w = (q, w')"
      "fst (spec_change_time (en_zone e) (en_clock e 0) (pending_if_unset site))"
  | "err \<noteq> None" "w' = w"
  | t s1 s2 s3 s4 c1 c2 c3 c4 cfgs er c5 s5 where
      "spec_change_time (en_zone e) (en_clock e 0) (pending_if_unset site) = (False, t, pending_if_unset site)"
      "update_schedule t (pending_if_unset site) = (c1, s1)" "update_enabled (en_clock e 1) s1 = (c2, s2)"
      "update_last_applied t s2 = (c3, s3)"
      "load_status_configs (cc_service (sk_configs cl)) (st_namespace site) w
         (map fst (go_range (ex_order (en_x e)) 60 (site_services site))) [] = Inr cfgs"
      "update_services (en_x e) s3 cfgs = (c4, s4)"
      "update_next_backup (en_zone e) (en_clock e 2) (update_health s4) = (er, c5, s5)"
      "er \<noteq> None \<and> err \<noteq> None \<and> w' = w \<or> er = None \<and>
         update_backups e cl (c1 \<or> c2 \<or> c3 \<or> c4 \<or> c5) s5 w = ((err, ch, site'), w')"
proof -
  let ?p = "pending_if_unset site"
  note run = assms[unfolded ensureStatusIsUpToDate_def Let_def pending_if_unset_def[symmetric]]
  obtain upd t s0 where sc: "spec_change_time (en_zone e) (en_clock e 0) ?p = (upd, t, s0)" by (metis prod_cases3)
  show thesis
  proof (cases upd)
    case True
    obtain q w1 where q: "cl_update (sk_sites cl) s0 w = (q, w1)" by force
    have "err \<noteq> None \<or> ch" "w' = w1" using run sc True q by (auto split: sum.splits)
    with q show thesis by (intro that(1)) (simp_all add: sc True)
  next
    case False
    have s0: "s0 = ?p" using sc False by (auto simp: spec_change_time_def Let_def split: if_splits option.splits)
    obtain c1 s1 where 1: "update_schedule t ?p = (c1, s1)" by force
    obtain c2 s2 where 2: "update_enabled (en_clock e 1) s1 = (c2, s2)" by force
    obtain c3 s3 where 3: "update_last_applied t s2 = (c3, s3)" by force
    have keep: "st_spec s3 = st_spec site" "st_meta s3 = st_meta site"
      using 1 2 3 by (simp_all add: steps_keep_spec)
    note run = run[unfolded sc s0 prod.case if_not_P[OF False] 1 2 3 keep]
    show thesis
    proof (cases "load_status_configs (cc_service (sk_configs cl)) (st_namespace site) w
         (map fst (go_range (ex_order (en_x e)) 60 (site_services site))) []")
      case (Inl er)
      with run have "err \<noteq> None" "w' = w" by auto
      with that(2) show thesis by simp
    next
      case (Inr cfgs)
      obtain c4 s4 where 4: "update_services (en_x e) s3 cfgs = (c4, s4)" by force
      obtain er c5 s5 where 5: "update_next_backup (en_zone e) (en_clock e 2) (update_health s4) = (er, c5, s5)" by (metis prod_cases3)
      show thesis
        by (rule that(3)[OF sc[unfolded s0 eq_False[THEN iffD2, OF False]] 1 2 3 Inr 4 5])
          (use run in \<open>cases er; auto simp: Inr 4 5\<close>)
    qed
  qed
qed

text \<open>
  C39. A backup hour outside 0 to 23 stops the site: no reconcile call gets past the status. It
  either fails with an error or saves the status and asks to be called again at once; no handler
  runs, so that a new site never gets its databases and an existing one is never updated. The
  markers that should keep such an hour out (\<^verbatim>\<open>Min\<close> and \<^verbatim>\<open>Max\<close> instead of \<^verbatim>\<open>Minimum\<close> and \<^verbatim>\<open>Maximum\<close>)
  do not reach the generated schema.
\<close>

theorem bad_backup_hour_stops_site:
  assumes "sp_backup_hour (st_spec site) = Some h" "sint h < 0 \<or> 24 \<le> sint h" "four_digit_year (local_time (en_zone e) (en_clock e 2))"
  shows "\<exists>err changed site' w'. ensureStatusIsUpToDate e cl site w = ((err, changed, site'), w') \<and>
           site_live e cl site w = (SaveStatus changed site' (if err = None then requeue_now else no_requeue) err, w') \<and>
           (err = None \<longrightarrow> changed)"
proof -
  obtain err changed site' w' where run: "ensureStatusIsUpToDate e cl site w = ((err, changed, site'), w')"
    by (metis prod_cases3 surj_pair)
  have "err \<noteq> None \<or> changed"
    using run
  proof (cases rule: ensureStatus_cases)
    case (body t s1 s2 s3 s4 c1 c2 c3 c4 cfgs er c5 s5)
    have "st_spec (update_health s4) = st_spec site"
      using body(2,3,4,6) by (simp add: steps_keep_spec)
    then have hour: "sp_backup_hour (st_spec (update_health s4)) = Some h" using assms(1) by simp
    from bad_hour_step[OF hour assms(2,3) body(7)] show ?thesis
      using body(8) by (auto dest: update_backups_changed)
  qed simp_all
  with run show ?thesis by (auto simp: site_live_def)
qed

end
