(* ===== verification/SiteBackups.thy ===== *)
theory SiteBackups
  imports SiteControllerProperties "HOL-Library.Option_ord"
begin

text \<open>
  The backups of a site: which of the finished ones the status update keeps, and the backup that a
  site waits for before it is deleted.
\<close>

section \<open>Retention\<close>

text \<open>
  \<^verbatim>\<open>sort.Slice\<close> permutes its argument and leaves no element before one that is less. With the empty
  value as the least, the comparison of the source is the order of the start times.
\<close>

definition sorts_backups :: "(backup list \<Rightarrow> backup list) \<Rightarrow> bool" where
  "sorts_backups srt \<longleftrightarrow> (\<forall>bs. mset (srt bs) = mset bs \<and> sorted_wrt (\<lambda>a b. \<not> started_before b a) (srt bs))"

lemma started_before_less: "started_before a b \<longleftrightarrow> bd_started (bk_detail a) < bd_started (bk_detail b)"
  by (cases "bd_started (bk_detail a)"; cases "bd_started (bk_detail b)") simp_all

definition by_start :: "backup list \<Rightarrow> backup list" where
  "by_start bs = sort_key (\<lambda>b. bd_started (bk_detail b)) bs"

lemma by_start_sorts: "sorts_backups by_start"
proof -
  have "sorted_wrt (\<lambda>a b. \<not> started_before b a) (by_start bs)" for bs
    using sorted_sort_key[of "\<lambda>b. bd_started (bk_detail b)" bs]
    by (simp add: by_start_def sorted_map started_before_less not_less del: started_before.simps)
  then show ?thesis by (simp add: sorts_backups_def by_start_def)
qed

lemma old_backups_facts:
  assumes "sorts_backups srt" "distinct fs"
  shows "set (old_backups srt fs) \<subseteq> set fs" "card (set fs - set (old_backups srt fs)) = min 3 (length fs)"
    and "a \<in> set (old_backups srt fs) \<Longrightarrow> b \<in> set fs - set (old_backups srt fs) \<Longrightarrow> \<not> started_before b a"
proof -
  define k where "k = length fs - 3"
  have m: "mset (srt fs) = mset fs" and sorted: "sorted_wrt (\<lambda>a b. \<not> started_before b a) (srt fs)"
    using assms(1) by (simp_all add: sorts_backups_def)
  have fs: "set (srt fs) = set fs" "length (srt fs) = length fs" "distinct (srt fs)"
    using m assms(2) by (metis set_mset_mset, metis size_mset, metis mset_eq_imp_distinct_iff)
  have old: "old_backups srt fs = take k (srt fs)" by (simp add: old_backups_def k_def)
  have split: "srt fs = take k (srt fs) @ drop k (srt fs)" by simp
  have kept: "set fs - set (take k (srt fs)) = set (drop k (srt fs))"
  proof -
    have "set fs = set (take k (srt fs)) \<union> set (drop k (srt fs))"
      by (metis fs(1) split set_append)
    moreover have "set (take k (srt fs)) \<inter> set (drop k (srt fs)) = {}"
      by (rule set_take_disj_set_drop_if_distinct[OF fs(3)]) simp
    ultimately show ?thesis by blast
  qed
  show "set (old_backups srt fs) \<subseteq> set fs"
    unfolding old using set_take_subset[of k "srt fs"] fs(1) by simp
  have "card (set (drop k (srt fs))) = length fs - k"
    using fs(2,3) by (simp add: distinct_card)
  then show "card (set fs - set (old_backups srt fs)) = min 3 (length fs)"
    unfolding old kept by (simp add: k_def)
  show "\<not> started_before b a"
    if "a \<in> set (old_backups srt fs)" "b \<in> set fs - set (old_backups srt fs)"
  proof -
    have "sorted_wrt (\<lambda>a b. \<not> started_before b a) (take k (srt fs) @ drop k (srt fs))" using sorted by simp
    with that show ?thesis unfolding old kept sorted_wrt_append by blast
  qed
qed

lemma claim_nothing:
  "\<forall>b \<in> set items. om_controller (bk_meta b) \<noteq> None \<Longrightarrow>
   claim_backups setref bks owner items s w = ((None, fold scan_backup items s), w)"
  by (induction items arbitrary: s) (simp_all add: Let_def)

lemma scan_backups_finished:
  "bs_finished (fold scan_backup items s) = bs_finished s @ filter (\<lambda>b. JobState_IsFinal (bd_state (bk_detail b))) items"
  "bs_claimed (fold scan_backup items s) = bs_claimed s"
  by (induction items arbitrary: s) (simp_all add: scan_backup_def Let_def)

definition of_site :: "staging_site \<Rightarrow> backup \<Rightarrow> bool" where
  "of_site site b \<longleftrightarrow> om_namespace (bk_meta b) = st_namespace site \<and> bk_site b = st_name site"

definition finished_backups :: "staging_site \<Rightarrow> backup list \<Rightarrow> backup set" where
  "finished_backups site bs = {b \<in> set bs. of_site site b \<and> JobState_IsFinal (bd_state (bk_detail b))}"

text \<open>
  C20. Old backups are cleaned up and no others: over a working API server, a status update of a
  site whose backups all have an owner succeeds and leaves three of its finished backups, or all
  when there are not more, and every finished backup that it deletes started no later than every
  one that it leaves. Unfinished backups and the backups of other sites stay.
\<close>

theorem backup_retention:
  assumes store: "kube_store bk_meta (sk_backups cl) objs" "indexed_store bk_meta backup_index (sk_backups cl) objs"
    and srt: "sorts_backups (en_sort e)"
    and keys: "distinct (map (obj_key bk_meta) (objs w))"
    and owned: "\<forall>b \<in> set (objs w). of_site site b \<longrightarrow> om_controller (bk_meta b) \<noteq> None \<and> om_finalizers (bk_meta b) = []"
  shows "\<exists>ch site' w'. update_backups e cl isChanged site w = ((None, ch, site'), w') \<and>
     set (objs w') \<subseteq> set (objs w) \<and>
     set (objs w) - set (objs w') \<subseteq> finished_backups site (objs w) \<and>
     card (finished_backups site (objs w')) = min 3 (card (finished_backups site (objs w))) \<and>
     (\<forall>a \<in> set (objs w) - set (objs w'). \<forall>b \<in> finished_backups site (objs w'). \<not> started_before b a)"
proof -
  let ?items = "filter (of_site site) (objs w)"
  let ?fs = "filter (\<lambda>b. JobState_IsFinal (bd_state (bk_detail b))) ?items"
  let ?old = "old_backups (en_sort e) ?fs"
  have list: "cl_list_field (sk_backups cl) (st_namespace site) index_SiteName (st_name site) w = Inr ?items"
  proof -
    have "of_site site = (\<lambda>x. om_namespace (bk_meta x) = st_namespace site \<and> st_name site \<in> set (backup_index index_SiteName x))"
      by (auto simp: of_site_def backup_index_def)
    then show ?thesis using store(2) by (simp add: indexed_store_def)
  qed
  have inj: "inj_on (obj_key bk_meta) (set (objs w))" "distinct (objs w)"
    using keys by (simp_all add: distinct_map)
  have F: "set ?fs = finished_backups site (objs w)" "card (finished_backups site (objs w)) = length ?fs" "distinct ?fs"
    using inj(2) by (auto simp: finished_backups_def distinct_card[symmetric] intro!: arg_cong[where f = card])
  note old = old_backups_facts[OF srt F(3)]
  have sub: "set ?old \<subseteq> finished_backups site (objs w)" using old(1) F(1) by simp
  have "\<forall>b \<in> set ?old. om_finalizers (bk_meta b) = []"
    using sub owned by (auto simp: finished_backups_def)
  from delete_list[OF store(1) this] obtain w' where
    del: "write_list (cl_delete (sk_backups cl)) ?old w = (None, w')"
      "objs w' = filter (\<lambda>y. obj_key bk_meta y \<notin> obj_key bk_meta ` set ?old) (objs w)" by blast
  have left: "set (objs w') = set (objs w) - set ?old"
  proof -
    have "obj_key bk_meta y \<in> obj_key bk_meta ` set ?old \<longleftrightarrow> y \<in> set ?old" if "y \<in> set (objs w)" for y
      using inj_on_image_mem_iff[OF inj(1) that, of "set ?old"] sub by (auto simp: finished_backups_def)
    then show ?thesis by (auto simp: del(2))
  qed
  have fin': "finished_backups site (objs w') = set ?fs - set ?old"
    unfolding F(1) by (auto simp: finished_backups_def left)
  have gone: "set (objs w) - set (objs w') = set ?old"
    using left sub by (auto simp: finished_backups_def)
  have "\<exists>ch site'. update_backups e cl isChanged site w = ((None, ch, site'), w')"
    using owned del(1) unfolding update_backups_def list
    by (simp add: claim_nothing scan_backups_finished Let_def)
  moreover have "card (finished_backups site (objs w')) = min 3 (card (finished_backups site (objs w)))"
    unfolding fin' F(2) by (rule old(2))
  moreover have "\<forall>a \<in> set (objs w) - set (objs w'). \<forall>b \<in> finished_backups site (objs w'). \<not> started_before b a"
    unfolding gone fin' using old(3) by blast
  ultimately show ?thesis using left gone sub by auto
qed


definition toy_site_clients :: "('w, backup) client \<Rightarrow> 'w site_clients" where
  "toy_site_clients backups =
     \<lparr>sk_configs = toy_config_clients, sk_sites = static_client st_meta [toy_db_site], sk_mysql = static_client db_meta [],
      sk_mongo = static_client db_meta [], sk_redis = static_client rd_meta [], sk_inits = static_client di_meta [],
      sk_migrations = static_client dm_meta [], sk_backups = backups, sk_config_maps = static_client cm_meta [],
      sk_deployments = static_client dp_meta [], sk_services = static_client ks_meta [],
      sk_ingresses = static_client ki_meta []\<rparr>"

definition toy_site_env :: site_env where
  "toy_site_env = \<lparr>en_x = toy_externals, en_clock = (\<lambda>l. 1700000000123456789), en_zone = (\<lambda>t. 7200), en_sort = by_start\<rparr>"

definition toy_done :: "string \<Rightarrow> time \<Rightarrow> backup" where
  "toy_done name t =
     \<lparr>bk_meta = (new_meta name ''ns'' [])\<lparr>om_controller := Some ''my-site''\<rparr>, bk_site = ''my-site'',
      bk_type = BackupTypeScheduled, bk_detail = \<lparr>bd_state = JobComplete, bd_started = Some t, bd_finished = Some (t + 5)\<rparr>,
      bk_services = []\<rparr>"

definition toy_backups :: "backup list" where
  "toy_backups = [toy_done ''a'' 30, toy_done ''b'' 10, toy_done ''c'' 50, toy_done ''d'' 20, toy_done ''e'' 40]"

lemma toy_done_facts:
  "om_name (bk_meta (toy_done n t)) = n" "om_namespace (bk_meta (toy_done n t)) = ''ns''" "bk_site (toy_done n t) = ''my-site''"
  "om_controller (bk_meta (toy_done n t)) \<noteq> None" "om_finalizers (bk_meta (toy_done n t)) = []"
  "JobState_IsFinal (bd_state (bk_detail (toy_done n t)))" "toy_done n t = toy_done m u \<longleftrightarrow> n = m \<and> t = u"
  by (auto simp: toy_done_def new_meta_def)

theorem backup_retention_witness:
  "\<exists>ch site' w'. update_backups toy_site_env (toy_site_clients (index_client bk_meta backup_index)) False toy_db_site
       toy_backups = ((None, ch, site'), w') \<and> card (finished_backups toy_db_site w') = 3"
proof -
  let ?cl = "toy_site_clients (index_client bk_meta backup_index)"
  have store: "kube_store bk_meta (sk_backups ?cl) id" "indexed_store bk_meta backup_index (sk_backups ?cl) id"
    by (simp_all add: toy_site_clients_def index_client_store)
  have srt: "sorts_backups (en_sort toy_site_env)" by (simp add: toy_site_env_def by_start_sorts)
  have keys: "distinct (map (obj_key bk_meta) (id toy_backups))"
    by (simp add: toy_backups_def obj_key_def toy_done_facts)
  have owned: "\<forall>b \<in> set (id toy_backups). of_site toy_db_site b \<longrightarrow> om_controller (bk_meta b) \<noteq> None \<and> om_finalizers (bk_meta b) = []"
    using toy_done_facts(4,5) by (simp add: toy_backups_def)
  have "finished_backups toy_db_site toy_backups = set toy_backups"
    using toy_done_facts(2,3,6) by (auto simp: finished_backups_def of_site_def toy_backups_def)
  moreover have "card (set toy_backups) = 5" by (simp add: toy_backups_def toy_done_facts)
  ultimately have c: "card (finished_backups toy_db_site toy_backups) = 5" by simp
  show ?thesis
    by (insert backup_retention[OF store srt keys owned, of False], elim exE conjE, intro exI conjI, assumption)
      (simp add: c)
qed

text \<open>For the hour 24 of a two-digit clock, and for the hour -1.\<close>

theorem bad_backup_hour_stops_site_witness:
  "(\<exists>err changed site' w'. site_live toy_site_env (toy_site_clients (index_client bk_meta backup_index))
        (toy_backup_time_site 24) [] =
      (SaveStatus changed site' (if err = None then requeue_now else no_requeue) err, w')) \<and>
   (\<exists>err changed site' w'. site_live toy_site_env (toy_site_clients (index_client bk_meta backup_index))
        (toy_backup_time_site (-1)) [] =
      (SaveStatus changed site' (if err = None then requeue_now else no_requeue) err, w'))"
proof -
  have clk: "four_digit_year (local_time (en_zone toy_site_env) (en_clock toy_site_env 2))" unfolding toy_site_env_def site_env.simps by code_simp
  have h: "sp_backup_hour (st_spec (toy_backup_time_site 24)) = Some 24" "sint (24 :: 32 word) < 0 \<or> 24 \<le> sint (24 :: 32 word)"
    "sp_backup_hour (st_spec (toy_backup_time_site (-1))) = Some (-1)" "sint (-1 :: 32 word) < 0 \<or> 24 \<le> sint (-1 :: 32 word)"
    by (simp_all add: toy_backup_time_site_def)
  show ?thesis
    by (insert bad_backup_hour_stops_site[OF h(1,2) clk, of "toy_site_clients (index_client bk_meta backup_index)" "[]"]
          bad_backup_hour_stops_site[OF h(3,4) clk, of "toy_site_clients (index_client bk_meta backup_index)" "[]"])
      (elim exE conjE, intro exI conjI, assumption+)
qed



section \<open>Deletion\<close>

definition final_backup_done :: "site_env \<Rightarrow> 'w site_clients \<Rightarrow> staging_site \<Rightarrow> 'w \<Rightarrow> bool" where
  "final_backup_done e cl site w \<longleftrightarrow>
     (\<exists>b. cl_get (sk_backups cl) (st_namespace site)
             (ShortenHumanReadableValue (ex_md5 (en_x e)) (''final-'' @ st_name site) 63) w = Inr b \<and>
           JobState_IsFinal (bd_state (bk_detail b)))"

text \<open>The site is stored and still carries the finalizer, so that the API server keeps it.\<close>

definition held_back :: "staging_site list \<Rightarrow> staging_site \<Rightarrow> bool" where
  "held_back sites site \<longleftrightarrow>
     (\<exists>s \<in> set sites. obj_key st_meta s = obj_key st_meta site \<and> SiteFinalizerName \<in> set (om_finalizers (st_meta s)))"

text \<open>A backup client that writes nothing into the sites.\<close>

definition leaves_sites :: "('w, backup) client \<Rightarrow> ('w \<Rightarrow> staging_site list) \<Rightarrow> bool" where
  "leaves_sites bks objs \<longleftrightarrow> (\<forall>b w. objs (snd (cl_create bks b w)) = objs w)"

lemma final_backup_keeps_sites:
  assumes "leaves_sites bks objs" "Backup_EnsureFinalBackupIsComplete md5 setref bks now site w = (r, w')"
  shows "objs w' = objs w"
proof -
  have "objs v = objs u" if "cl_create bks b u = (x, v)" for b u v x
    using assms(1)[unfolded leaves_sites_def, rule_format, of b u] that by simp
  with assms(2) show ?thesis
    by (auto simp: Backup_EnsureFinalBackupIsComplete_def split: sum.splits prod.splits if_splits job_state.splits)
qed

lemma finalizer_removed:
  assumes "kube_store st_meta sites objs" "site \<in> set (objs w)" "remove_site_finalizer sites site w = (r, w')"
  shows "\<not> held_back (objs w') site"
proof -
  let ?s = "set_site_finalizers (RemoveStringFromSlice (om_finalizers (st_meta site)) SiteFinalizerName) site"
  have key: "obj_key st_meta ?s = obj_key st_meta site" by (simp add: set_site_finalizers_def obj_key_def)
  have "obj_key st_meta ?s \<in> obj_key st_meta ` set (objs w)" using assms(2) key by auto
  from kube_storeD(3)[OF assms(1) this] obtain w1 where
    w1: "cl_update sites ?s w = (Inr ?s, w1)"
      "objs w1 = map (\<lambda>y. if obj_key st_meta y = obj_key st_meta ?s then ?s else y) (objs w)" by blast
  have w': "w' = w1" using assms(3) unfolding remove_site_finalizer_def w1(1) by simp
  have none: "SiteFinalizerName \<notin> set (om_finalizers (st_meta ?s))" by (simp add: set_site_finalizers_def)
  show ?thesis
  proof
    assume "held_back (objs w') site"
    then obtain s where s: "s \<in> set (objs w1)" "obj_key st_meta s = obj_key st_meta site"
        "SiteFinalizerName \<in> set (om_finalizers (st_meta s))"
      unfolding held_back_def w' by blast
    from s(1) obtain y where sy: "s = (if obj_key st_meta y = obj_key st_meta ?s then ?s else y)"
      unfolding w1(2) set_map by blast
    show False
    proof (cases "obj_key st_meta y = obj_key st_meta ?s")
      case True
      show False using none s(3) unfolding trans[OF sy if_P[OF True]] by (rule notE)
    next
      case False
      show False using False s(2) key unfolding trans[OF sy if_not_P[OF False]] by metis
    qed
  qed
qed

text \<open>
  C10. A site that asks for a backup before its deletion is let go exactly when its final backup is
  finished: with the site Pending and its finalizer in place, a reconcile call removes the finalizer
  when the final backup is stored in a final state, and leaves it in every other case, be it that
  the backup is missing, pending or running or that a call fails.
\<close>

theorem site_released_after_final_backup:
  assumes "kube_store st_meta (sk_sites cl) objs" "leaves_sites (sk_backups cl) objs"
    and "site \<in> set (objs w)" "SiteFinalizerName \<in> set (om_finalizers (st_meta site))"
    and "st_state site = StatePending" "sp_backup_before_delete (st_spec site)"
  shows "held_back (objs (snd (handleDelete e cl site w))) site \<longleftrightarrow> \<not> final_backup_done e cl site w"
proof -
  obtain r w1 where run: "Backup_EnsureFinalBackupIsComplete (ex_md5 (en_x e)) (ex_set_ref (en_x e)) (sk_backups cl)
      (en_clock e 0) site w = (r, w1)" by force
  note same = final_backup_keeps_sites[OF assms(2) run]
  have held: "held_back (objs w1) site" using assms(3,4) unfolding held_back_def same by blast
  have step: "handleDelete e cl site w =
      (case r of Inl err \<Rightarrow> ((no_requeue, Some err), w1)
       | Inr complete \<Rightarrow> if complete then remove_site_finalizer (sk_sites cl) site w1 else ((no_requeue, None), w1))"
    using assms(4-6) run by (simp add: handleDelete_def SliceContainsString_iff)
  have exact: "r = Inr True \<longleftrightarrow> final_backup_done e cl site w"
    using run final_backup_exact[of "ex_md5 (en_x e)" "ex_set_ref (en_x e)" "sk_backups cl" "en_clock e 0" site w w]
      final_backup_exact[of "ex_md5 (en_x e)" "ex_set_ref (en_x e)" "sk_backups cl" "en_clock e 0" site w w1]
    by (auto simp: final_backup_done_def)
  show ?thesis
  proof (cases "r = Inr True")
    case True
    obtain res w2 where rm: "remove_site_finalizer (sk_sites cl) site w1 = (res, w2)" by (metis surj_pair)
    have "\<not> held_back (objs w2) site" by (rule finalizer_removed[OF assms(1) _ rm]) (simp add: same assms(3))
    then show ?thesis using exact True by (simp add: step rm)
  next
    case False
    then have "snd (handleDelete e cl site w) = w1" unfolding step by (cases r) auto
    then show ?thesis using held exact False by simp
  qed
qed


definition toy_deleted_site :: staging_site where
  "toy_deleted_site =
     \<lparr>st_meta = (st_meta toy_db_site)\<lparr>om_deletion := Some 1, om_finalizers := [SiteFinalizerName]\<rparr>,
      st_spec = (st_spec toy_db_site)\<lparr>sp_backup_before_delete := True\<rparr>,
      st_status = (st_status toy_db_site)\<lparr>su_state := StatePending\<rparr>\<rparr>"

definition toy_deletion_clients :: "(staging_site list \<times> backup list) site_clients" where
  "toy_deletion_clients = (toy_site_clients (on_second (index_client bk_meta backup_index)))
     \<lparr>sk_sites := on_first (mem_client st_meta)\<rparr>"

text \<open>Without a backup the site is held back, with a finished one it is let go.\<close>

theorem site_released_after_final_backup_witness:
  "held_back (fst (snd (handleDelete toy_site_env toy_deletion_clients toy_deleted_site ([toy_deleted_site], [])))) toy_deleted_site \<and>
   \<not> held_back (fst (snd (handleDelete toy_site_env toy_deletion_clients toy_deleted_site
        ([toy_deleted_site], [toy_done ''final-my-site'' 7])))) toy_deleted_site"
proof -
  have store: "kube_store st_meta (sk_sites toy_deletion_clients) fst"
    by (auto simp: kube_store_def toy_deletion_clients_def on_first_def mem_client_def)
  have leaves: "leaves_sites (sk_backups toy_deletion_clients) fst"
    by (simp add: leaves_sites_def toy_deletion_clients_def toy_site_clients_def on_second_def)
  have f: "SiteFinalizerName \<in> set (om_finalizers (st_meta toy_deleted_site))" "st_state toy_deleted_site = StatePending"
    "sp_backup_before_delete (st_spec toy_deleted_site)" "st_name toy_deleted_site = ''my-site''"
    "st_namespace toy_deleted_site = ''ns''"
    by (simp_all add: toy_deleted_site_def)
  have name: "ShortenHumanReadableValue (ex_md5 (en_x toy_site_env)) (''final-'' @ ''my-site'') 63 = ''final-my-site''"
    by (simp add: Shorten_short)
  have missing: "\<not> final_backup_done toy_site_env toy_deletion_clients toy_deleted_site ([toy_deleted_site], [])"
    by (simp add: final_backup_done_def toy_deletion_clients_def toy_site_clients_def on_second_def index_client_def mem_client_def)
  have there: "final_backup_done toy_site_env toy_deletion_clients toy_deleted_site
      ([toy_deleted_site], [toy_done ''final-my-site'' 7])"
    unfolding final_backup_done_def f(4,5) name
    by (simp add: toy_deletion_clients_def toy_site_clients_def on_second_def index_client_def mem_client_def obj_key_def
        toy_done_facts)
  have mem: "toy_deleted_site \<in> set (fst ([toy_deleted_site], bs))" for bs :: "backup list" by simp
  note released = site_released_after_final_backup[OF store leaves mem f(1-3)]
  show ?thesis unfolding released using missing there by simp
qed

end
