(* ===== verification/SiteStatus.thy ===== *)
theory SiteStatus
  imports SiteBackups
begin

text \<open>
  The status of a site after \<^verbatim>\<open>ensureStatusIsUpToDate\<close>: what it says exactly, that a second call with
  nothing new finds nothing to change, and that the annotation it starts from reads back.
\<close>

section \<open>The statuses of the services\<close>

definition name_status :: "digest \<Rightarrow> staging_site \<Rightarrow> service_config \<Rightarrow> service_status \<Rightarrow> service_status" where
  "name_status md5 site c s =
     s\<lparr>sst_username := MakeUsername md5 site c, sst_db_name := MakeDatabaseName md5 site c\<rparr>"

lemma name_status_same:
  "(if sst_username s \<noteq> MakeUsername md5 site c \<or> sst_db_name s \<noteq> MakeDatabaseName md5 site c
    then m(k \<mapsto> name_status md5 site c s) else m) = m(k \<mapsto> name_status md5 site c s)"
  if "m k = Some s"
proof -
  have "name_status md5 site c s = s"
    if "sst_username s = MakeUsername md5 site c" "sst_db_name s = MakeDatabaseName md5 site c"
    using that by (cases s) (simp add: name_status_def)
  with that show ?thesis by (auto intro: ext)
qed

lemma sync_service_statuses_lookup:
  assumes "sync_service_statuses md5 site nss (ch, services, configs) = (ch', services', configs')"
    and "wf_map nss" "\<forall>ns \<in> set nss. map_of services (fst ns) = Some (snd ns)"
  shows "map_of services' k =
           (case map_of nss k of
              None \<Rightarrow> map_of services k
            | Some s \<Rightarrow> map_option (\<lambda>c. name_status md5 site c s) (map_of configs k))" (is ?A)
    and "map_of configs' k = (if map_of nss k = None then map_of configs k else None)" (is ?B)
    and "ch' \<longleftrightarrow> ch \<or> (\<exists>k s. map_of nss k = Some s \<and> map_of configs k = None)" (is ?C)
proof -
  have "?A \<and> ?B \<and> ?C"
    using assms
  proof (induction nss arbitrary: ch services configs)
    case (Cons ns nss)
    have no: "map_of nss (fst ns) = None" using Cons.prems(2) by (simp add: map_of_eq_None_iff)
    have ne: "fst m \<noteq> fst ns" if "m \<in> set nss" for m using Cons.prems(2) that by (force simp: image_iff)
    have s: "map_of services (fst ns) = Some (snd ns)" using Cons.prems(3) by simp
    show ?case
    proof (cases "map_of configs (fst ns)")
      case None
      have pre: "\<forall>m \<in> set nss. map_of (AList.delete (fst ns) services) (fst m) = Some (snd m)"
        using Cons.prems(3) ne by (simp add: gomap_simps)
      have run: "sync_service_statuses md5 site nss (True, AList.delete (fst ns) services, configs) = (ch', services', configs')"
        using Cons.prems(1) None by simp
      note IH = Cons.IH[OF run _ pre]
      show ?thesis using IH Cons.prems(2) None no
        by (auto simp: gomap_simps split: option.splits)
    next
      case (Some c)
      let ?services = "if sst_username (snd ns) \<noteq> MakeUsername md5 site c \<or> sst_db_name (snd ns) \<noteq> MakeDatabaseName md5 site c
          then AList.update (fst ns) (name_status md5 site c (snd ns)) services else services"
      have look: "map_of ?services = (map_of services)(fst ns \<mapsto> name_status md5 site c (snd ns))"
        using name_status_same[of "map_of services" "fst ns" "snd ns" md5 site c, OF s]
        by (cases "sst_username (snd ns) \<noteq> MakeUsername md5 site c \<or> sst_db_name (snd ns) \<noteq> MakeDatabaseName md5 site c")
          (simp_all only: AList.update_conv' if_True if_False simp_thms)
      have pre: "\<forall>m \<in> set nss. map_of ?services (fst m) = Some (snd m)"
        unfolding look using Cons.prems(3) ne by simp
      have run: "sync_service_statuses md5 site nss (ch, ?services, AList.delete (fst ns) configs) = (ch', services', configs')"
        using Cons.prems(1) Some unfolding name_status_def by (simp add: Let_def split del: if_split)
      note IH = Cons.IH[OF run _ pre]
      show ?thesis using IH Cons.prems(2) Some no unfolding look
        by (auto simp: gomap_simps split: option.splits)
    qed
  qed simp
  then show ?A ?B ?C by blast+
qed

lemma fold_new_statuses:
  assumes "wf_map ncs"
  shows "map_of (fold (\<lambda>nc. AList.update (fst nc) (f (snd nc))) ncs m) k =
           (case map_of ncs k of Some c \<Rightarrow> Some (f c) | None \<Rightarrow> map_of m k)"
  using assms
proof (induction ncs arbitrary: m)
  case (Cons nc ncs)
  then have "map_of ncs (fst nc) = None" by (simp add: map_of_eq_None_iff)
  with Cons show ?case by (cases nc) (simp add: gomap_simps split: option.splits)
qed simp

text \<open>The status that a service should have, given its configuration and what was there.\<close>

definition service_status_of ::
  "digest \<Rightarrow> staging_site \<Rightarrow> (string \<Rightarrow> service_config option) \<Rightarrow> (string \<Rightarrow> service_status option) \<Rightarrow>
   string \<Rightarrow> service_status option" where
  "service_status_of md5 site cfgs old n =
     map_option (\<lambda>c. case old n of None \<Rightarrow> new_service_status md5 site c | Some s \<Rightarrow> name_status md5 site c s) (cfgs n)"

lemma sync_wf:
  "sync_service_statuses md5 site nss (ch, services, configs) = (ch', services', configs') \<Longrightarrow>
   wf_map configs \<Longrightarrow> wf_map services \<Longrightarrow> wf_map configs' \<and> wf_map services'"
proof (induction nss arbitrary: ch services configs)
  case (Cons ns nss)
  show ?case
  proof (cases "map_of configs (fst ns)")
    case None
    with Cons.prems(1) have "sync_service_statuses md5 site nss (True, AList.delete (fst ns) services, configs) = (ch', services', configs')"
      by simp
    from Cons.IH[OF this Cons.prems(2)] Cons.prems(3) show ?thesis by simp
  next
    case (Some c)
    then obtain services2 where
      run: "sync_service_statuses md5 site nss (ch, services2, AList.delete (fst ns) configs) = (ch', services', configs')"
      and "services2 = services \<or> services2 = AList.update (fst ns) (name_status md5 site c (snd ns)) services"
      using Cons.prems(1) unfolding name_status_def by (simp add: Let_def split: if_splits)
    then have "wf_map services2" using Cons.prems(3) by auto
    with Cons.IH[OF run] Cons.prems(2) show ?thesis by simp
  qed
qed simp

lemma doms_differ: "dom A \<noteq> dom B \<longleftrightarrow> (\<exists>k s. A k = Some s \<and> B k = None) \<or> (\<exists>k. A k = None \<and> B k \<noteq> None)"
proof -
  have "dom A = dom B" if "\<nexists>k s. A k = Some s \<and> B k = None" "\<nexists>k. A k = None \<and> B k \<noteq> None"
  proof (rule set_eqI)
    fix k show "k \<in> dom A \<longleftrightarrow> k \<in> dom B" using that(1)[simplified, THEN spec[of _ k]] that(2)[simplified, THEN spec[of _ k]]
      by (auto simp: dom_def)
  qed
  then show ?thesis by (metis domIff option.distinct(1))
qed

lemma update_services_exact:
  assumes "update_services x site cfgs = (c, site')" "range_order (ex_order x)"
    and "wf_map (su_services (st_status site))" "wf_map cfgs"
  shows "map_of (su_services (st_status site')) =
           service_status_of (ex_md5 x) site (map_of cfgs) (map_of (su_services (st_status site)))"
    and "c \<longleftrightarrow> dom (map_of (su_services (st_status site))) \<noteq> dom (map_of cfgs)"
    and "site' = on_status (\<lambda>s. s\<lparr>su_services := su_services (st_status site')\<rparr>) site"
    and "wf_map (su_services (st_status site'))"
proof -
  let ?old = "su_services (st_status site)"
  let ?nss = "go_range (ex_order x) 61 ?old"
  note nss = go_range_facts[OF assms(2,3), of 61]
  obtain ch services configs where
    sync: "sync_service_statuses (ex_md5 x) site ?nss (False, ?old, cfgs) = (ch, services, configs)"
    by (metis prod_cases3)
  have c: "c \<longleftrightarrow> ch \<or> configs \<noteq> []"
    and site': "site' = on_status (\<lambda>s. s\<lparr>su_services :=
        fold (\<lambda>nc. AList.update (fst nc) (new_service_status (ex_md5 x) site (snd nc)))
          (go_range (ex_order x) 62 configs) services\<rparr>) site"
    using assms(1) by (simp_all add: update_services_def sync)
  have pre: "\<forall>ns \<in> set ?nss. map_of ?old (fst ns) = Some (snd ns)" using assms(3) by (simp add: nss)
  note look = sync_service_statuses_lookup[OF sync nss(2) pre, unfolded nss(3)]
  note wf = sync_wf[OF sync assms(4,3)]
  note cw = go_range_facts[OF assms(2) conjunct1[OF wf], of 62]
  show "map_of (su_services (st_status site')) = service_status_of (ex_md5 x) site (map_of cfgs) (map_of ?old)"
  proof
    fix k
    show "map_of (su_services (st_status site')) k = service_status_of (ex_md5 x) site (map_of cfgs) (map_of ?old) k"
      unfolding site' service_status_of_def
      by (simp add: fold_new_statuses[OF cw(2)] cw(3) look(1,2) on_status_def split: option.split)
  qed
  have "configs \<noteq> [] \<longleftrightarrow> (\<exists>k. map_of ?old k = None \<and> map_of cfgs k \<noteq> None)"
    unfolding alist_empty_iff[of configs] using look(2) by (auto simp: fun_eq_iff)
  then show "c \<longleftrightarrow> dom (map_of ?old) \<noteq> dom (map_of cfgs)"
    unfolding c look(3) doms_differ by blast
  show "site' = on_status (\<lambda>s. s\<lparr>su_services := su_services (st_status site')\<rparr>) site"
    unfolding site' by (simp add: on_status_def)
  have "wf_map (fold (\<lambda>nc. AList.update (fst nc) (new_service_status (ex_md5 x) site (snd nc))) ncs m)"
    if "wf_map m" for ncs :: "service_config gomap" and m
    using that by (induction ncs arbitrary: m) simp_all
  then show "wf_map (su_services (st_status site'))" unfolding site' using wf by (simp add: on_status_def)
qed



section \<open>The whole status\<close>

text \<open>A get returns an object of that namespace and name.\<close>

definition gets_by_name :: "('o \<Rightarrow> object_meta) \<Rightarrow> ('w, 'o) client \<Rightarrow> bool" where
  "gets_by_name meta cl \<longleftrightarrow>
     (\<forall>ns n w x. cl_get cl ns n w = Inr x \<longrightarrow> om_namespace (meta x) = ns \<and> om_name (meta x) = n)"

definition config_of :: "('w, service_config) client \<Rightarrow> staging_site \<Rightarrow> 'w \<Rightarrow> string \<Rightarrow> service_config option" where
  "config_of cfgs site w n =
     (if n \<in> fst ` set (site_services site)
      then (case cl_get cfgs (st_namespace site) n w of Inl err \<Rightarrow> None | Inr c \<Rightarrow> Some c) else None)"

lemma load_status_configs_Inr:
  assumes "load_status_configs cfgs ns w names acc = Inr m" "gets_by_name sc_meta cfgs" "wf_map acc"
  shows "wf_map m \<and> (\<forall>n \<in> set names. \<exists>c. cl_get cfgs ns n w = Inr c) \<and>
    (\<forall>k. map_of m k = (if k \<in> set names then (case cl_get cfgs ns k w of Inl err \<Rightarrow> None | Inr c \<Rightarrow> Some c)
       else map_of acc k))"
  using assms
proof (induction names arbitrary: acc)
  case (Cons n names)
  then obtain c where c: "cl_get cfgs ns n w = Inr c"
    and run: "load_status_configs cfgs ns w names (AList.update (sc_name c) c acc) = Inr m"
    by (auto split: sum.splits)
  have n: "sc_name c = n" using Cons.prems(2) c by (simp add: gets_by_name_def)
  show ?case using Cons.IH[OF run Cons.prems(2)] Cons.prems(3) c by (simp add: n gomap_simps)
qed simp

lemma site_configs_loaded:
  assumes "load_status_configs cfgs (st_namespace site) w (map fst (go_range ord 60 (site_services site))) [] = Inr m"
    and "gets_by_name sc_meta cfgs" "range_order ord" "wf_map (site_services site)"
  shows "wf_map m" "map_of m = config_of cfgs site w" "dom (map_of m) = fst ` set (site_services site)"
proof -
  note names = go_range_facts(1)[OF assms(3,4), of 60]
  note load = load_status_configs_Inr[OF assms(1,2), simplified, unfolded names set_map]
  show "wf_map m" using load by blast
  show m: "map_of m = config_of cfgs site w" using load by (simp add: fun_eq_iff config_of_def)
  show "dom (map_of m) = fst ` set (site_services site)"
  proof (rule set_eqI)
    fix n
    show "n \<in> dom (map_of m) \<longleftrightarrow> n \<in> fst ` set (site_services site)"
    proof (cases "n \<in> fst ` set (site_services site)")
      case True
      then obtain c where "cl_get cfgs (st_namespace site) n w = Inr c" using load by blast
      then show ?thesis using True unfolding domIff m config_of_def by simp
    next
      case False
      then show ?thesis unfolding domIff m config_of_def by simp
    qed
  qed
qed

lemma update_backups_site:
  assumes "update_backups e cl c site w = ((err, ch, site'), w')"
  obtains l where "site' = on_status (\<lambda>s. s\<lparr>su_last_backup := l\<rparr>) site"
proof (cases "cl_list_field (sk_backups cl) (st_namespace site) index_SiteName (st_name site) w")
  case (Inl er)
  then have "site' = site" using assms by (simp add: update_backups_def)
  then show thesis using that[of "su_last_backup (st_status site)"] by (simp add: on_status_def)
next
  case (Inr items)
  note run = assms[unfolded update_backups_def Inr sum.case Let_def]
  let ?s0 = "\<lparr>bs_last = su_last_backup (st_status site), bs_changed = c, bs_finished = [], bs_claimed = False\<rparr>"
  obtain er s u1 where cl: "claim_backups (ex_set_ref (en_x e)) (sk_backups cl) (st_meta site) items ?s0 w = ((er, s), u1)"
    by (metis surj_pair)
  obtain er2 u2 where wl: "write_list (cl_delete (sk_backups cl)) (old_backups (en_sort e) (bs_finished s)) u1 = (er2, u2)" by force
  let ?newer = "bs_last s \<noteq> None \<and> (su_last_backup (st_status site) = None \<or>
      the (su_last_backup (st_status site)) < the (bs_last s))"
  have "site' = site \<or> site' = (if ?newer then on_status (\<lambda>t. t\<lparr>su_last_backup := bs_last s\<rparr>) site else site)"
    using run unfolding cl prod.case wl
    by (cases er; cases "bs_claimed s"; simp only: option.case if_True if_False prod.case prod.inject simp_thms; blast)
  then have "site' = site \<or> site' = on_status (\<lambda>t. t\<lparr>su_last_backup := bs_last s\<rparr>) site"
    by (metis (full_types))
  then show thesis using that[of "su_last_backup (st_status site)"] that[of "bs_last s"] by (auto simp: on_status_def)
qed

lemma names_depend_on_spec:
  "st_spec a = st_spec b \<Longrightarrow> st_meta a = st_meta b \<Longrightarrow>
     MakeUsername md5 a c = MakeUsername md5 b c \<and> MakeDatabaseName md5 a c = MakeDatabaseName md5 b c"
  by (simp add: MakeUsername_def MakeDatabaseName_def)

lemma service_status_of_same:
  assumes "st_spec a = st_spec b" "st_meta a = st_meta b"
  shows "service_status_of md5 a = service_status_of md5 b"
proof -
  have names: "MakeUsername md5 a = MakeUsername md5 b" "MakeDatabaseName md5 a = MakeDatabaseName md5 b"
    using names_depend_on_spec[OF assms] by (auto intro: ext)
  show ?thesis unfolding service_status_of_def new_service_status_def name_status_def names ..
qed

definition due_after :: "time \<Rightarrow> time_interval \<Rightarrow> time option" where
  "due_after t i = (if ti_never i then None else Some (time_add t (ToDuration i)))"

lemma scheduled_time_exact: "scheduled_time t i current = (current \<noteq> due_after t i, due_after t i)"
  by (auto simp: scheduled_time_def due_after_def Let_def)

text \<open>What a status says that is up to date with a spec that last changed at \<open>t\<close>.\<close>

definition status_exact ::
  "site_env \<Rightarrow> ('w, service_config) client \<Rightarrow> staging_site \<Rightarrow> 'w \<Rightarrow> time \<Rightarrow> site_status \<Rightarrow> bool" where
  "status_exact e cfgs site w t s \<longleftrightarrow>
     su_disable_at s = due_after t (sp_disable_after (st_spec site)) \<and>
     su_delete_at s = due_after t (sp_delete_after (st_spec site)) \<and>
     (su_enabled s \<longleftrightarrow> sp_enabled (st_spec site) \<and> (su_disable_at s = None \<or> en_clock e 1 < the (su_disable_at s))) \<and>
     su_last_applied s \<noteq> None \<and> t \<le> the (su_last_applied s) \<and>
     map_of (su_services s) =
       service_status_of (ex_md5 (en_x e)) site (config_of cfgs site w) (map_of (su_services (st_status site))) \<and>
     su_state s \<noteq> StateUnset \<and> su_health s \<noteq> WorkloadHealthUnset \<and>
     (sp_backup_hour (st_spec site) = None \<longrightarrow> su_next_backup s = None)"


text \<open>The fields of the status along the steps.\<close>

lemma update_schedule_status:
  "update_schedule t site = (c, site') \<Longrightarrow>
     site' = on_status (\<lambda>s. s\<lparr>su_disable_at := due_after t (sp_disable_after (st_spec site)),
       su_delete_at := due_after t (sp_delete_after (st_spec site))\<rparr>) site \<and>
     (c \<longleftrightarrow> su_disable_at (st_status site) \<noteq> due_after t (sp_disable_after (st_spec site)) \<or>
            su_delete_at (st_status site) \<noteq> due_after t (sp_delete_after (st_spec site)))"
  by (auto simp: update_schedule_def scheduled_time_exact)

definition expected_enabled :: "time \<Rightarrow> staging_site \<Rightarrow> bool" where
  "expected_enabled now site \<longleftrightarrow> sp_enabled (st_spec site) \<and>
     (su_disable_at (st_status site) = None \<or> now < the (su_disable_at (st_status site)))"

lemma update_enabled_status:
  "update_enabled now site = (c, site') \<Longrightarrow>
     site' = (if c then on_status (\<lambda>s. s\<lparr>su_enabled := expected_enabled now site, su_state := StatePending\<rparr>) site else site) \<and>
     (c \<longleftrightarrow> su_enabled (st_status site) \<noteq> expected_enabled now site)"
  by (auto simp: update_enabled_def expected_enabled_def Let_def split: if_splits)

lemma update_last_applied_status:
  "update_last_applied t site = (c, site') \<Longrightarrow>
     site' = (if c then on_status (\<lambda>s. s\<lparr>su_last_applied := Some t\<rparr>) site else site) \<and>
     (c \<longleftrightarrow> su_last_applied (st_status site) = None \<or> the (su_last_applied (st_status site)) < t)"
  by (auto simp: update_last_applied_def split: if_splits)

lemma update_next_backup_status:
  "update_next_backup zone now site = (er, c, site') \<Longrightarrow> \<exists>n. site' = on_status (\<lambda>s. s\<lparr>su_next_backup := n\<rparr>) site \<and>
     (sp_backup_hour (st_spec site) = None \<longrightarrow> n = None)"
  by (auto simp: update_next_backup_def on_status_def split: option.splits sum.splits if_splits
      intro: exI[of _ "su_next_backup (st_status site)"])

lemma spec_change_time_pending:
  "spec_change_time zone now (pending_if_unset site) = map_prod id (map_prod id pending_if_unset) (spec_change_time zone now site)"
  by (auto simp: spec_change_time_def pending_if_unset_def on_status_def Let_def split: option.splits)

text \<open>The schedule, the switch and the time of the last applied configuration.\<close>

lemma status_first_steps:
  assumes 1: "update_schedule t (pending_if_unset site) = (c1, s1)" and 2: "update_enabled now s1 = (c2, s2)"
    and 3: "update_last_applied t s2 = (c3, s3)"
  shows "st_spec s3 = st_spec site" "st_meta s3 = st_meta site"
    "su_services (st_status s3) = su_services (st_status site)"
    "su_disable_at (st_status s3) = due_after t (sp_disable_after (st_spec site))"
    "su_delete_at (st_status s3) = due_after t (sp_delete_after (st_spec site))"
    "su_enabled (st_status s3) \<longleftrightarrow> sp_enabled (st_spec site) \<and>
       (su_disable_at (st_status s3) = None \<or> now < the (su_disable_at (st_status s3)))"
    "su_state (st_status s3) \<noteq> StateUnset"
    "su_last_applied (st_status s3) \<noteq> None \<and> t \<le> the (su_last_applied (st_status s3))"
proof -
  note 1 = update_schedule_status[OF 1] and 2 = update_enabled_status[OF 2] and 3 = update_last_applied_status[OF 3]
  show "st_spec s3 = st_spec site" "st_meta s3 = st_meta site"
    "su_services (st_status s3) = su_services (st_status site)"
    and early: "su_disable_at (st_status s3) = due_after t (sp_disable_after (st_spec site))"
    "su_delete_at (st_status s3) = due_after t (sp_delete_after (st_spec site))"
    and "su_state (st_status s3) \<noteq> StateUnset"
    "su_last_applied (st_status s3) \<noteq> None \<and> t \<le> the (su_last_applied (st_status s3))"
    using 1 2 3 by (auto simp: pending_if_unset_def)
  have "su_enabled (st_status s3) = expected_enabled now s1" using 2 3 by auto
  then show "su_enabled (st_status s3) \<longleftrightarrow> sp_enabled (st_spec site) \<and>
       (su_disable_at (st_status s3) = None \<or> now < the (su_disable_at (st_status s3)))"
    using 1 by (simp add: expected_enabled_def early pending_if_unset_def)
qed

lemma status_update:
  assumes "ensureStatusIsUpToDate e cl site w = ((None, ch, site'), w')"
    and "spec_change_time (en_zone e) (en_clock e 0) site = (False, t, site)"
    and "range_order (ex_order (en_x e))" "wf_map (site_services site)" "wf_map (su_services (st_status site))"
    and "gets_by_name sc_meta (cc_service (sk_configs cl))"
  obtains s c5 s5 ch0 where
    "st_spec site' = st_spec site" "st_meta site' = st_meta site"
    "status_exact e (cc_service (sk_configs cl)) site w t (st_status site')"
    "dom (map_of (su_services (st_status site'))) = fst ` set (site_services site)"
    "wf_map (su_services (st_status site'))"
    "update_next_backup (en_zone e) (en_clock e 2) s = (None, c5, s5)" "st_spec s = st_spec site"
    "st_spec s5 = st_spec site" "st_meta s5 = st_meta site" "su_next_backup (st_status site') = su_next_backup (st_status s5)"
    "update_backups e cl ch0 s5 w = ((None, ch, site'), w')"
  using assms(1)
proof (cases rule: ensureStatus_cases)
  case (annotation q s0)
  then show thesis using assms(2) by (simp add: spec_change_time_pending)
next
  case config
  then show thesis by simp
next
  case (body t' s1 s2 s3 s4 c1 c2 c3 c4 cfgs er c5 s5)
  let ?p = "pending_if_unset site"
  have t: "t' = t" using body(1) assms(2) by (simp add: spec_change_time_pending)
  note first = status_first_steps[OF body(2-4)]
  note keep = first(1-3)
  note cfgs = site_configs_loaded[OF body(5) assms(6,3,4)]
  note 4 = update_services_exact[OF body(6) assms(3) assms(5)[folded keep(3)] cfgs(1)]
  have spec: "st_spec (update_health s4) = st_spec site"
    using steps_keep_spec(4)[OF body(6)] by (simp only: steps_keep_spec(5) keep)
  have "\<exists>n. s5 = on_status (\<lambda>s. s\<lparr>su_next_backup := n\<rparr>) (update_health s4) \<and>
      (sp_backup_hour (st_spec site) = None \<longrightarrow> n = None)"
    using update_next_backup_status[OF body(7)] unfolding spec .
  then obtain n where 5: "s5 = on_status (\<lambda>s. s\<lparr>su_next_backup := n\<rparr>) (update_health s4)"
    "sp_backup_hour (st_spec site) = None \<longrightarrow> n = None" by (elim exE conjE)
  have run: "update_backups e cl (c1 \<or> c2 \<or> c3 \<or> c4 \<or> c5) s5 w = ((None, ch, site'), w')" "er = None" using body(8) by blast+
  obtain l where 6: "site' = on_status (\<lambda>s. s\<lparr>su_last_backup := l\<rparr>) s5" using run(1) by (rule update_backups_site)
  have services: "map_of (su_services (st_status s4)) =
      service_status_of (ex_md5 (en_x e)) site (config_of (cc_service (sk_configs cl)) site w) (map_of (su_services (st_status site)))"
    using 4(1) unfolding cfgs(2) keep(3) service_status_of_same[OF keep(1,2)] .
  have s5: "st_spec site' = st_spec site" "st_meta site' = st_meta site"
    using 6 5(1) steps_keep_spec(4)[OF body(6)] by (simp_all add: steps_keep_spec keep)
  obtain sv where s4: "s4 = on_status (\<lambda>s. s\<lparr>su_services := sv\<rparr>) s3" using 4(3) by blast
  have rest: "su_services (st_status site') = su_services (st_status s4)" "su_disable_at (st_status site') = su_disable_at (st_status s3)"
    "su_delete_at (st_status site') = su_delete_at (st_status s3)" "su_enabled (st_status site') = su_enabled (st_status s3)"
    "su_last_applied (st_status site') = su_last_applied (st_status s3)" "su_state (st_status site') = su_state (st_status s3)"
    "su_health (st_status site') \<noteq> WorkloadHealthUnset" "su_next_backup (st_status site') = n"
    by (simp_all add: 6 5(1) update_health_def s4)
  have "dom (map_of (su_services (st_status site'))) = fst ` set (site_services site)"
    unfolding rest services cfgs(3)[symmetric] cfgs(2) by (auto simp: service_status_of_def dom_def)
  then have exact: "status_exact e (cc_service (sk_configs cl)) site w t (st_status site')"
      "dom (map_of (su_services (st_status site'))) = fst ` set (site_services site)"
    using first(4-8) 5(2) rest services unfolding status_exact_def t by simp_all
  have s5': "st_spec s5 = st_spec site" "st_meta s5 = st_meta site" "su_next_backup (st_status site') = su_next_backup (st_status s5)"
    using s5 by (simp_all add: 6)
  show thesis
    by (rule that[OF s5 exact _ body(7)[unfolded run(2)] spec s5' run(1)]) (use 4(4) in \<open>simp add: rest\<close>)
qed

text \<open>
  C14. Once the annotation can be read, a call that returns without an error leaves a status that says
  exactly what the spec, the configurations and the clock imply: the two deadlines counted from the
  last change of the spec, whether the site is enabled, one status per service of the spec with its
  names and nothing for other services.
\<close>

theorem status_says_what_is:
  assumes "ensureStatusIsUpToDate e cl site w = ((None, ch, site'), w')"
    and "spec_change_time (en_zone e) (en_clock e 0) site = (False, t, site)"
    and "range_order (ex_order (en_x e))" "wf_map (site_services site)" "wf_map (su_services (st_status site))"
    and "gets_by_name sc_meta (cc_service (sk_configs cl))"
  shows "st_spec site' = st_spec site \<and> st_meta site' = st_meta site \<and>
    status_exact e (cc_service (sk_configs cl)) site w t (st_status site') \<and>
    dom (map_of (su_services (st_status site'))) = fst ` set (site_services site)"
  by (rule status_update[OF assms]) (intro conjI; assumption)

section \<open>The status settles\<close>

lemma on_status_id: "f (st_status site) = st_status site \<Longrightarrow> on_status f site = site"
  by (simp add: on_status_def)

lemma sync_nothing:
  assumes "\<forall>ns \<in> set nss. \<exists>c. map_of configs (fst ns) = Some c \<and>
      sst_username (snd ns) = MakeUsername md5 site c \<and> sst_db_name (snd ns) = MakeDatabaseName md5 site c"
    and "wf_map nss"
  shows "\<exists>configs'. sync_service_statuses md5 site nss (ch, services, configs) = (ch, services, configs')"
  using assms
proof (induction nss arbitrary: configs)
  case (Cons ns nss)
  then obtain c where c: "map_of configs (fst ns) = Some c" "sst_username (snd ns) = MakeUsername md5 site c"
    "sst_db_name (snd ns) = MakeDatabaseName md5 site c" by auto
  have "\<forall>m \<in> set nss. \<exists>c. map_of (AList.delete (fst ns) configs) (fst m) = Some c \<and>
      sst_username (snd m) = MakeUsername md5 site c \<and> sst_db_name (snd m) = MakeDatabaseName md5 site c"
  proof
    fix m assume m: "m \<in> set nss"
    then have "fst m \<noteq> fst ns" using Cons.prems(2) by (force simp: image_iff)
    then show "\<exists>c. map_of (AList.delete (fst ns) configs) (fst m) = Some c \<and>
        sst_username (snd m) = MakeUsername md5 site c \<and> sst_db_name (snd m) = MakeDatabaseName md5 site c"
      using Cons.prems(1) m by (simp add: gomap_simps)
  qed
  from Cons.IH[OF this] Cons.prems(2) c show ?case by simp
qed simp

lemma update_services_nothing:
  assumes "range_order (ex_order x)" "wf_map (su_services (st_status site))" "wf_map cfgs"
    and "map_of (su_services (st_status site)) = service_status_of (ex_md5 x) site (map_of cfgs) old"
  shows "update_services x site cfgs = (False, site)"
proof -
  let ?old = "su_services (st_status site)"
  note nss = go_range_facts[OF assms(1,2), of 61]
  have known: "\<exists>c. map_of cfgs n = Some c \<and> sst_username s = MakeUsername (ex_md5 x) site c \<and>
      sst_db_name s = MakeDatabaseName (ex_md5 x) site c" if "(n, s) \<in> set ?old" for n s
  proof -
    have "service_status_of (ex_md5 x) site (map_of cfgs) old n = Some s"
      unfolding assms(4)[symmetric] using that assms(2) by simp
    then show ?thesis
      by (auto simp: service_status_of_def new_service_status_def name_status_def split: option.splits)
  qed
  have "\<forall>ns \<in> set (go_range (ex_order x) 61 ?old). \<exists>c. map_of cfgs (fst ns) = Some c \<and>
      sst_username (snd ns) = MakeUsername (ex_md5 x) site c \<and> sst_db_name (snd ns) = MakeDatabaseName (ex_md5 x) site c"
    unfolding nss(1) using known by force
  from sync_nothing[OF this nss(2)] obtain configs' where
    sync: "sync_service_statuses (ex_md5 x) site (go_range (ex_order x) 61 ?old) (False, ?old, cfgs) = (False, ?old, configs')"
    by blast
  have pre: "\<forall>ns \<in> set (go_range (ex_order x) 61 ?old). map_of ?old (fst ns) = Some (snd ns)"
    using assms(2) by (simp add: nss)
  have dom: "map_of cfgs k = None" if "map_of ?old k = None" for k
    using that unfolding assms(4) by (simp add: service_status_of_def)
  have "map_of configs' k = None" for k
    using sync_service_statuses_lookup(2)[OF sync nss(2) pre, of k] dom[of k] by (simp add: nss(3))
  then have "configs' = []" unfolding alist_empty_iff by (simp add: fun_eq_iff)
  then show ?thesis using assms(1) by (simp add: update_services_def sync on_status_id)
qed

lemma update_next_backup_hour:
  assumes "update_next_backup zone now site = (None, c, site')" "four_digit_year (local_time zone now)"
    and "\<And>h. sp_backup_hour (st_spec site) = Some h \<Longrightarrow> 0 \<le> sint h \<and> sint h < 24"
    and "st_spec site' = st_spec site" "su_next_backup (st_status b) = su_next_backup (st_status site')"
    "st_spec b = st_spec site"
  shows "update_next_backup zone now b = (None, False, b)"
proof (cases "sp_backup_hour (st_spec site)")
  case None
  then have "su_next_backup (st_status site') = None"
    using assms(1) by (auto simp: update_next_backup_def split: if_splits)
  then show ?thesis using None assms(5,6) by (simp add: update_next_backup_def)
next
  case (Some h)
  have "\<exists>n. su_next_backup (st_status site') = Some n \<and> go_hour n = sint h"
    using assms(1) Some next_backup_window[OF Some _ _ assms(2)] assms(3)[OF Some]
    by (auto simp: update_next_backup_def split: if_splits)
  then show ?thesis using Some assms(5,6) by (auto simp: update_next_backup_def)
qed


text \<open>The latest successful backup.\<close>

definition covers :: "time option \<Rightarrow> backup \<Rightarrow> bool" where
  "covers l b \<longleftrightarrow> bd_state (bk_detail b) = JobComplete \<longrightarrow> bd_finished (bk_detail b) \<le> l"

lemma scan_backup_last:
  "bs_last s \<le> bs_last (scan_backup b s)" "covers (bs_last (scan_backup b s)) b"
  "covers (bs_last s) b \<Longrightarrow> bs_last (scan_backup b s) = bs_last s \<and> bs_changed (scan_backup b s) = bs_changed s"
  by (cases "bs_last s"; cases "bd_finished (bk_detail b)"; auto simp: scan_backup_def covers_def Let_def)+

lemma covers_mono: "covers l b \<Longrightarrow> l \<le> m \<Longrightarrow> covers m b"
  by (auto simp: covers_def intro: order_trans)

lemma fold_scan_last:
  "bs_last s \<le> bs_last (fold scan_backup items s)"
  "\<forall>b \<in> set items. covers (bs_last (fold scan_backup items s)) b"
proof (induction items arbitrary: s)
  case (Cons b items)
  { case 1 show ?case using scan_backup_last(1)[of s b] Cons(1)[of "scan_backup b s"] by (auto intro: order_trans)
  next
    case 2 show ?case
      using Cons(2)[of "scan_backup b s"] covers_mono[OF scan_backup_last(2) Cons(1)[of "scan_backup b s"]] by simp }
qed simp_all

lemma fold_scan_covered:
  "\<forall>b \<in> set items. covers (bs_last s) b \<Longrightarrow>
     bs_last (fold scan_backup items s) = bs_last s \<and> bs_changed (fold scan_backup items s) = bs_changed s"
  by (induction items arbitrary: s) (simp_all add: scan_backup_last(3))

lemma update_backups_quiet:
  assumes "cl_list_field (sk_backups cl) (st_namespace site) index_SiteName (st_name site) w = Inr items"
    and "\<forall>b \<in> set items. om_controller (bk_meta b) \<noteq> None"
    and "length (filter (\<lambda>b. JobState_IsFinal (bd_state (bk_detail b))) items) \<le> 3"
  shows "\<exists>ch' l. update_backups e cl ch site w = ((None, ch', on_status (\<lambda>s. s\<lparr>su_last_backup := l\<rparr>) site), w) \<and>
           (\<forall>b \<in> set items. covers l b) \<and>
           ((\<forall>b \<in> set items. covers (su_last_backup (st_status site)) b) \<longrightarrow>
              ch' = ch \<and> l = su_last_backup (st_status site))"
proof -
  let ?init = "\<lparr>bs_last = su_last_backup (st_status site), bs_changed = ch, bs_finished = [], bs_claimed = False\<rparr>"
  let ?scan = "fold scan_backup items ?init"
  let ?newer = "bs_last ?scan \<noteq> None \<and> (su_last_backup (st_status site) = None \<or>
      the (su_last_backup (st_status site)) < the (bs_last ?scan))"
  have old: "old_backups (en_sort e) (bs_finished ?scan) = []"
    using assms(3) by (simp add: old_backups_def scan_backups_finished)
  have mono: "su_last_backup (st_status site) \<le> bs_last ?scan" using fold_scan_last(1)[where s = ?init and items = items] by simp
  have newer: "?newer \<longleftrightarrow> bs_last ?scan \<noteq> su_last_backup (st_status site)"
    using mono by (cases "bs_last ?scan"; cases "su_last_backup (st_status site)") auto
  have "update_backups e cl ch site w =
      ((None, bs_changed ?scan \<or> ?newer, on_status (\<lambda>s. s\<lparr>su_last_backup := bs_last ?scan\<rparr>) site), w)"
    unfolding update_backups_def assms(1) sum.case claim_nothing[OF assms(2)] prod.case option.case Let_def old newer
    by (auto simp: scan_backups_finished on_status_def)
  moreover have "\<forall>b \<in> set items. covers (bs_last ?scan) b" by (rule fold_scan_last(2))
  moreover have "bs_changed ?scan = ch \<and> bs_last ?scan = su_last_backup (st_status site)"
    if "\<forall>b \<in> set items. covers (su_last_backup (st_status site)) b"
    using fold_scan_covered[of items ?init] that by simp
  ultimately show ?thesis using newer by blast
qed

text \<open>A status that says what is has nothing to change in its first steps.\<close>

lemma exact_is_quiet:
  assumes exact: "status_exact e cfgs site w t (st_status site')" and keep: "st_spec site' = st_spec site"
  shows "pending_if_unset site' = site'" "update_schedule t site' = (False, site')"
    "update_enabled (en_clock e 1) site' = (False, site')" "update_last_applied t site' = (False, site')"
    "update_health site' = site'"
proof -
  note exact = exact[unfolded status_exact_def]
  show "pending_if_unset site' = site'" using exact by (simp add: pending_if_unset_def)
  show "update_schedule t site' = (False, site')"
    using exact keep by (simp add: update_schedule_def scheduled_time_exact on_status_id)
  show "update_enabled (en_clock e 1) site' = (False, site')" using exact keep by (simp add: update_enabled_def Let_def)
  show "update_last_applied t site' = (False, site')" using exact by (simp add: update_last_applied_def not_less)
  show "update_health site' = site'" using exact by (simp add: update_health_def)
qed

text \<open>
  C13. The status settles: when a call has brought it up to date and neither the configurations nor the
  backups change, the next call finds nothing to change, so that the reconcile goes on to the stages.
  The backup hour must be one of the day; \<open>bad_backup_hour_stops_site\<close> shows what happens otherwise.
\<close>

theorem status_settles:
  assumes "ensureStatusIsUpToDate e cl site w = ((None, ch, site'), w')"
    and "spec_change_time (en_zone e) (en_clock e 0) site = (False, t, site)"
    and "range_order (ex_order (en_x e))" "wf_map (site_services site)" "wf_map (su_services (st_status site))"
    and "gets_by_name sc_meta (cc_service (sk_configs cl))" "four_digit_year (local_time (en_zone e) (en_clock e 2))"
    and "\<And>h. sp_backup_hour (st_spec site) = Some h \<Longrightarrow> 0 \<le> sint h \<and> sint h < 24"
    and "cl_list_field (sk_backups cl) (st_namespace site) index_SiteName (st_name site) w = Inr items"
    and "\<forall>b \<in> set items. om_controller (bk_meta b) \<noteq> None"
    and "length (filter (\<lambda>b. JobState_IsFinal (bd_state (bk_detail b))) items) \<le> 3"
  shows "w' = w \<and> ensureStatusIsUpToDate e cl site' w = ((None, False, site'), w)"
proof -
  obtain s c5 s5 ch0 where keep: "st_spec site' = st_spec site" "st_meta site' = st_meta site"
    and exact: "status_exact e (cc_service (sk_configs cl)) site w t (st_status site')"
    and wf': "wf_map (su_services (st_status site'))"
    and next1: "update_next_backup (en_zone e) (en_clock e 2) s = (None, c5, s5)" "st_spec s = st_spec site"
    and s5: "st_spec s5 = st_spec site" "st_meta s5 = st_meta site" "su_next_backup (st_status site') = su_next_backup (st_status s5)"
    and run: "update_backups e cl ch0 s5 w = ((None, ch, site'), w')"
    by (rule status_update[OF assms(1-6)])
  note quiet = exact_is_quiet[OF exact keep(1)] and exact = exact[unfolded status_exact_def]
  obtain l where site': "site' = on_status (\<lambda>s. s\<lparr>su_last_backup := l\<rparr>) s5" "w' = w" "\<forall>b \<in> set items. covers l b"
    using update_backups_quiet[of cl s5 w items e ch0] assms(9-11) run s5(2) by auto
  have backups: "update_backups e cl False site' w = ((None, False, site'), w)"
    using update_backups_quiet[of cl site' w items e False] assms(9-11) keep site'(1,3)
    by (auto simp: on_status_def)
  have sc: "spec_change_time (en_zone e) (en_clock e 0) site' = (False, t, site')"
    using assms(2) keep(2) by (auto simp: spec_change_time_def Let_def split: if_splits option.splits)
  obtain cfgs where load: "load_status_configs (cc_service (sk_configs cl)) (st_namespace site) w
      (map fst (go_range (ex_order (en_x e)) 60 (site_services site))) [] = Inr cfgs"
    using assms(1)
  proof (cases rule: ensureStatus_cases)
    case (annotation q s0)
    then show ?thesis using assms(2) by (simp add: spec_change_time_pending)
  qed (use that in auto)
  note cfgs = site_configs_loaded[OF load assms(6,3,4)]
  have 4: "update_services (en_x e) site' cfgs = (False, site')"
    by (rule update_services_nothing[OF assms(3) wf' cfgs(1), where old = "map_of (su_services (st_status site))"])
      (use exact in \<open>simp add: cfgs(2) service_status_of_same[OF keep]\<close>)
  have 5: "update_next_backup (en_zone e) (en_clock e 2) site' = (None, False, site')"
    by (rule update_next_backup_hour[OF next1(1) assms(7)]) (use assms(8) keep s5 next1(2) in simp_all)
  have "ensureStatusIsUpToDate e cl site' w = ((None, False, site'), w)"
    unfolding ensureStatusIsUpToDate_def Let_def pending_if_unset_def[symmetric] quiet(1) sc prod.case if_False quiet(2-4)
      keep load sum.case 4 quiet(5) 5 option.case
    using backups by simp
  with site'(2) show ?thesis by simp
qed


text \<open>
  C33. The annotation with the time of the last change reads back: the call that writes it makes every
  later call find the same instant, cut to the second, and leave the annotation alone. The local zone may be
  any whole number of minutes from UTC, and another one at the later call.
\<close>

theorem spec_change_time_reads_back:
  assumes "spec_change_time zone now site = (True, t, site')" "four_digit_year (local_time zone now)"
    and "whole_minutes (zone now)"
  shows "t = now \<and> spec_change_time zone' later site' = (False, now - now mod second_ns, site') \<and>
         st_spec site' = st_spec site \<and> st_status site' = st_status site"
proof -
  have "parse_rfc3339 [] = None" by code_simp
  then have "format_rfc3339 zone now \<noteq> []" using parse_format[OF assms(2,3)] by auto
  moreover have "site' = site\<lparr>st_meta := (st_meta site)\<lparr>om_annotations :=
      AList.update StagingSiteLastSpecChangeAt (format_rfc3339 zone now) (om_annotations (st_meta site))\<rparr>\<rparr>" "t = now"
    using assms(1) by (auto simp: spec_change_time_def Let_def split: if_splits option.splits)
  ultimately show ?thesis
    using parse_format[OF assms(2,3)] by (simp add: spec_change_time_def lookup_or_def gomap_simps)
qed


section \<open>A concrete status\<close>

definition toy_annotated_site :: staging_site where
  "toy_annotated_site = (toy_backup_time_site 14)\<lparr>st_meta := (st_meta (toy_backup_time_site 14))
     \<lparr>om_annotations := [(StagingSiteLastSpecChangeAt, ''2023-11-14T00:00:00Z'')]\<rparr>\<rparr>"

definition toy_status_run :: "backup list status_result" where
  "toy_status_run = ensureStatusIsUpToDate toy_site_env (toy_site_clients (index_client bk_meta backup_index)) toy_annotated_site []"

definition toy_status_site :: staging_site where
  "toy_status_site = snd (snd (fst toy_status_run))"

lemma toy_status_ok:
  "ensureStatusIsUpToDate toy_site_env (toy_site_clients (index_client bk_meta backup_index)) toy_annotated_site [] =
     ((None, fst (snd (fst toy_status_run)), toy_status_site), snd toy_status_run)"
proof -
  have "fst (fst toy_status_run) = None" by code_simp
  then show ?thesis unfolding toy_status_run_def[symmetric] toy_status_site_def by (simp add: prod_eq_iff)
qed

lemma toy_annotation_read:
  "spec_change_time (en_zone toy_site_env) (en_clock toy_site_env 0) toy_annotated_site = (False, 1699920000000000000, toy_annotated_site)"
proof -
  have "parse_rfc3339 ''2023-11-14T00:00:00Z'' = Some 1699920000000000000" by code_simp
  then show ?thesis by (simp add: spec_change_time_def toy_annotated_site_def lookup_or_def)
qed

lemma static_gets_by_name: "gets_by_name meta (static_client meta xs)"
  by (auto simp: gets_by_name_def static_client_def obj_key_def find_Some_iff split: option.splits)

lemma toy_annotated_facts:
  "range_order (ex_order (en_x toy_site_env))" "wf_map (site_services toy_annotated_site)"
  "wf_map (su_services (st_status toy_annotated_site))"
  "gets_by_name sc_meta (cc_service (sk_configs (toy_site_clients (bks :: ('w, backup) client))))"
  "fst ` set (site_services toy_annotated_site) = {''shop''}"
  "sp_backup_hour (st_spec toy_annotated_site) = Some 14"
  by (simp_all add: toy_site_env_def toy_externals_def toy_annotated_site_def toy_backup_time_site_def toy_db_site_def
      toy_site_def GetDummySite_def toy_site_clients_def toy_config_clients_def static_gets_by_name)

theorem status_says_what_is_witness:
  "dom (map_of (su_services (st_status toy_status_site))) = {''shop''}"
  using status_says_what_is[OF toy_status_ok toy_annotation_read toy_annotated_facts(1-4)]
  unfolding toy_annotated_facts(5) by blast

theorem status_settles_witness:
  "ensureStatusIsUpToDate toy_site_env (toy_site_clients (index_client bk_meta backup_index)) toy_status_site [] =
     ((None, False, toy_status_site), [])"
proof -
  have "four_digit_year (local_time (en_zone toy_site_env) (en_clock toy_site_env 2))" by code_simp
  from status_settles[OF toy_status_ok toy_annotation_read toy_annotated_facts(1-4) this, of "[]"] show ?thesis
    by (simp add: toy_annotated_facts(6) toy_site_clients_def index_client_def)
qed

theorem spec_change_time_reads_back_witness:
  "\<exists>site'. spec_change_time (\<lambda>t. 0) 1800000000000000000 site' = (False, 1700000000000000000, site')"
proof -
  have y: "four_digit_year (local_time (\<lambda>t. - 12600) 1700000000123456789)" by code_simp
  have m: "whole_minutes ((\<lambda>t. - 12600) 1700000000123456789)" by code_simp
  have "spec_change_time (\<lambda>t. - 12600) 1700000000123456789 (toy_site ''s'' ''db'') =
      (True, 1700000000123456789, snd (snd (spec_change_time (\<lambda>t. - 12600) 1700000000123456789 (toy_site ''s'' ''db''))))"
    by (simp add: spec_change_time_def Let_def lookup_or_def toy_site_def new_meta_def)
  from spec_change_time_reads_back[OF this y m, of "\<lambda>t. 0" 1800000000000000000] show ?thesis
    by (auto simp: second_ns_def)
qed

end
