(* ===== verification/MetricsCollector.thy ===== *)
theory MetricsCollector
  imports Naming TaskTypes JobTypes
begin

text \<open>
  \<^verbatim>\<open>internal/metrics/collector.go\<close>: the inventory gauges. A collection lists the resources of all
  namespaces from the cache, counts them under their labels, and emits one gauge for every entry of
  the count, in the order of a range over the map. \<open>const_metric\<close> is \<^verbatim>\<open>prometheus.NewConstMetric\<close>,
  which is not part of the repository: it may refuse a metric.
\<close>

datatype metric_desc = stagingSitesDesc | databasesDesc | jobsDesc

datatype metric =
    InvalidMetric metric_desc go_error
  | GaugeMetric metric_desc nat "string list"

definition metric_labels :: "metric_desc \<Rightarrow> string list" where
  "metric_labels d =
     (case d of
        stagingSitesDesc \<Rightarrow> [''namespace'', ''state'', ''enabled'']
      | databasesDesc \<Rightarrow> [''namespace'', ''type'', ''state'']
      | jobsDesc \<Rightarrow> [''namespace'', ''kind'', ''state''])"

type_synonym const_metric = "metric_desc \<Rightarrow> nat \<Rightarrow> string list \<Rightarrow> go_error + metric"

text \<open>The map from label values to counts, and the order in which it is visited.\<close>

type_synonym counts = "(string list \<times> nat) list"
type_synonym count_order = "counts \<Rightarrow> counts"

definition count_key :: "string list \<Rightarrow> counts \<Rightarrow> counts" where
  "count_key key counts =
     AList.update key (case map_of counts key of None \<Rightarrow> 1 | Some n \<Rightarrow> n + 1) counts"

fun emit :: "const_metric \<Rightarrow> metric_desc \<Rightarrow> counts \<Rightarrow> metric list" where
  "emit mk d [] = []"
| "emit mk d (kc # kcs) =
     (case mk d (snd kc) (fst kc) of
        Inl err \<Rightarrow> [InvalidMetric d err]
      | Inr m \<Rightarrow> m # emit mk d kcs)"

definition count_all :: "('o \<Rightarrow> string list) \<Rightarrow> 'o list \<Rightarrow> counts \<Rightarrow> counts" where
  "count_all key items counts = fold (\<lambda>x. count_key (key x)) items counts"

text \<open>The texts of the states; an empty state counts as pending, and \<^verbatim>\<open>%t\<close> prints a boolean.\<close>

fun site_state_string :: "site_state \<Rightarrow> string" where
  "site_state_string StateUnset = []"
| "site_state_string StatePending = ''Pending''"
| "site_state_string StateComplete = ''Complete''"
| "site_state_string StateFailed = ''Failed''"

fun job_state_string :: "job_state \<Rightarrow> string" where
  "job_state_string JobUnset = []"
| "job_state_string JobPending = ''Pending''"
| "job_state_string JobRunning = ''Running''"
| "job_state_string JobFailed = ''Failed''"
| "job_state_string JobComplete = ''Complete''"
| "job_state_string (JobUnknown s) = s"

definition or_pending :: "string \<Rightarrow> string" where
  "or_pending state = (if state = [] then ''Pending'' else state)"

definition show_bool :: "bool \<Rightarrow> string" where
  "show_bool b = (if b then ''true'' else ''false'')"

definition site_key :: "staging_site \<Rightarrow> string list" where
  "site_key site =
     [st_namespace site, or_pending (site_state_string (su_state (st_status site))),
      show_bool (su_enabled (st_status site))]"

definition user_database_key :: "string \<Rightarrow> user_database \<Rightarrow> string list" where
  "user_database_key kind db = [om_namespace (db_meta db), kind, or_pending (task_state_string (db_state db))]"

definition redis_database_key :: "redis_database \<Rightarrow> string list" where
  "redis_database_key db = [om_namespace (rd_meta db), ''redis'', or_pending (task_state_string (rd_state db))]"

definition init_job_key :: "db_init_job \<Rightarrow> string list" where
  "init_job_key j = [om_namespace (di_meta j), ''dbinit'', or_pending (job_state_string (dit_state (di_status j)))]"

definition migration_job_key :: "db_migration_job \<Rightarrow> string list" where
  "migration_job_key j =
     [om_namespace (dm_meta j), ''dbmigration'', or_pending (job_state_string (dmt_state (dm_status j)))]"

definition backup_key :: "backup \<Rightarrow> string list" where
  "backup_key j = [om_namespace (bk_meta j), ''backup'', or_pending (job_state_string (bd_state (bk_detail j)))]"


section \<open>Collecting\<close>

text \<open>What the reader answers to the lists, over all namespaces.\<close>

record inventory =
  iv_sites :: "go_error + staging_site list"
  iv_mysql :: "go_error + mysql_database list"
  iv_mongo :: "go_error + mongo_database list"
  iv_redis :: "go_error + redis_database list"
  iv_inits :: "go_error + db_init_job list"
  iv_migrations :: "go_error + db_migration_job list"
  iv_backups :: "go_error + backup list"

definition collectStagingSites :: "const_metric \<Rightarrow> count_order \<Rightarrow> inventory \<Rightarrow> metric list" where
  "collectStagingSites mk ord iv =
     (case iv_sites iv of
        Inl err \<Rightarrow> [InvalidMetric stagingSitesDesc err]
      | Inr items \<Rightarrow> emit mk stagingSitesDesc (ord (count_all site_key items [])))"

definition collectDatabases :: "const_metric \<Rightarrow> count_order \<Rightarrow> inventory \<Rightarrow> metric list" where
  "collectDatabases mk ord iv =
     (case iv_mysql iv of
        Inl err \<Rightarrow> [InvalidMetric databasesDesc err]
      | Inr mysqls \<Rightarrow>
          let counts = count_all (user_database_key ''mysql'') mysqls []
          in case iv_mongo iv of
               Inl err \<Rightarrow> [InvalidMetric databasesDesc err]
             | Inr mongos \<Rightarrow>
                 let counts = count_all (user_database_key ''mongo'') mongos counts
                 in case iv_redis iv of
                      Inl err \<Rightarrow> [InvalidMetric databasesDesc err]
                    | Inr rediss \<Rightarrow> emit mk databasesDesc (ord (count_all redis_database_key rediss counts)))"

definition collectJobs :: "const_metric \<Rightarrow> count_order \<Rightarrow> inventory \<Rightarrow> metric list" where
  "collectJobs mk ord iv =
     (case iv_inits iv of
        Inl err \<Rightarrow> [InvalidMetric jobsDesc err]
      | Inr inits \<Rightarrow>
          let counts = count_all init_job_key inits []
          in case iv_migrations iv of
               Inl err \<Rightarrow> [InvalidMetric jobsDesc err]
             | Inr migrations \<Rightarrow>
                 let counts = count_all migration_job_key migrations counts
                 in case iv_backups iv of
                      Inl err \<Rightarrow> [InvalidMetric jobsDesc err]
                    | Inr backups \<Rightarrow> emit mk jobsDesc (ord (count_all backup_key backups counts)))"

definition Collect_metrics :: "const_metric \<Rightarrow> count_order \<Rightarrow> inventory \<Rightarrow> metric list" where
  "Collect_metrics mk ord iv = collectStagingSites mk ord iv @ collectDatabases mk ord iv @ collectJobs mk ord iv"


section \<open>The counts\<close>

lemma count_key_lookup:
  "map_of (count_key key counts) k = (if k = key then Some (case map_of counts key of None \<Rightarrow> 1 | Some n \<Rightarrow> n + 1)
     else map_of counts k)"
  by (simp add: count_key_def AList.update_conv')

definition count_of :: "counts \<Rightarrow> string list \<Rightarrow> nat" where
  "count_of counts k = (case map_of counts k of None \<Rightarrow> 0 | Some n \<Rightarrow> n)"

text \<open>No entry is zero, and keys are distinct.\<close>

definition good_counts :: "counts \<Rightarrow> bool" where
  "good_counts counts \<longleftrightarrow> distinct (map fst counts) \<and> (\<forall>kn \<in> set counts. 0 < snd kn)"

lemma good_counts_Nil [simp]: "good_counts []"
  by (simp add: good_counts_def)

lemma count_key_facts:
  assumes "good_counts counts"
  shows "good_counts (count_key key counts)"
    "count_of (count_key key counts) k = count_of counts k + (if k = key then 1 else 0)"
proof -
  have "distinct (map fst (count_key key counts))"
    using assms unfolding count_key_def good_counts_def by (intro AList.distinct_update) simp
  moreover have "0 < n" if "(k, n) \<in> set (count_key key counts)" for k n
  proof -
    have "map_of (count_key key counts) k = Some n" using calculation that by simp
    then show ?thesis using assms
      by (force simp: count_key_lookup good_counts_def split: if_splits option.splits dest: map_of_SomeD)
  qed
  ultimately show "good_counts (count_key key counts)" by (auto simp: good_counts_def)
  show "count_of (count_key key counts) k = count_of counts k + (if k = key then 1 else 0)"
    by (simp add: count_of_def count_key_lookup split: option.splits)
qed

lemma count_all_facts:
  assumes "good_counts counts"
  shows "good_counts (count_all key items counts)"
    "count_of (count_all key items counts) k = count_of counts k + count_list (map key items) k"
  using assms
  by (induction items arbitrary: counts) (simp_all add: count_all_def count_key_facts)

lemma good_counts_entry:
  "good_counts counts \<Longrightarrow> (k, n) \<in> set counts \<longleftrightarrow> n = count_of counts k \<and> 0 < n"
proof -
  assume good: "good_counts counts"
  then have "(k, n) \<in> set counts \<longleftrightarrow> map_of counts k = Some n" by (simp add: good_counts_def)
  moreover have "0 < m" if "map_of counts k = Some m" for m
    using good map_of_SomeD[OF that] by (auto simp: good_counts_def)
  ultimately show ?thesis by (cases "map_of counts k") (auto simp: count_of_def)
qed

lemma emit_accepting:
  "emit (\<lambda>d n ls. Inr (GaugeMetric d n ls)) d kcs = map (\<lambda>kc. GaugeMetric d (snd kc) (fst kc)) kcs"
  by (induction kcs) simp_all

text \<open>The label sets of a list of resources.\<close>

definition gauges :: "metric_desc \<Rightarrow> string list list \<Rightarrow> metric set" where
  "gauges d keys = {GaugeMetric d (count_list keys k) k | k. k \<in> set keys}"

lemma emit_counts:
  assumes "good_counts counts" "\<And>k. count_of counts k = count_list keys k" "\<And>m. mset (ord m) = mset m"
  shows "set (emit (\<lambda>d n ls. Inr (GaugeMetric d n ls)) d (ord counts)) = gauges d keys"
    "distinct (emit (\<lambda>d n ls. Inr (GaugeMetric d n ls)) d (ord counts))"
proof -
  have s: "set (ord counts) = set counts" using assms(3) by (metis set_mset_mset)
  have "distinct counts" using assms(1) by (simp add: good_counts_def distinct_map)
  then have d: "distinct (ord counts)" using assms(3) by (metis mset_eq_imp_distinct_iff)
  have pos: "0 < count_list keys k \<longleftrightarrow> k \<in> set keys" for k by (metis count_list_0_iff gr0I less_numeral_extra(3))
  show "set (emit (\<lambda>d n ls. Inr (GaugeMetric d n ls)) d (ord counts)) = gauges d keys"
  proof -
    have "set counts = (\<lambda>k. (k, count_list keys k)) ` set keys"
      using good_counts_entry[OF assms(1)] pos by (auto simp: assms(2))
    then show ?thesis unfolding emit_accepting gauges_def by (auto simp: s image_iff)
  qed
  show "distinct (emit (\<lambda>d n ls. Inr (GaugeMetric d n ls)) d (ord counts))"
    unfolding emit_accepting using d by (auto simp: distinct_map intro!: inj_onI prod_eqI)
qed

text \<open>
  C40. The gauges of a collection are exactly the inventory: one for every combination of label values
  that a resource has, with the number of resources that have it, none twice and none for an empty
  combination; a resource without a state counts as pending.
\<close>

theorem gauges_are_the_inventory:
  assumes "iv_sites iv = Inr sites" "iv_mysql iv = Inr mysqls" "iv_mongo iv = Inr mongos" "iv_redis iv = Inr rediss"
    and "iv_inits iv = Inr inits" "iv_migrations iv = Inr migrations" "iv_backups iv = Inr backups"
    and "\<And>m. mset (ord m) = mset m"
  shows "set (Collect_metrics (\<lambda>d n ls. Inr (GaugeMetric d n ls)) ord iv) =
           gauges stagingSitesDesc (map site_key sites) \<union>
           gauges databasesDesc (map (user_database_key ''mysql'') mysqls @ map (user_database_key ''mongo'') mongos @
              map redis_database_key rediss) \<union>
           gauges jobsDesc (map init_job_key inits @ map migration_job_key migrations @ map backup_key backups) \<and>
         distinct (Collect_metrics (\<lambda>d n ls. Inr (GaugeMetric d n ls)) ord iv)"
proof -
  have zero: "count_of [] k = 0" for k by (simp add: count_of_def)
  let ?dbs = "count_all redis_database_key rediss (count_all (user_database_key ''mongo'') mongos
      (count_all (user_database_key ''mysql'') mysqls []))"
  let ?jobs = "count_all backup_key backups (count_all migration_job_key migrations (count_all init_job_key inits []))"
  note sites = emit_counts[of "count_all site_key sites []" "map site_key sites" ord stagingSitesDesc]
  note dbs = emit_counts[of ?dbs "map (user_database_key ''mysql'') mysqls @ map (user_database_key ''mongo'') mongos @
      map redis_database_key rediss" ord databasesDesc]
  note jobs = emit_counts[of ?jobs "map init_job_key inits @ map migration_job_key migrations @ map backup_key backups"
      ord jobsDesc]
  show ?thesis
    unfolding Collect_metrics_def collectStagingSites_def collectDatabases_def collectJobs_def assms(1-7) sum.case Let_def
    using sites dbs jobs assms(8) by (auto simp: count_all_facts zero gauges_def)
qed


definition toy_inventory :: inventory where
  "toy_inventory =
     \<lparr>iv_sites = Inr [toy_site ''a'' ''x'', toy_site ''b'' ''y''], iv_mysql = Inr [], iv_mongo = Inr [], iv_redis = Inr [],
      iv_inits = Inr [], iv_migrations = Inr [], iv_backups = Inr []\<rparr>"

theorem gauges_are_the_inventory_witness:
  "GaugeMetric stagingSitesDesc 2 [''ns'', ''Pending'', ''false''] \<in>
     set (Collect_metrics (\<lambda>d n ls. Inr (GaugeMetric d n ls)) rev toy_inventory)"
proof -
  have "site_key (toy_site n d) = [''ns'', ''Pending'', ''false'']" for n d
    by (simp add: site_key_def toy_site_def GetDummySite_def or_pending_def show_bool_def)
  then show ?thesis
    using gauges_are_the_inventory[of toy_inventory "[toy_site ''a'' ''x'', toy_site ''b'' ''y'']" "[]" "[]" "[]" "[]" "[]" "[]" rev]
    by (simp add: toy_inventory_def gauges_def)
qed

end
