(* ===== verification/Startup.thy ===== *)
theory Startup
  imports ConfigTypes
begin

text \<open>
  \<^verbatim>\<open>main.go\<close>: how the operator starts. The configuration file is optional; it is read over the
  defaults, checked and applied to the options of the manager. Then the manager, the controllers and
  the webhooks are set up in a fixed order, and the first error ends the process. What the calls into
  controller-runtime, Sentry and the file system answer is a parameter. Logging, the flags of the
  command line and the build information metric are left out.
\<close>

section \<open>The options of the manager\<close>

record manager_options =
  mo_leader_election_id :: string
  mo_webhook_port :: "64 word"
  mo_metrics_bind :: string
  mo_health_probe :: string
  mo_leader_election :: bool
  mo_cache_namespaces :: "string list"

definition default_options :: manager_options where
  "default_options =
     \<lparr>mo_leader_election_id = ''ec56737d.operator.kube-stager.io'', mo_webhook_port = 9443,
      mo_metrics_bind = '':8080'', mo_health_probe = '':8081'', mo_leader_election = False, mo_cache_namespaces = []\<rparr>"

definition apply_config :: "project_config \<Rightarrow> manager_options \<Rightarrow> manager_options" where
  "apply_config config options =
     (let options = (if pc_health_probe config \<noteq> [] then options\<lparr>mo_health_probe := pc_health_probe config\<rparr> else options);
          options = (if pc_metrics_bind config \<noteq> [] then options\<lparr>mo_metrics_bind := pc_metrics_bind config\<rparr> else options);
          options = (if pc_webhook_port config \<noteq> 0 then options\<lparr>mo_webhook_port := pc_webhook_port config\<rparr> else options);
          options = (if pc_cache_namespace config \<noteq> []
                     then options\<lparr>mo_cache_namespaces := [pc_cache_namespace config]\<rparr> else options)
      in options\<lparr>mo_leader_election := pc_leader_election config\<rparr>)"


section \<open>The calls\<close>

datatype component =
    MysqlDatabaseReconciler | MongoDatabaseReconciler | RedisDatabaseReconciler
  | DbInitJobReconciler | DbMigrationJobReconciler | StagingSiteReconciler | BackupReconciler

datatype webhook_handler =
    ServiceConfigCreateOrUpdateHandler | ServiceConfigDeleteHandler | MongoConfigDeleteHandler
  | MysqlConfigDeleteHandler | RedisConfigDeleteHandler | StagingsiteHandler | BackupCreateOrUpdateHandler

datatype startup_call =
    SentryInit string
  | NewManager manager_options
  | RegisterCollector
  | SetupController component "project_config option"
  | SetupSiteWebhook
  | RegisterWebhook string webhook_handler
  | AddHealthzCheck
  | AddReadyzCheck
  | StartManager

text \<open>The paths that the webhook server answers.\<close>

definition webhook_routes :: "(string \<times> webhook_handler) list" where
  "webhook_routes =
     [(''/validate-config-operator-kube-stager-io-v1-serviceconfig'', ServiceConfigCreateOrUpdateHandler),
      (''/validate-config-operator-kube-stager-io-v1-serviceconfig-deletion'', ServiceConfigDeleteHandler),
      (''/validate-config-operator-kube-stager-io-v1-mongoconfig-deletion'', MongoConfigDeleteHandler),
      (''/validate-config-operator-kube-stager-io-v1-mysqlconfig-deletion'', MysqlConfigDeleteHandler),
      (''/validate-config-operator-kube-stager-io-v1-redisconfig-deletion'', RedisConfigDeleteHandler),
      (''/mutate-site-operator-kube-stager-io-v1-stagingsite-advanced'', StagingsiteHandler),
      (''/mutate-job-operator-kube-stager-io-v1-backup-advanced'', BackupCreateOrUpdateHandler)]"

definition startup_calls :: "project_config \<Rightarrow> manager_options \<Rightarrow> startup_call list" where
  "startup_calls config options =
     (if pc_sentry_dsn config \<noteq> [] then [SentryInit (pc_sentry_dsn config)] else []) @
     [NewManager options, RegisterCollector,
      SetupController MysqlDatabaseReconciler None, SetupController MongoDatabaseReconciler None,
      SetupController RedisDatabaseReconciler None, SetupController DbInitJobReconciler (Some config),
      SetupController DbMigrationJobReconciler (Some config), SetupController StagingSiteReconciler None,
      SetupSiteWebhook, SetupController BackupReconciler (Some config)] @
     map (\<lambda>ph. RegisterWebhook (fst ph) (snd ph)) webhook_routes @
     [AddHealthzCheck, AddReadyzCheck, StartManager]"

text \<open>
  What the environment answers. A registration on the webhook server returns nothing, and the
  collector is registered with a function that panics, so that both have no error to look at.
\<close>

record startup_env =
  se_read :: "string \<Rightarrow> go_error + string"
  se_unmarshal :: "string \<Rightarrow> project_config \<Rightarrow> go_error + project_config"
  se_call :: "startup_call \<Rightarrow> go_error option"

fun call_error :: "startup_env \<Rightarrow> startup_call \<Rightarrow> go_error option" where
  "call_error env (RegisterWebhook path handler) = None"
| "call_error env RegisterCollector = None"
| "call_error env c = se_call env c"

text \<open>The exit status, and the calls that were made.\<close>

fun run_calls :: "startup_env \<Rightarrow> startup_call list \<Rightarrow> nat \<times> startup_call list" where
  "run_calls env [] = (0, [])"
| "run_calls env (c # cs) =
     (case call_error env c of
        Some err \<Rightarrow> (1, [c])
      | None \<Rightarrow> map_prod id (Cons c) (run_calls env cs))"

definition load_config :: "startup_env \<Rightarrow> string \<Rightarrow> go_error + project_config \<times> manager_options" where
  "load_config env configFile =
     (if configFile = [] then Inr (defaultCtrlConfig, default_options)
      else case se_read env configFile of
             Inl err \<Rightarrow> Inl err
           | Inr configData \<Rightarrow>
               (case se_unmarshal env configData defaultCtrlConfig of
                  Inl err \<Rightarrow> Inl err
                | Inr config \<Rightarrow>
                    (case validateConfig config of
                       Some err \<Rightarrow> Inl err
                     | None \<Rightarrow> Inr (config, apply_config config default_options))))"

definition main :: "startup_env \<Rightarrow> string \<Rightarrow> nat \<times> startup_call list" where
  "main env configFile =
     (case load_config env configFile of
        Inl err \<Rightarrow> (1, [])
      | Inr (config, options) \<Rightarrow> run_calls env (startup_calls config options))"


section \<open>Properties\<close>

lemma run_calls_prefix: "\<exists>rest. cs = snd (run_calls env cs) @ rest"
  by (induction cs) (auto split: option.splits)

lemma run_calls_last:
  assumes "c \<in> set (snd (run_calls env (cs @ [c])))" "c \<notin> set cs"
  shows "snd (run_calls env (cs @ [c])) = cs @ [c] \<and> (\<forall>d \<in> set cs. call_error env d = None)"
  using assms by (induction cs) (auto split: option.splits)

lemma default_config_valid: "validateConfig defaultCtrlConfig = None"
  by (simp add: validateConfig_def defaultCtrlConfig_def)

definition options_of :: "project_config \<Rightarrow> manager_options" where
  "options_of config =
     \<lparr>mo_leader_election_id = ''ec56737d.operator.kube-stager.io'',
      mo_webhook_port = (if pc_webhook_port config = 0 then 9443 else pc_webhook_port config),
      mo_metrics_bind = (if pc_metrics_bind config = [] then '':8080'' else pc_metrics_bind config),
      mo_health_probe = (if pc_health_probe config = [] then '':8081'' else pc_health_probe config),
      mo_leader_election = pc_leader_election config,
      mo_cache_namespaces = (if pc_cache_namespace config = [] then [] else [pc_cache_namespace config])\<rparr>"

lemma apply_config_spec: "apply_config config default_options = options_of config"
  by (simp add: apply_config_def options_of_def default_options_def Let_def)

lemma load_config_valid:
  "load_config env configFile = Inr (config, options) \<Longrightarrow>
     validateConfig config = None \<and> options = options_of config"
  by (auto simp: load_config_def apply_config_spec default_config_valid split: if_splits sum.splits option.splits)
    (simp add: options_of_def default_options_def defaultCtrlConfig_def)

text \<open>
  The manager is started only with a valid configuration, with the options that the configuration
  asks for, and after every controller, every webhook route and both health checks were set up without
  an error; the job controllers run with that same configuration.
\<close>

theorem started_only_when_complete:
  assumes "main env configFile = (status, calls)" "StartManager \<in> set calls"
  shows "\<exists>config. validateConfig config = None \<and> calls = startup_calls config (options_of config) \<and>
           (\<forall>c \<in> set calls. c \<noteq> StartManager \<longrightarrow> call_error env c = None) \<and>
           (\<forall>path handler. (path, handler) \<in> set webhook_routes \<longrightarrow> RegisterWebhook path handler \<in> set calls) \<and>
           (\<forall>c. \<exists>own. SetupController c own \<in> set calls \<and> (own = None \<or> own = Some config))"
proof -
  obtain config options where load: "load_config env configFile = Inr (config, options)"
    and run: "run_calls env (startup_calls config options) = (status, calls)"
    using assms by (auto simp: main_def split: sum.splits)
  note valid = load_config_valid[OF load]
  obtain cs where cs: "startup_calls config options = cs @ [StartManager]" "StartManager \<notin> set cs"
    by (simp add: startup_calls_def image_iff)
  have all: "calls = cs @ [StartManager] \<and> (\<forall>d \<in> set cs. call_error env d = None)"
    using run_calls_last[of StartManager env cs] run assms(2) cs by simp
  have "\<exists>own. SetupController c own \<in> set (startup_calls config options) \<and> (own = None \<or> own = Some config)" for c
    by (cases c) (auto simp: startup_calls_def)
  moreover have "RegisterWebhook path handler \<in> set (startup_calls config options)"
    if "(path, handler) \<in> set webhook_routes" for path handler
    using that by (force simp: startup_calls_def)
  ultimately show ?thesis using valid all cs by (intro exI[of _ config]) auto
qed

definition toy_env_all_good :: startup_env where
  "toy_env_all_good = \<lparr>se_read = \<lambda>f. Inl (PlainError f), se_unmarshal = \<lambda>t c. Inr c, se_call = \<lambda>c. None\<rparr>"

theorem started_only_when_complete_witness:
  "\<exists>config. validateConfig config = None \<and>
     snd (main toy_env_all_good []) = startup_calls config (options_of config)"
proof -
  have "StartManager \<in> set (snd (main toy_env_all_good []))" by code_simp
  then show ?thesis
    using started_only_when_complete[of toy_env_all_good "[]" "fst (main toy_env_all_good [])" "snd (main toy_env_all_good [])"]
    by auto
qed

end
