(* ===== verification/RedisProperties.thy ===== *)
theory RedisProperties
  imports TaskProperties
begin

text \<open>
  Redis databases are numbers of a shared server. The handler picks the least free number for a
  database it creates, so created databases do not overlap; a database that it updates to a
  different environment keeps no reservation there.
\<close>

section \<open>The least free number\<close>

lemma fold_set_True: "fold (\<lambda>i a. a(g i := True)) xs f j \<longleftrightarrow> j \<in> g ` set xs \<or> f j"
  by (induction xs arbitrary: f) auto

lemma fold_set_False: "fold (\<lambda>r a. a(g r := False)) xs f j \<longleftrightarrow> j \<notin> g ` set xs \<and> f j"
  by (induction xs arbitrary: f) auto

lemma unat_of_nat_below: "k < unat n \<Longrightarrow> unat (of_nat k :: 32 word) = k" for n :: "32 word"
proof -
  assume "k < unat n"
  also have "unat n < 2 ^ LENGTH(32)" by (rule unsigned_less)
  finally show ?thesis by (simp add: unat_of_nat)
qed

lemma words_below: "of_nat ` {0..<unat n} = {i :: 32 word. i < n}"
proof (rule set_eqI)
  fix i :: "32 word"
  show "i \<in> of_nat ` {0..<unat n} \<longleftrightarrow> i \<in> {i. i < n}"
  proof
    assume "i \<in> of_nat ` {0..<unat n}"
    then obtain k where k: "k < unat n" "i = of_nat k" by auto
    then have "unat i = k" by (simp add: unat_of_nat_below)
    with k show "i \<in> {i. i < n}" by (simp add: word_less_nat_alt)
  next
    assume "i \<in> {i. i < n}"
    then have "unat i \<in> {0..<unat n}" by (simp add: word_less_nat_alt)
    then show "i \<in> of_nat ` {0..<unat n}" by (rule image_eqI[rotated]) simp
  qed
qed

lemma available_databases_iff:
  "available_databases n rs i \<longleftrightarrow> i < n \<and> i \<notin> (\<lambda>r. rd_number (rd_spec r)) ` set rs"
proof -
  have "available_databases n rs i \<longleftrightarrow>
      i \<notin> (\<lambda>r. rd_number (rd_spec r)) ` set rs \<and> i \<in> of_nat ` {0..<unat n}"
    unfolding available_databases_def fold_set_False fold_set_True by simp
  then show ?thesis unfolding words_below by auto
qed

lemma find_least:
  fixes n :: "32 word"
  shows "find P (map of_nat [0..<unat n]) = Some i \<longleftrightarrow> i < n \<and> P i \<and> (\<forall>j. j < i \<longrightarrow> \<not> P j)"
proof -
  have u: "unat (of_nat k :: 32 word) = k" if "k < unat n" for k
    using that by (rule unat_of_nat_below)
  show ?thesis
  proof
    assume "find P (map of_nat [0..<unat n]) = Some i"
    then obtain k where k: "k < unat n" "P (of_nat k)" "i = of_nat k"
        "\<And>j. j < k \<Longrightarrow> \<not> P (of_nat j)"
      by (auto simp: find_Some_iff)
    have "i < n" using k(1,3) u by (simp add: word_less_nat_alt)
    moreover have "\<not> P j" if "j < i" for j
    proof -
      have "unat j < k" using that k(1,3) u by (simp add: word_less_nat_alt)
      then have "\<not> P (of_nat (unat j))" by (rule k(4))
      then show ?thesis by simp
    qed
    ultimately show "i < n \<and> P i \<and> (\<forall>j. j < i \<longrightarrow> \<not> P j)" using k(2,3) by simp
  next
    assume i: "i < n \<and> P i \<and> (\<forall>j. j < i \<longrightarrow> \<not> P j)"
    have "unat i < unat n" using i by (simp add: word_less_nat_alt)
    moreover have "\<not> P (of_nat k)" if "k < unat i" for k
    proof -
      have "k < unat n" using that \<open>unat i < unat n\<close> by simp
      with that u have "(of_nat k :: 32 word) < i" by (simp add: word_less_nat_alt)
      with i show ?thesis by blast
    qed
    ultimately show "find P (map of_nat [0..<unat n]) = Some i"
      using i unfolding find_Some_iff by (intro exI[of _ "unat i"]) auto
  qed
qed

definition reserved_numbers :: "redis_database list \<Rightarrow> 32 word set" where
  "reserved_numbers rs = (\<lambda>r. rd_number (rd_spec r)) ` set rs"

lemma first_free_Inr:
  assumes "getFirstFreeDatabaseInEnvironment rcfgs dbs ns ec w = Inr n"
    and "cl_list dbs ns [(labels_RedisEnvironment, ec_environment ec)] w = Inr items"
  shows "n \<notin> reserved_numbers items"
  using assms
  by (auto simp: getFirstFreeDatabaseInEnvironment_def find_least available_databases_iff
      reserved_numbers_def split: sum.splits if_splits option.splits)

text \<open>
  C21. \<^verbatim>\<open>getFirstFreeDatabaseInEnvironment\<close> returns the least number below the environment's
  database count that no database resource of the environment holds, and fails, with a final
  error, exactly when all of them are taken.
\<close>

theorem first_free_exact:
  assumes "cl_get rcfgs ns (ec_environment ec) w = Inr rc" "om_name (rec_meta rc) \<noteq> []"
    and "cl_list dbs ns [(labels_RedisEnvironment, ec_environment ec)] w = Inr items"
  shows "(getFirstFreeDatabaseInEnvironment rcfgs dbs ns ec w = Inr n \<longleftrightarrow>
            n < rec_available rc \<and> n \<notin> reserved_numbers items \<and> {m. m < n} \<subseteq> reserved_numbers items) \<and>
         ((\<exists>e. getFirstFreeDatabaseInEnvironment rcfgs dbs ns ec w = Inl e \<and> IsFinal e) \<longleftrightarrow>
            {m. m < rec_available rc} \<subseteq> reserved_numbers items)"
proof -
  let ?P = "available_databases (rec_available rc) items"
  let ?r = "find ?P (map of_nat [0..<unat (rec_available rc)])"
  have free: "getFirstFreeDatabaseInEnvironment rcfgs dbs ns ec w = (case ?r of
      Some i \<Rightarrow> Inr i
    | None \<Rightarrow> Inl (DatabaseCreationError DatabaseTypeRedis ec ''No free databases found in environment''))"
    using assms by (simp add: getFirstFreeDatabaseInEnvironment_def)
  have "getFirstFreeDatabaseInEnvironment rcfgs dbs ns ec w = Inr n \<longleftrightarrow> ?r = Some n"
    unfolding free by (cases ?r) auto
  also have "\<dots> \<longleftrightarrow> n < rec_available rc \<and> n \<notin> reserved_numbers items \<and> {m. m < n} \<subseteq> reserved_numbers items"
    unfolding find_least available_databases_iff reserved_numbers_def by auto
  finally have 1: "getFirstFreeDatabaseInEnvironment rcfgs dbs ns ec w = Inr n \<longleftrightarrow>
      n < rec_available rc \<and> n \<notin> reserved_numbers items \<and> {m. m < n} \<subseteq> reserved_numbers items" .
  have "(\<exists>e. getFirstFreeDatabaseInEnvironment rcfgs dbs ns ec w = Inl e \<and> IsFinal e) \<longleftrightarrow> ?r = None"
    unfolding free by (cases ?r) auto
  also have "\<dots> \<longleftrightarrow> (\<forall>i \<in> of_nat ` {0..<unat (rec_available rc)}. \<not> ?P i)"
    by (auto simp: find_None_iff)
  also have "\<dots> \<longleftrightarrow> {m. m < rec_available rc} \<subseteq> reserved_numbers items"
    unfolding words_below available_databases_iff reserved_numbers_def by auto
  finally show ?thesis using 1 by blast
qed

definition toy_redis_config :: "nat \<Rightarrow> redis_config" where
  "toy_redis_config n =
     \<lparr>rec_meta = new_meta ''re1'' ''ns'' [], rec_host = ''h'', rec_available = of_nat n, rec_port = 6379,
      rec_tls = None, rec_verify = None, rec_password = []\<rparr>"

definition toy_redis_configs :: "nat \<Rightarrow> ('w, redis_config) client" where
  "toy_redis_configs n = static_client rec_meta [toy_redis_config n]"

definition toy_redis :: "string \<Rightarrow> string \<Rightarrow> string \<Rightarrow> 32 word \<Rightarrow> redis_database" where
  "toy_redis name service env n =
     \<lparr>rd_meta = new_meta name ''ns'' [(labels_Site, ''my-site''), (labels_Service, service),
        (labels_RedisEnvironment, env)],
      rd_spec = \<lparr>rd_environment = \<lparr>ec_service_name = service, ec_site_name = ''my-site'',
        ec_environment = env\<rparr>, rd_number = n\<rparr>,
      rd_state = TaskUnset\<rparr>"

lemma toy_redis_selected [simp]:
  "selects rd_meta ''ns'' [(labels_RedisEnvironment, e)] (toy_redis name service env n) \<longleftrightarrow> env = e"
  by (simp add: selects_def toy_redis_def label_defs)

lemma toy_redis_get [simp]:
  "cl_get (toy_redis_configs n) ''ns'' ''re1'' w = Inr (toy_redis_config n)"
  by (simp add: toy_redis_configs_def static_client_def toy_redis_config_def obj_key_def)

theorem first_free_exact_witness:
  "getFirstFreeDatabaseInEnvironment (toy_redis_configs 4) (mem_client rd_meta) ''ns''
     \<lparr>ec_service_name = ''shop'', ec_site_name = ''my-site'', ec_environment = ''re1''\<rparr>
     [toy_redis ''a'' ''x'' ''re1'' 0, toy_redis ''b'' ''y'' ''other'' 1, toy_redis ''c'' ''z'' ''re1'' 2] = Inr 1"
  (is "getFirstFreeDatabaseInEnvironment _ ?dbs _ ?ec ?w = _")
proof -
  have list: "cl_list ?dbs ''ns'' [(labels_RedisEnvironment, ec_environment ?ec)] ?w =
      Inr [toy_redis ''a'' ''x'' ''re1'' 0, toy_redis ''c'' ''z'' ''re1'' 2]"
    by (simp add: mem_client_def)
  have below: "{m :: 32 word. m < 1} = {0}" by auto
  show ?thesis
    using first_free_exact[OF _ _ list, of "toy_redis_configs 4" "toy_redis_config 4" 1]
    by (simp add: below reserved_numbers_def toy_redis_def toy_redis_config_def)
qed


section \<open>Created databases do not overlap\<close>

text \<open>
  Two databases of one namespace and environment that hold the same number are the same object.
\<close>

definition shares_number :: "redis_database \<Rightarrow> redis_database \<Rightarrow> bool" where
  "shares_number d d' \<longleftrightarrow>
     om_namespace (rd_meta d) = om_namespace (rd_meta d') \<and>
     map_of (om_labels (rd_meta d)) labels_RedisEnvironment \<noteq> None \<and>
     map_of (om_labels (rd_meta d)) labels_RedisEnvironment =
       map_of (om_labels (rd_meta d')) labels_RedisEnvironment \<and>
     rd_number (rd_spec d) = rd_number (rd_spec d')"

definition exclusive_numbers :: "redis_database list \<Rightarrow> bool" where
  "exclusive_numbers ds \<longleftrightarrow>
     list_all (\<lambda>d. list_all (\<lambda>d'. shares_number d d' \<longrightarrow> obj_key rd_meta d = obj_key rd_meta d') ds) ds"

lemma exclusive_numbersD:
  "exclusive_numbers ds \<Longrightarrow> d \<in> set ds \<Longrightarrow> d' \<in> set ds \<Longrightarrow> shares_number d d' \<Longrightarrow>
   obj_key rd_meta d = obj_key rd_meta d'"
  unfolding exclusive_numbers_def list_all_iff by blast

lemma shares_number_sym: "shares_number d d' \<Longrightarrow> shares_number d' d"
  by (auto simp: shares_number_def)

text \<open>What \<^verbatim>\<open>PopulateFomSite\<close> gives an expected database: the site's namespace and its environment.\<close>

definition labelled_for :: "string \<Rightarrow> redis_database \<Rightarrow> bool" where
  "labelled_for ns d \<longleftrightarrow> om_namespace (rd_meta d) = ns \<and>
     map_of (om_labels (rd_meta d)) labels_RedisEnvironment =
       Some (ec_environment (rd_environment (rd_spec d)))"

lemma exclusive_append:
  assumes "exclusive_numbers ds" "labelled_for ns d"
    and "rd_number (rd_spec d) \<notin> reserved_numbers (filter (selects rd_meta ns
           [(labels_RedisEnvironment, ec_environment (rd_environment (rd_spec d)))]) ds)"
  shows "exclusive_numbers (ds @ [d])"
proof -
  have none: "\<not> shares_number x d" if "x \<in> set ds" for x
  proof
    assume sh: "shares_number x d"
    then have "selects rd_meta ns [(labels_RedisEnvironment, ec_environment (rd_environment (rd_spec d)))] x"
      using assms(2) by (simp add: labelled_for_def selects_def shares_number_def)
    with that have "rd_number (rd_spec x) \<in> reserved_numbers (filter (selects rd_meta ns
           [(labels_RedisEnvironment, ec_environment (rd_environment (rd_spec d)))]) ds)"
      by (simp add: reserved_numbers_def)
    with assms(3) sh show False by (simp add: shares_number_def)
  qed
  have "obj_key rd_meta x = obj_key rd_meta y"
    if xy: "x \<in> set (ds @ [d])" "y \<in> set (ds @ [d])" "shares_number x y" for x y
  proof (cases "x \<in> set ds \<and> y \<in> set ds")
    case True
    then show ?thesis using exclusive_numbersD[OF assms(1)] xy(3) by blast
  next
    case False
    then consider "x = d" "y = d" | "x \<in> set ds" "y = d" | "x = d" "y \<in> set ds" using xy by auto
    then show ?thesis
      by cases (use xy(3) none shares_number_sym in blast)+
  qed
  then show ?thesis unfolding exclusive_numbers_def list_all_iff by blast
qed

lemma set_redis_number_ns [simp]: "st_namespace (set_redis_number k n site) = st_namespace site"
  by (simp add: set_redis_number_def Let_def)

text \<open>
  What the loop needs of the API server: a list shows at least the stored objects that it selects,
  those written a moment ago included, and a creation stores the object or fails. A list may show
  more, such as objects deleted meanwhile.
\<close>

definition shows_writes :: "('w, redis_database) client \<Rightarrow> ('w \<Rightarrow> redis_database list) \<Rightarrow> bool" where
  "shows_writes dbs objs \<longleftrightarrow>
     (\<forall>ns sel w items. cl_list dbs ns sel w = Inr items \<longrightarrow> set (filter (selects rd_meta ns sel) (objs w)) \<subseteq> set items) \<and>
     (\<forall>x w r w'. cl_create dbs x w = (r, w') \<longrightarrow>
        objs w' = objs w @ [x] \<or> (\<exists>e. r = Inl e) \<and> objs w' = objs w)"

lemma free_number_unused:
  assumes "shows_writes dbs objs" "getFirstFreeDatabaseInEnvironment rcfgs dbs ns ec w = Inr n"
  shows "n \<notin> reserved_numbers (filter (selects rd_meta ns [(labels_RedisEnvironment, ec_environment ec)]) (objs w))"
proof -
  obtain items where l: "cl_list dbs ns [(labels_RedisEnvironment, ec_environment ec)] w = Inr items"
    using assms(2) by (auto simp: getFirstFreeDatabaseInEnvironment_def split: sum.splits if_splits)
  then have "set (filter (selects rd_meta ns [(labels_RedisEnvironment, ec_environment ec)]) (objs w)) \<subseteq> set items"
    using assms(1) unfolding shows_writes_def by blast
  then show ?thesis using first_free_Inr[OF assms(2) l] by (auto simp: reserved_numbers_def)
qed

lemma redis_create_loop_exclusive:
  assumes "shows_writes dbs objs" "exclusive_numbers (objs w)"
    and "redis_create_loop rcfgs dbs kds site w = (r, site', w')"
    and "\<forall>kd \<in> set kds. labelled_for (st_namespace site) (snd kd)"
  shows "exclusive_numbers (objs w')"
  using assms(2-)
proof (induction kds arbitrary: site w)
  case (Cons kd kds)
  let ?free = "getFirstFreeDatabaseInEnvironment rcfgs dbs (st_namespace site)
     (rd_environment (rd_spec (snd kd))) w"
  show ?case
  proof (cases ?free)
    case (Inl e)
    with Cons.prems show ?thesis by simp
  next
    case (Inr n)
    let ?d = "(snd kd)\<lparr>rd_spec := (rd_spec (snd kd))\<lparr>rd_number := n\<rparr>\<rparr>"
    obtain q w1 where w1: "cl_create dbs ?d w = (q, w1)" by force
    have more: "exclusive_numbers (objs w @ [?d])"
    proof (rule exclusive_append[OF Cons.prems(1)])
      show "labelled_for (st_namespace site) ?d" using Cons.prems(3) by (simp add: labelled_for_def)
      show "rd_number (rd_spec ?d) \<notin> reserved_numbers (filter (selects rd_meta (st_namespace site)
          [(labels_RedisEnvironment, ec_environment (rd_environment (rd_spec ?d)))]) (objs w))"
        using free_number_unused[OF assms(1) Inr] by simp
    qed
    have "objs w1 = objs w @ [?d] \<or> objs w1 = objs w"
      using assms(1) w1 unfolding shows_writes_def by blast
    with more Cons.prems(1) have ex: "exclusive_numbers (objs w1)" by auto
    show ?thesis
    proof (cases q)
      case (Inl e)
      then show ?thesis using Cons.prems(2) Inr w1 ex by (simp add: \<open>?free = Inr n\<close> Let_def)
    next
      case (Inr d')
      then have "redis_create_loop rcfgs dbs kds (set_redis_number (fst kd) (rd_number (rd_spec d')) site) w1 = (r, site', w')"
        using Cons.prems(2) w1 by (simp add: \<open>?free = Inr n\<close> Let_def)
      then show ?thesis using Cons.IH[OF ex] Cons.prems(3) by simp
    qed
  qed
qed simp

text \<open>
  C11. The loop that creates Redis databases keeps the numbers of every environment exclusive,
  provided that the lists it reads show what has been written so far, its own writes included: then
  no database it creates holds a number that another database of the same environment holds, whether
  that one existed before or was created by the same loop, and whether or not a call fails. The
  API server itself gives this; the cache that the program's client reads from does not promise it,
  and \<open>cached_lists_repeat_numbers\<close> shows what happens then.
\<close>

theorem redis_creation_exclusive:
  assumes "shows_writes dbs objs" "exclusive_numbers (objs w)"
    and "redis_create_loop rcfgs dbs kds site w = (r, site', w')"
    and "\<forall>kd \<in> set kds. labelled_for (st_namespace site) (snd kd)"
  shows "exclusive_numbers (objs w')"
  by (rule redis_create_loop_exclusive[OF assms])

lemma mem_shows_writes: "shows_writes (mem_client rd_meta) id"
  by (auto simp: shows_writes_def mem_client_def split: if_splits)

theorem redis_creation_exclusive_witness:
  "exclusive_numbers (snd (snd (redis_create_loop (toy_redis_configs 4) (mem_client rd_meta)
     [(''x'', toy_redis ''a'' ''x'' ''re1'' 0), (''y'', toy_redis ''b'' ''y'' ''re1'' 0)] toy_db_site [])))"
  (is "exclusive_numbers (snd (snd ?r))")
proof -
  have r: "?r = (fst ?r, fst (snd ?r), snd (snd ?r))" by (simp only: prod.collapse)
  have "exclusive_numbers (id (snd (snd ?r)))"
    by (rule redis_creation_exclusive[OF mem_shows_writes _ r])
      (simp_all add: exclusive_numbers_def labelled_for_def toy_redis_def label_defs)
  then show ?thesis by (simp only: id_apply)
qed

text \<open>
  A client that reads from a cache: the world is what the cache shows and what is stored, and the
  cache is brought up to date only after the loop.
\<close>

definition cached_client :: "(redis_database list \<times> redis_database list, redis_database) client" where
  "cached_client = (on_second (mem_client rd_meta))
     \<lparr>cl_get := (\<lambda>ns n w. cl_get (mem_client rd_meta) ns n (fst w)),
      cl_list := (\<lambda>ns sel w. cl_list (mem_client rd_meta) ns sel (fst w))\<rparr>"

text \<open>Two services of a site that are new to one environment then get the same number.\<close>

lemma cached_lists_repeat_numbers:
  "case redis_create_loop (toy_redis_configs 4) cached_client
     [(''x'', toy_redis ''a'' ''x'' ''re1'' 0), (''y'', toy_redis ''b'' ''y'' ''re1'' 0)] toy_db_site ([], []) of
     (r, site', w') \<Rightarrow> r = None \<and> map (\<lambda>d. rd_number (rd_spec d)) (snd w') = [0, 0] \<and> \<not> exclusive_numbers (snd w')"
  by code_simp


section \<open>Updated databases do\<close>

text \<open>
  A service that moves to an environment where number 0 is taken ends up with number 0 there:
  the update writes the expected database, whose number is the zero value, and the free number
  that was looked up for it is lost. Two databases of the environment then share a number.
\<close>

theorem redis_update_shares_number:
  "\<not> exclusive_numbers (snd (snd (Redis_EnsureDatabasesAreCreated toy_md5 toy_set_ref (\<lambda>l ks. ks)
      toy_configs (toy_redis_configs 4) (mem_client rd_meta) toy_db_site
      [(toy_redis ''other-site-x'' ''x'' ''re1'' 0)\<lparr>rd_meta := new_meta ''other-site-x'' ''ns''
          [(labels_Site, ''other-site''), (labels_Service, ''x''), (labels_RedisEnvironment, ''re1'')]\<rparr>,
       toy_redis ''my-site-sh'' ''shop'' ''re0'' 3])))"
  by code_simp

end
