(* ===== verification/SiteDefault.thy ===== *)
theory SiteDefault
  imports Naming
begin

text \<open>
  The mutating webhook of \<^verbatim>\<open>StagingSite\<close>, \<^verbatim>\<open>apis/site/v1/stagingsite_webhook.go\<close>. The formatted
  clock reading and the result of the password generator are parameters.
\<close>

definition default_interval :: "64 word \<Rightarrow> time_interval" where
  "default_interval days = \<lparr>ti_never = False, ti_days = days, ti_hours = 0, ti_minutes = 0\<rparr>"

definition Default_meta :: "string \<Rightarrow> object_meta \<Rightarrow> object_meta" where
  "Default_meta now m =
     m\<lparr>om_annotations := AList.update StagingSiteLastSpecChangeAt now (om_annotations m)\<rparr>"

definition Default_names :: "digest \<Rightarrow> string \<Rightarrow> site_spec \<Rightarrow> site_spec" where
  "Default_names md5 name sp =
     (let sp = (if sp_domain_prefix sp = []
                then sp\<lparr>sp_domain_prefix := if length name > 63 then take 63 name else name\<rparr> else sp);
          sp = (if sp_db_name sp = []
                then sp\<lparr>sp_db_name := SanitiseAndShortenDbValue md5 name 63\<rparr> else sp)
      in if sp_username sp = []
         then sp\<lparr>sp_username := SanitiseAndShortenDbValue md5 (sp_db_name sp) 16\<rparr> else sp)"

definition Default_intervals :: "site_spec \<Rightarrow> site_spec" where
  "Default_intervals sp =
     (let sp = (if isTimeIntervalEmpty (sp_disable_after sp)
                then sp\<lparr>sp_disable_after := default_interval 2\<rparr> else sp)
      in if isTimeIntervalEmpty (sp_delete_after sp)
         then sp\<lparr>sp_delete_after := default_interval 7\<rparr> else sp)"

text \<open>
  \<open>Default\<close> changes the site in place; an error of the password generator leaves the later
  fields as they are. The result is the site afterwards and the error.
\<close>

definition Default ::
  "digest \<Rightarrow> string \<Rightarrow> go_error + string \<Rightarrow> staging_site \<Rightarrow> staging_site \<times> go_error option" where
  "Default md5 now generated r =
     (let r = r\<lparr>st_meta := Default_meta now (st_meta r)\<rparr>;
          r = r\<lparr>st_spec := Default_names md5 (st_name r) (st_spec r)\<rparr>
      in if sp_password (st_spec r) = []
         then (case generated of
                 Inl err \<Rightarrow> (r, Some err)
               | Inr randomPassword \<Rightarrow>
                   (r\<lparr>st_spec := Default_intervals
                        ((st_spec r)\<lparr>sp_password := SanitiseDbValue randomPassword\<rparr>)\<rparr>, None))
         else (r\<lparr>st_spec := Default_intervals (st_spec r)\<rparr>, None))"


section \<open>Properties\<close>

lemma isTimeIntervalEmpty_default [simp]:
  "\<not> isTimeIntervalEmpty (default_interval 2)" "\<not> isTimeIntervalEmpty (default_interval 7)"
  by (simp_all add: isTimeIntervalEmpty_def default_interval_def)

definition fully_defaulted :: "site_spec \<Rightarrow> bool" where
  "fully_defaulted sp \<longleftrightarrow>
     sp_domain_prefix sp \<noteq> [] \<and> sp_db_name sp \<noteq> [] \<and> sp_username sp \<noteq> [] \<and> sp_password sp \<noteq> [] \<and>
     \<not> isTimeIntervalEmpty (sp_disable_after sp) \<and> \<not> isTimeIntervalEmpty (sp_delete_after sp)"

lemma Default_names_fixed:
  "sp_domain_prefix sp \<noteq> [] \<Longrightarrow> sp_db_name sp \<noteq> [] \<Longrightarrow> sp_username sp \<noteq> [] \<Longrightarrow>
   Default_names md5 name sp = sp"
  by (simp add: Default_names_def Let_def)

lemma Default_intervals_fixed:
  "\<not> isTimeIntervalEmpty (sp_disable_after sp) \<Longrightarrow> \<not> isTimeIntervalEmpty (sp_delete_after sp) \<Longrightarrow>
   Default_intervals sp = sp"
  by (simp add: Default_intervals_def Let_def)

lemma Default_intervals_fields [simp]:
  "sp_domain_prefix (Default_intervals sp) = sp_domain_prefix sp"
  "sp_db_name (Default_intervals sp) = sp_db_name sp"
  "sp_username (Default_intervals sp) = sp_username sp"
  "sp_password (Default_intervals sp) = sp_password sp"
  "\<not> isTimeIntervalEmpty (sp_disable_after (Default_intervals sp))"
  "\<not> isTimeIntervalEmpty (sp_delete_after (Default_intervals sp))"
  by (simp_all add: Default_intervals_def Let_def)

lemma Default_names_fields:
  "sp_domain_prefix (Default_names md5 name sp) =
     (if sp_domain_prefix sp = [] then take 63 name else sp_domain_prefix sp)"
  "sp_db_name (Default_names md5 name sp) =
     (if sp_db_name sp = [] then SanitiseAndShortenDbValue md5 name 63 else sp_db_name sp)"
  "sp_username (Default_names md5 name sp) =
     (if sp_username sp = []
      then SanitiseAndShortenDbValue md5 (sp_db_name (Default_names md5 name sp)) 16
      else sp_username sp)"
  "sp_password (Default_names md5 name sp) = sp_password sp"
  by (simp_all add: Default_names_def Let_def)

lemma Default_spec:
  assumes "Default md5 now gen r = (r', None)"
  obtains p where
    "st_spec r' = Default_intervals ((Default_names md5 (st_name r) (st_spec r))\<lparr>sp_password := p\<rparr>)"
    "sp_password (st_spec r) \<noteq> [] \<Longrightarrow> p = sp_password (st_spec r)"
    "sp_password (st_spec r) = [] \<Longrightarrow> \<exists>q. gen = Inr q \<and> p = SanitiseDbValue q"
proof (cases "sp_password (st_spec r) = []")
  case True
  show ?thesis
  proof (cases gen)
    case (Inr q)
    with True assms that[of "SanitiseDbValue q"] show ?thesis
      by (auto simp: Default_def Let_def Default_meta_def Default_names_fields)
  qed (use assms True in \<open>simp add: Default_def Let_def Default_names_fields\<close>)
next
  case False
  have "(Default_names md5 (st_name r) (st_spec r))\<lparr>sp_password := sp_password (st_spec r)\<rparr> =
        Default_names md5 (st_name r) (st_spec r)"
    by (simp add: Default_names_def Let_def)
  with False assms that[of "sp_password (st_spec r)"] show ?thesis
    by (auto simp: Default_def Let_def Default_meta_def Default_names_fields)
qed

text \<open>
  An admitted site is completely defaulted: if the site's name has a character that survives
  sanitising, a database name that the user sets is legal, and the generated password has a
  usable character, then every defaulted field is set, and the derived database name and user
  name respect the limits of 63 and 16 characters of the resource definition.
\<close>

theorem Default_complete:
  assumes "digest_ok md5" "Default md5 now gen r = (r', None)"
    and "SanitiseDbValue (st_name r) \<noteq> []"
    and "list_all db_char (sp_db_name (st_spec r))" "length (sp_db_name (st_spec r)) \<le> 63"
    and "length (sp_username (st_spec r)) \<le> 16"
    and "\<forall>q. gen = Inr q \<longrightarrow> SanitiseDbValue q \<noteq> []"
  shows "fully_defaulted (st_spec r') \<and>
         list_all db_char (sp_db_name (st_spec r')) \<and> length (sp_db_name (st_spec r')) \<le> 63 \<and>
         length (sp_username (st_spec r')) \<le> 16"
proof -
  let ?n = "Default_names md5 (st_name r) (st_spec r)"
  obtain p where r': "st_spec r' = Default_intervals (?n\<lparr>sp_password := p\<rparr>)" and p: "p \<noteq> []"
    using Default_spec[OF assms(2)] assms(7) by metis
  have name: "st_name r \<noteq> []" using assms(3) by (auto simp: SanitiseDbValue_alt)
  have db: "sp_db_name ?n \<noteq> []" "list_all db_char (sp_db_name ?n)" "length (sp_db_name ?n) \<le> 63"
    using SanitiseAndShorten_nonempty[OF assms(1,3), of 63] SanitiseAndShorten_chars[OF assms(1)]
      SanitiseAndShorten_length[of 63 md5 "st_name r"] assms(4,5)
    by (auto simp: Default_names_fields)
  then have "SanitiseDbValue (sp_db_name ?n) \<noteq> []" by (simp add: SanitiseDbValue_clean)
  then have user: "sp_username ?n \<noteq> []" "length (sp_username ?n) \<le> 16"
    using SanitiseAndShorten_nonempty[OF assms(1), of "sp_db_name ?n" 16]
      SanitiseAndShorten_length[of 16 md5 "sp_db_name ?n"] assms(6)
    by (simp_all add: Default_names_fields(3))
  have "sp_domain_prefix ?n \<noteq> []" using name by (simp add: Default_names_fields)
  with p db user show ?thesis by (simp add: r' fully_defaulted_def)
qed

theorem Default_complete_witness:
  "fully_defaulted (st_spec (fst (Default toy_md5 ''now'' (Inr ''pw1'') (toy_site ''my-site'' []))))"
proof -
  have none: "Default toy_md5 ''now'' (Inr ''pw1'') (toy_site ''my-site'' []) =
      (fst (Default toy_md5 ''now'' (Inr ''pw1'') (toy_site ''my-site'' [])), None)"
    by (simp add: Default_def Let_def)
  show ?thesis
    using Default_complete[OF digest_ok_toy none]
    by (simp add: SanitiseDbValue_alt db_char_def char_class_defs)
qed

text \<open>
  Defaulting never overrides what the user has set, and defaulting again changes nothing but
  the time stamp: a site whose fields are all set keeps its spec.
\<close>

theorem Default_idempotent:
  assumes "fully_defaulted (st_spec r)"
  shows "Default md5 now gen r = (r\<lparr>st_meta := Default_meta now (st_meta r)\<rparr>, None)"
  using assms
  by (simp add: Default_def fully_defaulted_def Default_names_fixed Default_intervals_fixed)

theorem Default_idempotent_witness:
  "Default toy_md5 ''now'' (Inl (PlainError ''no entropy'')) (toy_site ''s'' ''db'') =
   ((toy_site ''s'' ''db'')\<lparr>st_meta := Default_meta ''now'' (st_meta (toy_site ''s'' ''db''))\<rparr>, None)"
  by (subst Default_idempotent)
    (simp_all add: fully_defaulted_def toy_site_def GetDummySite_def isTimeIntervalEmpty_def)

end
