(* ===== verification/DatabaseHandlers.thy ===== *)
theory DatabaseHandlers
  imports TaskTypes
begin

text \<open>
  \<^verbatim>\<open>handlers/database\<close>: the changes on the MySQL, Mongo and Redis servers themselves. The servers
  and their drivers are not part of the repository; a server is a record of the driver calls that
  the sources make, over a world \<open>'w\<close>. SQL statements are the texts that the sources build;
  Mongo commands are the documents they build. The laws state what the documentation of the
  servers says these calls do, in terms of the users, databases and grants that the server holds.
\<close>

section \<open>MySQL\<close>

record 'w mysql_server =
  my_open :: "string \<Rightarrow> go_error option"
  my_ping :: "string \<Rightarrow> 'w \<Rightarrow> bool"
  my_exec :: "string \<Rightarrow> 'w \<Rightarrow> go_error option \<times> 'w"
  my_select_user :: "string \<Rightarrow> string \<Rightarrow> 'w \<Rightarrow> go_error + (string \<times> string) option"
  my_select_dbs :: "string \<Rightarrow> string \<Rightarrow> 'w \<Rightarrow> go_error + string list"

text \<open>
  \<open>my_open\<close> is \<^verbatim>\<open>sql.Open\<close> with its check of the data source name, \<open>my_ping\<close> opens a
  connection and logs in, \<open>my_exec\<close> runs a statement on the connection, the two queries take user
  and host.
\<close>

record mysql_task =
  mt_host :: string
  mt_port :: "16 word"
  mt_username :: string
  mt_password :: string
  mt_database :: string

definition dataSourceName :: "string \<Rightarrow> string \<Rightarrow> string \<Rightarrow> 16 word \<Rightarrow> string" where
  "dataSourceName username password host port =
     username @ '':'' @ password @ ''@tcp('' @ host @ '':'' @ show_nat (unat port) @ '')/mysql''"

definition sq :: string where "sq = [CHR 0x27]"
definition bq :: string where "bq = [CHR 0x60]"
definition account :: "string \<Rightarrow> string" where "account u = sq @ u @ sq @ ''@'' @ sq @ ''%'' @ sq"

definition create_user_sql :: "string \<Rightarrow> string \<Rightarrow> string" where
  "create_user_sql u p = ''CREATE USER '' @ account u @ '' IDENTIFIED BY '' @ sq @ p @ sq"
definition alter_user_sql :: "string \<Rightarrow> string \<Rightarrow> string" where
  "alter_user_sql u p = ''ALTER USER '' @ account u @ '' IDENTIFIED BY '' @ sq @ p @ sq"
definition drop_user_sql :: "string \<Rightarrow> string" where
  "drop_user_sql u = ''DROP USER '' @ account u"
definition create_db_sql :: "string \<Rightarrow> string" where
  "create_db_sql d = ''CREATE DATABASE IF NOT EXISTS '' @ bq @ d @ bq"
definition drop_db_sql :: "string \<Rightarrow> string" where
  "drop_db_sql d = ''DROP DATABASE IF EXISTS '' @ bq @ d @ bq"
definition grant_sql :: "string \<Rightarrow> string \<Rightarrow> string" where
  "grant_sql d u = ''GRANT ALL ON '' @ bq @ d @ bq @ ''.* TO '' @ account u"
definition revoke_sql :: "string \<Rightarrow> string \<Rightarrow> string" where
  "revoke_sql d u = ''REVOKE ALL ON '' @ bq @ d @ bq @ ''.* FROM '' @ account u"
definition flush_sql :: string where "flush_sql = ''FLUSH PRIVILEGES''"

text \<open>Statements one after the other, up to the first error.\<close>

fun steps :: "('w \<Rightarrow> go_error option \<times> 'w) list \<Rightarrow> 'w \<Rightarrow> go_error option \<times> 'w" where
  "steps [] w = (None, w)"
| "steps (f # fs) w = (case f w of (Some err, w') \<Rightarrow> (Some err, w') | (None, w') \<Rightarrow> steps fs w')"

definition mysql_getUser :: "'w mysql_server \<Rightarrow> mysql_task \<Rightarrow> 'w \<Rightarrow> go_error + string" where
  "mysql_getUser srv r w =
     (case my_select_user srv (mt_username r) ''%'' w of
        Inl err \<Rightarrow> Inl err
      | Inr None \<Rightarrow> Inr []
      | Inr (Some row) \<Rightarrow> Inr (fst row))"

definition mysql_checkUserCanLogin :: "'w mysql_server \<Rightarrow> mysql_task \<Rightarrow> 'w \<Rightarrow> bool" where
  "mysql_checkUserCanLogin srv r w =
     (let dsn = dataSourceName (mt_username r) (mt_password r) (mt_host r) (mt_port r)
      in if my_open srv dsn \<noteq> None then False else my_ping srv dsn w)"

definition mysql_changePassword :: "'w mysql_server \<Rightarrow> mysql_task \<Rightarrow> 'w \<Rightarrow> go_error option \<times> 'w" where
  "mysql_changePassword srv r =
     steps [my_exec srv (alter_user_sql (mt_username r) (mt_password r)), my_exec srv flush_sql]"

definition mysql_createUser :: "'w mysql_server \<Rightarrow> mysql_task \<Rightarrow> 'w \<Rightarrow> go_error option \<times> 'w" where
  "mysql_createUser srv r =
     steps [my_exec srv (create_user_sql (mt_username r) (mt_password r)), my_exec srv flush_sql]"

definition mysql_reconcileUser :: "'w mysql_server \<Rightarrow> mysql_task \<Rightarrow> 'w \<Rightarrow> go_error option \<times> 'w" where
  "mysql_reconcileUser srv r w =
     (case mysql_getUser srv r w of
        Inl err \<Rightarrow> (Some err, w)
      | Inr user \<Rightarrow>
          if user = mt_username r
          then if mysql_checkUserCanLogin srv r w then (None, w) else mysql_changePassword srv r w
          else mysql_createUser srv r w)"

definition mysql_removeUser :: "'w mysql_server \<Rightarrow> mysql_task \<Rightarrow> 'w \<Rightarrow> go_error option \<times> 'w" where
  "mysql_removeUser srv r w =
     (if mt_username r = [] then (None, w)
      else case mysql_getUser srv r w of
             Inl err \<Rightarrow> (Some err, w)
           | Inr user \<Rightarrow>
               if user = mt_username r then my_exec srv (drop_user_sql (mt_username r)) w else (None, w))"

definition mysql_reconcileDatabase :: "'w mysql_server \<Rightarrow> mysql_task \<Rightarrow> 'w \<Rightarrow> go_error option \<times> 'w" where
  "mysql_reconcileDatabase srv r = my_exec srv (create_db_sql (mt_database r))"

definition getDatabasesWhereUserHasPermissions ::
  "'w mysql_server \<Rightarrow> mysql_task \<Rightarrow> 'w \<Rightarrow> go_error + string list" where
  "getDatabasesWhereUserHasPermissions srv r w =
     (if mt_username r = [] then Inr [] else my_select_dbs srv (mt_username r) ''%'' w)"

definition revokePermissionOnDatabase ::
  "'w mysql_server \<Rightarrow> mysql_task \<Rightarrow> string \<Rightarrow> 'w \<Rightarrow> go_error option \<times> 'w" where
  "revokePermissionOnDatabase srv r dbName w =
     (if dbName = [] then (None, w) else my_exec srv (revoke_sql dbName (mt_username r)) w)"

definition revokeNotRequestedPermissions ::
  "'w mysql_server \<Rightarrow> mysql_task \<Rightarrow> 'w \<Rightarrow> (go_error + bool) \<times> 'w" where
  "revokeNotRequestedPermissions srv r w =
     (case getDatabasesWhereUserHasPermissions srv r w of
        Inl err \<Rightarrow> (Inl err, w)
      | Inr dbNames \<Rightarrow>
          (case steps (map (revokePermissionOnDatabase srv r) (filter (\<lambda>d. d \<noteq> mt_database r) dbNames)) w of
             (Some err, w') \<Rightarrow> (Inl err, w')
           | (None, w') \<Rightarrow> (Inr (mt_database r \<in> set dbNames), w')))"

definition mysql_reconcilePermissions :: "'w mysql_server \<Rightarrow> mysql_task \<Rightarrow> 'w \<Rightarrow> go_error option \<times> 'w" where
  "mysql_reconcilePermissions srv r w =
     (case revokeNotRequestedPermissions srv r w of
        (Inl err, w') \<Rightarrow> (Some err, w')
      | (Inr havePerms, w') \<Rightarrow>
          if \<not> havePerms then my_exec srv (grant_sql (mt_database r) (mt_username r)) w' else (None, w'))"

definition mysql_revokePermissions :: "'w mysql_server \<Rightarrow> mysql_task \<Rightarrow> 'w \<Rightarrow> go_error option \<times> 'w" where
  "mysql_revokePermissions srv r w =
     (case getDatabasesWhereUserHasPermissions srv r w of
        Inl err \<Rightarrow> (Some err, w)
      | Inr dbNames \<Rightarrow> steps (map (revokePermissionOnDatabase srv r) dbNames) w)"

definition mysql_removeDatabase :: "'w mysql_server \<Rightarrow> mysql_task \<Rightarrow> 'w \<Rightarrow> go_error option \<times> 'w" where
  "mysql_removeDatabase srv r = my_exec srv (drop_db_sql (mt_database r))"

definition mysql_reconcileTask :: "'w mysql_server \<Rightarrow> mysql_task \<Rightarrow> 'w \<Rightarrow> go_error option \<times> 'w" where
  "mysql_reconcileTask srv r =
     steps [mysql_reconcileUser srv r, mysql_reconcileDatabase srv r, mysql_reconcilePermissions srv r]"

definition mysql_deleteTask :: "'w mysql_server \<Rightarrow> mysql_task \<Rightarrow> 'w \<Rightarrow> go_error option \<times> 'w" where
  "mysql_deleteTask srv r =
     steps [mysql_removeUser srv r, mysql_revokePermissions srv r, mysql_removeDatabase srv r]"

text \<open>
  The task of the deletion leaves host and port at their zero values in the source; it never uses
  them. The result of \<open>ReconcileMysqlDatabase\<close> is the changed flag and the database.
\<close>

definition ReconcileMysqlDatabase ::
  "'w mysql_server \<Rightarrow> mysql_database \<Rightarrow> mysql_config \<Rightarrow> 'w \<Rightarrow> (go_error + bool \<times> mysql_database) \<times> 'w" where
  "ReconcileMysqlDatabase srv database config w =
     (case my_open srv (dataSourceName (myc_username config) (myc_password config) (myc_host config) (myc_port config)) of
        Some err \<Rightarrow> (Inl err, w)
      | None \<Rightarrow>
          let task = \<lparr>mt_host = myc_host config, mt_port = myc_port config,
                mt_username = ud_username (db_spec database), mt_password = ud_password (db_spec database),
                mt_database = ud_database_name (db_spec database)\<rparr>
          in case mysql_reconcileTask srv task w of
               (Some err, w') \<Rightarrow> (Inl err, w')
             | (None, w') \<Rightarrow>
                 if db_state database \<noteq> TaskComplete
                 then (Inr (True, database\<lparr>db_state := TaskComplete\<rparr>), w') else (Inr (False, database), w'))"

definition DeleteMysqlDatabase ::
  "'w mysql_server \<Rightarrow> mysql_database \<Rightarrow> mysql_config \<Rightarrow> 'w \<Rightarrow> go_error option \<times> 'w" where
  "DeleteMysqlDatabase srv database config w =
     (case my_open srv (dataSourceName (myc_username config) (myc_password config) (myc_host config) (myc_port config)) of
        Some err \<Rightarrow> (Some err, w)
      | None \<Rightarrow>
          mysql_deleteTask srv \<lparr>mt_host = [], mt_port = 0, mt_username = ud_username (db_spec database),
            mt_password = ud_password (db_spec database), mt_database = ud_database_name (db_spec database)\<rparr> w)"


section \<open>Mongo\<close>

datatype mongo_command =
    UsersInfo string
  | UpdateUser string string "(string \<times> string) list"
  | CreateUser string string "(string \<times> string) list"
  | DropUser string

text \<open>
  The documents that \<^verbatim>\<open>RunCommand\<close> sends to the database \<^verbatim>\<open>admin\<close>: user, password and a list of
  role and database. \<open>mg_users_info\<close> is the number of users in the answer to \<open>UsersInfo\<close>.
\<close>

record 'w mongo_server =
  mg_connect :: "string \<Rightarrow> 'w \<Rightarrow> go_error option"
  mg_users_info :: "mongo_command \<Rightarrow> 'w \<Rightarrow> go_error + nat"
  mg_run :: "mongo_command \<Rightarrow> 'w \<Rightarrow> go_error option \<times> 'w"
  mg_list_databases :: "string \<Rightarrow> 'w \<Rightarrow> go_error + string list"
  mg_drop :: "string \<Rightarrow> 'w \<Rightarrow> go_error option \<times> 'w"

record mongo_task =
  gt_username :: string
  gt_password :: string
  gt_database :: string

definition mongo_uri :: "mongo_config \<Rightarrow> string" where
  "mongo_uri config =
     ''mongodb://'' @ moc_username config @ '':'' @ moc_password config @ ''@'' @
       moc_host1 config @ '':'' @ show_nat (unat (moc_port config))"

definition getMongoConnection :: "'w mongo_server \<Rightarrow> mongo_config \<Rightarrow> 'w \<Rightarrow> go_error option" where
  "getMongoConnection srv config w = mg_connect srv (mongo_uri config) w"

definition mongo_checkUserExists :: "'w mongo_server \<Rightarrow> mongo_task \<Rightarrow> 'w \<Rightarrow> go_error + bool" where
  "mongo_checkUserExists srv r w =
     map_sum id (\<lambda>n. n > 0) (mg_users_info srv (UsersInfo (gt_username r)) w)"

definition mongo_updateUser :: "'w mongo_server \<Rightarrow> mongo_task \<Rightarrow> 'w \<Rightarrow> go_error option \<times> 'w" where
  "mongo_updateUser srv r =
     mg_run srv (UpdateUser (gt_username r) (gt_password r) [(''readWrite'', gt_database r)])"

definition mongo_createUser :: "'w mongo_server \<Rightarrow> mongo_task \<Rightarrow> 'w \<Rightarrow> go_error option \<times> 'w" where
  "mongo_createUser srv r =
     mg_run srv (CreateUser (gt_username r) (gt_password r) [(''readWrite'', gt_database r)])"

definition mongo_reconcileUser :: "'w mongo_server \<Rightarrow> mongo_task \<Rightarrow> 'w \<Rightarrow> go_error option \<times> 'w" where
  "mongo_reconcileUser srv r w =
     (case mongo_checkUserExists srv r w of
        Inl err \<Rightarrow> (Some err, w)
      | Inr userExists \<Rightarrow> if userExists then mongo_updateUser srv r w else mongo_createUser srv r w)"

definition mongo_removeDatabase :: "'w mongo_server \<Rightarrow> mongo_task \<Rightarrow> 'w \<Rightarrow> go_error option \<times> 'w" where
  "mongo_removeDatabase srv r w =
     (case mg_list_databases srv (gt_database r) w of
        Inl err \<Rightarrow> (Some err, w)
      | Inr databases \<Rightarrow> if length databases = 0 then (None, w) else mg_drop srv (gt_database r) w)"

definition mongo_removeUser :: "'w mongo_server \<Rightarrow> mongo_task \<Rightarrow> 'w \<Rightarrow> go_error option \<times> 'w" where
  "mongo_removeUser srv r w =
     (if gt_username r = [] then (None, w)
      else case mongo_checkUserExists srv r w of
             Inl err \<Rightarrow> (Some err, w)
           | Inr userExists \<Rightarrow>
               if \<not> userExists then (None, w) else mg_run srv (DropUser (gt_username r)) w)"

definition mongo_reconcileTask :: "'w mongo_server \<Rightarrow> mongo_task \<Rightarrow> 'w \<Rightarrow> go_error option \<times> 'w" where
  "mongo_reconcileTask srv r = mongo_reconcileUser srv r"

definition mongo_deleteTask :: "'w mongo_server \<Rightarrow> mongo_task \<Rightarrow> 'w \<Rightarrow> go_error option \<times> 'w" where
  "mongo_deleteTask srv r = steps [mongo_removeDatabase srv r, mongo_removeUser srv r]"

definition mongo_task_of :: "mongo_database \<Rightarrow> mongo_task" where
  "mongo_task_of database = \<lparr>gt_username = ud_username (db_spec database),
     gt_password = ud_password (db_spec database), gt_database = ud_database_name (db_spec database)\<rparr>"

definition ReconcileMongoDatabase ::
  "'w mongo_server \<Rightarrow> mongo_database \<Rightarrow> mongo_config \<Rightarrow> 'w \<Rightarrow> (go_error + bool \<times> mongo_database) \<times> 'w" where
  "ReconcileMongoDatabase srv database config w =
     (case getMongoConnection srv config w of
        Some err \<Rightarrow> (Inl err, w)
      | None \<Rightarrow>
          (case mongo_reconcileTask srv (mongo_task_of database) w of
             (Some err, w') \<Rightarrow> (Inl err, w')
           | (None, w') \<Rightarrow>
               if db_state database \<noteq> TaskComplete
               then (Inr (True, database\<lparr>db_state := TaskComplete\<rparr>), w') else (Inr (False, database), w')))"

definition DeleteMongoDatabase ::
  "'w mongo_server \<Rightarrow> mongo_database \<Rightarrow> mongo_config \<Rightarrow> 'w \<Rightarrow> go_error option \<times> 'w" where
  "DeleteMongoDatabase srv database config w =
     (case getMongoConnection srv config w of
        Some err \<Rightarrow> (Some err, w)
      | None \<Rightarrow> mongo_deleteTask srv (mongo_task_of database) w)"


section \<open>Redis\<close>

record redis_options =
  ro_addr :: string
  ro_db :: "32 word"
  ro_password :: string
  ro_tls :: "bool option"

text \<open>\<open>ro_tls\<close> is \<open>None\<close> without TLS, and otherwise tells whether verification is skipped.\<close>

definition redis_options_of :: "redis_database \<Rightarrow> redis_config \<Rightarrow> redis_options" where
  "redis_options_of database config =
     \<lparr>ro_addr = rec_host config @ '':'' @ show_nat (unat (rec_port config)),
      ro_db = rd_number (rd_spec database), ro_password = rec_password config,
      ro_tls = (if rec_tls config = Some True then Some (rec_verify config = Some False) else None)\<rparr>"

definition ReconcileRedis ::
  "(redis_options \<Rightarrow> 'w \<Rightarrow> go_error option \<times> 'w) \<Rightarrow> redis_database \<Rightarrow> redis_config \<Rightarrow> 'w \<Rightarrow>
   (go_error + bool \<times> redis_database) \<times> 'w" where
  "ReconcileRedis flush_db database config w =
     (if rd_state database = TaskComplete then (Inr (False, database), w)
      else case flush_db (redis_options_of database config) w of
             (Some err, w') \<Rightarrow> (Inl err, w')
           | (None, w') \<Rightarrow> (Inr (True, database\<lparr>rd_state := TaskComplete\<rparr>), w'))"

end
