(* ===== verification/DatabaseProperties.thy ===== *)
theory DatabaseProperties
  imports DatabaseHandlers
begin

text \<open>
  What the handlers of \<^verbatim>\<open>handlers/database\<close> achieve on the servers. A server is abstracted to the
  users with their passwords, the databases and the grants that it holds; the laws say what its
  documentation says of each statement on names without quotes and backslashes, and nothing about
  other statements. The login check is only required to be sound.
\<close>

section \<open>The laws of a MySQL server\<close>

record mysql_state =
  ms_users :: "string \<Rightarrow> string option"
  ms_dbs :: "string set"
  ms_grants :: "(string \<times> string) set"

definition plain_name :: "string \<Rightarrow> bool" where
  "plain_name s \<longleftrightarrow> s \<noteq> [] \<and> CHR 0x27 \<notin> set s \<and> CHR 0x60 \<notin> set s \<and> CHR 0x5C \<notin> set s"

definition does ::
  "('w \<Rightarrow> go_error option \<times> 'w) \<Rightarrow> ('w \<Rightarrow> 's) \<Rightarrow> ('s \<Rightarrow> 's) \<Rightarrow> 'w \<Rightarrow> bool" where
  "does f view g w \<longleftrightarrow> fst (f w) = None \<and> view (snd (f w)) = g (view w)"

definition mysql_user_laws :: "'w mysql_server \<Rightarrow> ('w \<Rightarrow> mysql_state) \<Rightarrow> bool" where
  "mysql_user_laws srv view \<longleftrightarrow>
     (\<forall>u p w. plain_name u \<longrightarrow> plain_name p \<longrightarrow> ms_users (view w) u = None \<longrightarrow>
        does (my_exec srv (create_user_sql u p)) view (\<lambda>s. s\<lparr>ms_users := (ms_users s)(u \<mapsto> p)\<rparr>) w) \<and>
     (\<forall>u p w. plain_name u \<longrightarrow> plain_name p \<longrightarrow> ms_users (view w) u \<noteq> None \<longrightarrow>
        does (my_exec srv (alter_user_sql u p)) view (\<lambda>s. s\<lparr>ms_users := (ms_users s)(u \<mapsto> p)\<rparr>) w) \<and>
     (\<forall>u w. plain_name u \<longrightarrow> ms_users (view w) u \<noteq> None \<longrightarrow>
        does (my_exec srv (drop_user_sql u)) view
          (\<lambda>s. s\<lparr>ms_users := (ms_users s)(u := None), ms_grants := {g \<in> ms_grants s. fst g \<noteq> u}\<rparr>) w) \<and>
     (\<forall>w. does (my_exec srv flush_sql) view (\<lambda>s. s) w) \<and>
     (\<forall>u w. \<exists>h. my_select_user srv u ''%'' w =
        Inr (case ms_users (view w) u of None \<Rightarrow> None | Some p \<Rightarrow> Some (u, h)))"

definition mysql_database_laws :: "'w mysql_server \<Rightarrow> ('w \<Rightarrow> mysql_state) \<Rightarrow> bool" where
  "mysql_database_laws srv view \<longleftrightarrow>
     (\<forall>d w. plain_name d \<longrightarrow>
        does (my_exec srv (create_db_sql d)) view (\<lambda>s. s\<lparr>ms_dbs := insert d (ms_dbs s)\<rparr>) w) \<and>
     (\<forall>d w. plain_name d \<longrightarrow>
        does (my_exec srv (drop_db_sql d)) view (\<lambda>s. s\<lparr>ms_dbs := ms_dbs s - {d}\<rparr>) w) \<and>
     (\<forall>u d w. plain_name u \<longrightarrow> plain_name d \<longrightarrow> ms_users (view w) u \<noteq> None \<longrightarrow>
        does (my_exec srv (grant_sql d u)) view (\<lambda>s. s\<lparr>ms_grants := insert (u, d) (ms_grants s)\<rparr>) w) \<and>
     (\<forall>u d w. plain_name u \<longrightarrow> plain_name d \<longrightarrow> (u, d) \<in> ms_grants (view w) \<longrightarrow>
        does (my_exec srv (revoke_sql d u)) view (\<lambda>s. s\<lparr>ms_grants := ms_grants s - {(u, d)}\<rparr>) w) \<and>
     (\<forall>u w. \<exists>ds. my_select_dbs srv u ''%'' w = Inr ds \<and> distinct ds \<and> set ds = {d. (u, d) \<in> ms_grants (view w)})"

text \<open>A login with a name and password that the server does not hold is refused.\<close>

definition mysql_login_law :: "'w mysql_server \<Rightarrow> ('w \<Rightarrow> mysql_state) \<Rightarrow> string \<Rightarrow> 16 word \<Rightarrow> bool" where
  "mysql_login_law srv view host port \<longleftrightarrow>
     (\<forall>u p w. plain_name u \<longrightarrow> plain_name p \<longrightarrow> my_ping srv (dataSourceName u p host port) w \<longrightarrow>
        ms_users (view w) u = Some p)"

lemma doesE: "does f view g w \<Longrightarrow> (\<And>w'. f w = (None, w') \<Longrightarrow> view w' = g (view w) \<Longrightarrow> P) \<Longrightarrow> P"
  by (cases "f w") (auto simp: does_def)

lemma doesI: "f w = (None, w') \<Longrightarrow> view w' = g (view w) \<Longrightarrow> does f view g w"
  by (simp add: does_def)

lemma does_steps_Nil [simp]: "does (steps []) view (\<lambda>s. s) w"
  by (simp add: does_def)

lemma does_steps_Cons:
  assumes "does f view g w" "\<And>w'. view w' = g (view w) \<Longrightarrow> does (steps fs) view h w'"
  shows "does (steps (f # fs)) view (\<lambda>s. h (g s)) w"
proof -
  obtain w' where w': "f w = (None, w')" "view w' = g (view w)" using assms(1) by (rule doesE)
  with assms(2)[OF this(2)] show ?thesis by (simp add: does_def)
qed

lemma does_single: "does f view g w \<Longrightarrow> does (steps [f]) view g w"
  by (erule doesE) (simp add: does_def)

lemma does_two:
  "does f view g w \<Longrightarrow> (\<And>w'. view w' = g (view w) \<Longrightarrow> does f' view h w') \<Longrightarrow>
   does (steps [f, f']) view (\<lambda>s. h (g s)) w"
  by (blast intro: does_steps_Cons does_single)

lemma does_cong: "does f view g w \<Longrightarrow> f w = f' w \<Longrightarrow> g (view w) = g' (view w) \<Longrightarrow> does f' view g' w"
  by (simp add: does_def)

lemma mysql_lawsD:
  assumes "mysql_user_laws srv view"
  shows "plain_name u \<Longrightarrow> plain_name p \<Longrightarrow> ms_users (view w) u = None \<Longrightarrow>
      does (my_exec srv (create_user_sql u p)) view (\<lambda>s. s\<lparr>ms_users := (ms_users s)(u \<mapsto> p)\<rparr>) w"
    and "plain_name u \<Longrightarrow> plain_name p \<Longrightarrow> ms_users (view w) u \<noteq> None \<Longrightarrow>
      does (my_exec srv (alter_user_sql u p)) view (\<lambda>s. s\<lparr>ms_users := (ms_users s)(u \<mapsto> p)\<rparr>) w"
    and "plain_name u \<Longrightarrow> ms_users (view w) u \<noteq> None \<Longrightarrow>
      does (my_exec srv (drop_user_sql u)) view
        (\<lambda>s. s\<lparr>ms_users := (ms_users s)(u := None), ms_grants := {g \<in> ms_grants s. fst g \<noteq> u}\<rparr>) w"
    and "does (my_exec srv flush_sql) view (\<lambda>s. s) w"
    and "\<exists>h. my_select_user srv u ''%'' w = Inr (case ms_users (view w) u of None \<Rightarrow> None | Some p \<Rightarrow> Some (u, h))"
  using assms unfolding mysql_user_laws_def by blast+

lemma mysql_db_lawsD:
  assumes "mysql_database_laws srv view"
  shows "plain_name d \<Longrightarrow> does (my_exec srv (create_db_sql d)) view (\<lambda>s. s\<lparr>ms_dbs := insert d (ms_dbs s)\<rparr>) w"
    and "plain_name d \<Longrightarrow> does (my_exec srv (drop_db_sql d)) view (\<lambda>s. s\<lparr>ms_dbs := ms_dbs s - {d}\<rparr>) w"
    and "plain_name u \<Longrightarrow> plain_name d \<Longrightarrow> ms_users (view w) u \<noteq> None \<Longrightarrow>
      does (my_exec srv (grant_sql d u)) view (\<lambda>s. s\<lparr>ms_grants := insert (u, d) (ms_grants s)\<rparr>) w"
    and "plain_name u \<Longrightarrow> plain_name d \<Longrightarrow> (u, d) \<in> ms_grants (view w) \<Longrightarrow>
      does (my_exec srv (revoke_sql d u)) view (\<lambda>s. s\<lparr>ms_grants := ms_grants s - {(u, d)}\<rparr>) w"
    and "\<exists>ds. my_select_dbs srv u ''%'' w = Inr ds \<and> distinct ds \<and> set ds = {d. (u, d) \<in> ms_grants (view w)}"
  using assms unfolding mysql_database_laws_def by blast+


section \<open>The operations on the abstract server\<close>

lemma changePassword_does:
  assumes "mysql_user_laws srv view" "plain_name (mt_username r)" "plain_name (mt_password r)"
    and "ms_users (view w) (mt_username r) \<noteq> None"
  shows "does (mysql_changePassword srv r) view
           (\<lambda>s. s\<lparr>ms_users := (ms_users s)(mt_username r \<mapsto> mt_password r)\<rparr>) w"
  unfolding mysql_changePassword_def
  by (rule does_two[OF mysql_lawsD(2)[OF assms(1-4)] mysql_lawsD(4)[OF assms(1)]])

lemma createUser_does:
  assumes "mysql_user_laws srv view" "plain_name (mt_username r)" "plain_name (mt_password r)"
    and "ms_users (view w) (mt_username r) = None"
  shows "does (mysql_createUser srv r) view
           (\<lambda>s. s\<lparr>ms_users := (ms_users s)(mt_username r \<mapsto> mt_password r)\<rparr>) w"
  unfolding mysql_createUser_def
  by (rule does_two[OF mysql_lawsD(1)[OF assms(1-4)] mysql_lawsD(4)[OF assms(1)]])

lemma getUser_known:
  assumes "mysql_user_laws srv view" "plain_name (mt_username r)"
  shows "mysql_getUser srv r w = Inr (if ms_users (view w) (mt_username r) = None then [] else mt_username r)"
proof -
  obtain h where "my_select_user srv (mt_username r) ''%'' w =
      Inr (case ms_users (view w) (mt_username r) of None \<Rightarrow> None | Some p \<Rightarrow> Some (mt_username r, h))"
    using mysql_lawsD(5)[OF assms(1)] by blast
  then show ?thesis by (auto simp: mysql_getUser_def split: option.splits)
qed

lemma reconcileUser_does:
  assumes "mysql_user_laws srv view" "mysql_login_law srv view (mt_host r) (mt_port r)"
    and "plain_name (mt_username r)" "plain_name (mt_password r)"
  shows "does (mysql_reconcileUser srv r) view
           (\<lambda>s. s\<lparr>ms_users := (ms_users s)(mt_username r \<mapsto> mt_password r)\<rparr>) w"
proof -
  have u: "mt_username r \<noteq> []" using assms(3) by (simp add: plain_name_def)
  note get = getUser_known[OF assms(1,3), of w]
  consider "ms_users (view w) (mt_username r) = None"
    | "ms_users (view w) (mt_username r) \<noteq> None" "mysql_checkUserCanLogin srv r w"
    | "ms_users (view w) (mt_username r) \<noteq> None" "\<not> mysql_checkUserCanLogin srv r w" by blast
  then show ?thesis
  proof cases
    case 1
    then have "mysql_reconcileUser srv r w = mysql_createUser srv r w"
      using get u by (simp add: mysql_reconcileUser_def)
    with createUser_does[OF assms(1,3,4) 1] show ?thesis by (simp add: does_def)
  next
    case 2
    then have "mysql_reconcileUser srv r w = (None, w)" using get by (auto simp: mysql_reconcileUser_def)
    moreover have "ms_users (view w) (mt_username r) = Some (mt_password r)"
      using 2(2) assms(2-4)
      by (auto simp: mysql_checkUserCanLogin_def Let_def mysql_login_law_def split: if_splits)
    ultimately show ?thesis by (simp add: does_def fun_upd_idem)
  next
    case 3
    then have "mysql_reconcileUser srv r w = mysql_changePassword srv r w"
      using get by (auto simp: mysql_reconcileUser_def)
    with changePassword_does[OF assms(1,3,4) 3(1)] show ?thesis by (simp add: does_def)
  qed
qed

lemma revokes_does:
  assumes "mysql_database_laws srv view" "plain_name (mt_username r)"
    and "distinct ds" "\<forall>d \<in> set ds. plain_name d \<and> (mt_username r, d) \<in> ms_grants (view w)"
  shows "does (steps (map (revokePermissionOnDatabase srv r) ds)) view
           (\<lambda>s. s\<lparr>ms_grants := ms_grants s - {mt_username r} \<times> set ds\<rparr>) w"
  using assms(3,4)
proof (induction ds arbitrary: w)
  case Nil
  then show ?case by (simp add: does_def)
next
  case (Cons d ds)
  then have d: "plain_name d" "d \<noteq> []" "(mt_username r, d) \<in> ms_grants (view w)"
    by (simp_all add: plain_name_def)
  have one: "does (revokePermissionOnDatabase srv r d) view (\<lambda>s. s\<lparr>ms_grants := ms_grants s - {(mt_username r, d)}\<rparr>) w"
    using mysql_db_lawsD(4)[OF assms(1,2) d(1,3)] d(2) by (simp add: revokePermissionOnDatabase_def does_def)
  have "does (steps (map (revokePermissionOnDatabase srv r) ds)) view
      (\<lambda>s. s\<lparr>ms_grants := ms_grants s - {mt_username r} \<times> set ds\<rparr>) w'"
    if "view w' = (view w)\<lparr>ms_grants := ms_grants (view w) - {(mt_username r, d)}\<rparr>" for w'
    using Cons.IH[of w'] Cons.prems that by auto
  note both = does_steps_Cons[OF one this]
  show ?case by (rule does_cong[OF both]) (simp_all add: Diff_insert2[symmetric])
qed

lemma reconcilePermissions_does:
  assumes "mysql_database_laws srv view" "plain_name (mt_username r)" "plain_name (mt_database r)"
    and "ms_users (view w) (mt_username r) \<noteq> None"
    and "\<forall>d. (mt_username r, d) \<in> ms_grants (view w) \<longrightarrow> plain_name d"
  shows "does (mysql_reconcilePermissions srv r) view
           (\<lambda>s. s\<lparr>ms_grants := insert (mt_username r, mt_database r) {g \<in> ms_grants s. fst g \<noteq> mt_username r}\<rparr>) w"
proof -
  let ?u = "mt_username r" and ?d = "mt_database r"
  have "?u \<noteq> []" using assms(2) by (simp add: plain_name_def)
  obtain ds where ds: "my_select_dbs srv ?u ''%'' w = Inr ds" "distinct ds"
      "set ds = {d. (?u, d) \<in> ms_grants (view w)}"
    using mysql_db_lawsD(5)[OF assms(1)] by blast
  let ?old = "filter (\<lambda>d. d \<noteq> ?d) ds"
  have "does (steps (map (revokePermissionOnDatabase srv r) ?old)) view
      (\<lambda>s. s\<lparr>ms_grants := ms_grants s - {?u} \<times> set ?old\<rparr>) w"
    using assms(5) ds by (intro revokes_does[OF assms(1,2)]) auto
  then obtain w1 where w1: "steps (map (revokePermissionOnDatabase srv r) ?old) w = (None, w1)"
      "view w1 = (view w)\<lparr>ms_grants := ms_grants (view w) - {?u} \<times> set ?old\<rparr>" by (rule doesE)
  have run: "revokeNotRequestedPermissions srv r w = (Inr (?d \<in> set ds), w1)"
    using \<open>?u \<noteq> []\<close> ds(1) w1(1)
    by (simp add: revokeNotRequestedPermissions_def getDatabasesWhereUserHasPermissions_def)
  have left: "insert (?u, ?d) (ms_grants (view w) - {?u} \<times> set ?old) =
      insert (?u, ?d) {g \<in> ms_grants (view w). fst g \<noteq> ?u}"
  proof (rule set_eqI)
    fix g
    show "g \<in> insert (?u, ?d) (ms_grants (view w) - {?u} \<times> set ?old) \<longleftrightarrow>
        g \<in> insert (?u, ?d) {g \<in> ms_grants (view w). fst g \<noteq> ?u}"
      using ds(3) by (cases g; cases "fst g = ?u"; cases "snd g = ?d") simp_all
  qed
  show ?thesis
  proof (cases "?d \<in> set ds")
    case True
    then have "(?u, ?d) \<in> ms_grants (view w) - {?u} \<times> set ?old" using ds(3) by simp
    with left True run w1(2) show ?thesis
      by (simp add: does_def mysql_reconcilePermissions_def insert_absorb)
  next
    case False
    have "ms_users (view w1) ?u \<noteq> None" using assms(4) w1(2) by simp
    from mysql_db_lawsD(3)[OF assms(1,2,3) this] show ?thesis
      using left False run w1(2) by (simp add: does_def mysql_reconcilePermissions_def)
  qed
qed

text \<open>The abstract effect of a reconcile and of a deletion.\<close>

definition mysql_established :: "string \<Rightarrow> string \<Rightarrow> string \<Rightarrow> mysql_state \<Rightarrow> mysql_state" where
  "mysql_established u p d s =
     s\<lparr>ms_users := (ms_users s)(u \<mapsto> p), ms_dbs := insert d (ms_dbs s),
       ms_grants := insert (u, d) {g \<in> ms_grants s. fst g \<noteq> u}\<rparr>"

definition mysql_removed :: "string \<Rightarrow> string \<Rightarrow> mysql_state \<Rightarrow> mysql_state" where
  "mysql_removed u d s =
     s\<lparr>ms_users := (ms_users s)(u := None), ms_dbs := ms_dbs s - {d},
       ms_grants := {g \<in> ms_grants s. fst g \<noteq> u}\<rparr>"

lemma reconcileTask_does:
  assumes "mysql_user_laws srv view" "mysql_database_laws srv view"
    and "mysql_login_law srv view (mt_host r) (mt_port r)"
    and "plain_name (mt_username r)" "plain_name (mt_password r)" "plain_name (mt_database r)"
    and "\<forall>d. (mt_username r, d) \<in> ms_grants (view w) \<longrightarrow> plain_name d"
  shows "does (mysql_reconcileTask srv r) view
           (mysql_established (mt_username r) (mt_password r) (mt_database r)) w"
proof -
  have "does (steps [mysql_reconcileDatabase srv r, mysql_reconcilePermissions srv r]) view
      (\<lambda>s. (s\<lparr>ms_dbs := insert (mt_database r) (ms_dbs s)\<rparr>)
             \<lparr>ms_grants := insert (mt_username r, mt_database r) {g \<in> ms_grants s. fst g \<noteq> mt_username r}\<rparr>) w1"
    if "view w1 = (view w)\<lparr>ms_users := (ms_users (view w))(mt_username r \<mapsto> mt_password r)\<rparr>" for w1
    using does_two[where f' = "mysql_reconcilePermissions srv r", OF mysql_db_lawsD(1)[OF assms(2,6), of w1]
        reconcilePermissions_does[OF assms(2,4,6)]] that assms(7)
    by (simp add: mysql_reconcileDatabase_def)
  from does_steps_Cons[OF reconcileUser_does[OF assms(1,3,4,5)] this] show ?thesis
    unfolding mysql_reconcileTask_def by (rule does_cong) (simp_all add: mysql_established_def)
qed

lemma deleteTask_does:
  assumes "mysql_user_laws srv view" "mysql_database_laws srv view"
    and "plain_name (mt_username r)" "plain_name (mt_database r)"
    and "fst ` ms_grants (view w) \<subseteq> dom (ms_users (view w))"
  shows "does (mysql_deleteTask srv r) view (mysql_removed (mt_username r) (mt_database r)) w"
proof -
  let ?u = "mt_username r"
  let ?g = "\<lambda>s. s\<lparr>ms_users := (ms_users s)(?u := None), ms_grants := {g \<in> ms_grants s. fst g \<noteq> ?u}\<rparr>"
  have u: "?u \<noteq> []" using assms(3) by (simp add: plain_name_def)
  have user: "does (mysql_removeUser srv r) view ?g w"
  proof (cases "ms_users (view w) ?u = None")
    case True
    then have "{g \<in> ms_grants (view w). fst g \<noteq> ?u} = ms_grants (view w)" using assms(5) by auto
    with True u getUser_known[OF assms(1,3), of w] show ?thesis
      by (simp add: does_def mysql_removeUser_def fun_upd_idem)
  next
    case False
    then have "mysql_removeUser srv r w = my_exec srv (drop_user_sql ?u) w"
      using u getUser_known[OF assms(1,3), of w] by (auto simp: mysql_removeUser_def)
    with mysql_lawsD(3)[OF assms(1,3) False] show ?thesis by (simp add: does_def)
  qed
  have rest: "does (steps [mysql_revokePermissions srv r, mysql_removeDatabase srv r]) view
      (\<lambda>s. s\<lparr>ms_dbs := ms_dbs s - {mt_database r}\<rparr>) w1" if "view w1 = ?g (view w)" for w1
  proof -
    have "my_select_dbs srv ?u ''%'' w1 = Inr []"
      using mysql_db_lawsD(5)[OF assms(2), of ?u w1] that by auto
    then have "does (mysql_revokePermissions srv r) view (\<lambda>s. s) w1"
      using u by (simp add: does_def mysql_revokePermissions_def getDatabasesWhereUserHasPermissions_def)
    from does_two[OF this] mysql_db_lawsD(2)[OF assms(2,4)] show ?thesis
      by (simp add: mysql_removeDatabase_def)
  qed
  from does_steps_Cons[OF user rest] show ?thesis
    unfolding mysql_deleteTask_def by (rule does_cong) (simp_all add: mysql_removed_def)
qed



section \<open>Properties of the MySQL handlers\<close>

definition plain_spec :: "user_database_spec \<Rightarrow> bool" where
  "plain_spec sp \<longleftrightarrow> plain_name (ud_username sp) \<and> plain_name (ud_password sp) \<and> plain_name (ud_database_name sp)"

lemma mysql_reconcile_does:
  assumes "mysql_user_laws srv view" "mysql_database_laws srv view"
    and "mysql_login_law srv view (myc_host config) (myc_port config)"
    and "my_open srv (dataSourceName (myc_username config) (myc_password config) (myc_host config) (myc_port config)) = None"
    and "plain_spec (db_spec database)"
    and "\<forall>d. (ud_username (db_spec database), d) \<in> ms_grants (view w) \<longrightarrow> plain_name d"
  obtains w' where "ReconcileMysqlDatabase srv database config w =
      (Inr (db_state database \<noteq> TaskComplete, database\<lparr>db_state := TaskComplete\<rparr>), w')"
    and "view w' = mysql_established (ud_username (db_spec database)) (ud_password (db_spec database))
           (ud_database_name (db_spec database)) (view w)"
proof -
  let ?task = "\<lparr>mt_host = myc_host config, mt_port = myc_port config,
      mt_username = ud_username (db_spec database), mt_password = ud_password (db_spec database),
      mt_database = ud_database_name (db_spec database)\<rparr>"
  have "does (mysql_reconcileTask srv ?task) view (mysql_established (ud_username (db_spec database))
      (ud_password (db_spec database)) (ud_database_name (db_spec database))) w"
    using reconcileTask_does[OF assms(1,2), of ?task w] assms(3,5,6) by (simp add: plain_spec_def)
  then obtain w' where w': "mysql_reconcileTask srv ?task w = (None, w')"
      "view w' = mysql_established (ud_username (db_spec database)) (ud_password (db_spec database))
         (ud_database_name (db_spec database)) (view w)" by (rule doesE)
  have "ReconcileMysqlDatabase srv database config w =
      (Inr (db_state database \<noteq> TaskComplete, database\<lparr>db_state := TaskComplete\<rparr>), w')"
    using w'(1) assms(4) by (cases database) (simp add: ReconcileMysqlDatabase_def Let_def)
  from this w'(2) show thesis by (rule that)
qed

text \<open>
  C30. \<^verbatim>\<open>ReconcileMysqlDatabase\<close> establishes what its resource asks for, from any state of the
  server: it succeeds, the user exists with the requested password, the database exists, the user
  has rights on this database and on no other, nothing else has changed on the server, and the
  resource is Complete and reported as changed exactly when it was not before.
\<close>

theorem mysql_reconcile_establishes:
  assumes "mysql_user_laws srv view" "mysql_database_laws srv view"
    and "mysql_login_law srv view (myc_host config) (myc_port config)"
    and "my_open srv (dataSourceName (myc_username config) (myc_password config) (myc_host config) (myc_port config)) = None"
    and "plain_spec (db_spec database)"
    and "\<forall>d. (ud_username (db_spec database), d) \<in> ms_grants (view w) \<longrightarrow> plain_name d"
  shows "\<exists>w'. ReconcileMysqlDatabase srv database config w =
            (Inr (db_state database \<noteq> TaskComplete, database\<lparr>db_state := TaskComplete\<rparr>), w') \<and>
          view w' = (view w)
            \<lparr>ms_users := (ms_users (view w))(ud_username (db_spec database) \<mapsto> ud_password (db_spec database)),
             ms_dbs := insert (ud_database_name (db_spec database)) (ms_dbs (view w)),
             ms_grants := insert (ud_username (db_spec database), ud_database_name (db_spec database))
               {g \<in> ms_grants (view w). fst g \<noteq> ud_username (db_spec database)}\<rparr>"
  by (rule mysql_reconcile_does[OF assms], intro exI conjI, assumption)
    (simp add: mysql_established_def)

text \<open>
  C31. \<^verbatim>\<open>DeleteMysqlDatabase\<close> removes the user, all rights of the user and the database, and nothing
  else, and it succeeds also when the user or the database is gone already.
\<close>

theorem mysql_delete_removes:
  assumes "mysql_user_laws srv view" "mysql_database_laws srv view"
    and "my_open srv (dataSourceName (myc_username config) (myc_password config) (myc_host config) (myc_port config)) = None"
    and "plain_spec (db_spec database)"
    and "fst ` ms_grants (view w) \<subseteq> dom (ms_users (view w))"
  shows "\<exists>w'. DeleteMysqlDatabase srv database config w = (None, w') \<and>
          view w' = (view w)
            \<lparr>ms_users := (ms_users (view w))(ud_username (db_spec database) := None),
             ms_dbs := ms_dbs (view w) - {ud_database_name (db_spec database)},
             ms_grants := {g \<in> ms_grants (view w). fst g \<noteq> ud_username (db_spec database)}\<rparr>"
proof -
  let ?task = "\<lparr>mt_host = [], mt_port = 0, mt_username = ud_username (db_spec database),
      mt_password = ud_password (db_spec database), mt_database = ud_database_name (db_spec database)\<rparr>"
  have "does (mysql_deleteTask srv ?task) view
      (mysql_removed (ud_username (db_spec database)) (ud_database_name (db_spec database))) w"
    using deleteTask_does[OF assms(1,2), of ?task w] assms(4,5) by (simp add: plain_spec_def)
  then show ?thesis
    by (rule doesE) (simp add: DeleteMysqlDatabase_def assms(3) mysql_removed_def)
qed



section \<open>A server that obeys the laws\<close>

text \<open>
  The laws can be met: a small server that reads the statements. Its world is the list of its
  users with their passwords, of its databases and of its grants.
\<close>

type_synonym toy_world = "(string \<times> string) list \<times> string list \<times> (string \<times> string) list"

definition after_char :: "char \<Rightarrow> string \<Rightarrow> string" where
  "after_char c t = tl (dropWhile (\<lambda>x. x \<noteq> c) t)"

definition until_char :: "char \<Rightarrow> string \<Rightarrow> string" where
  "until_char c t = takeWhile (\<lambda>x. x \<noteq> c) t"

definition parsed_user :: "string \<Rightarrow> string" where
  "parsed_user t = until_char (CHR 0x27) (after_char (CHR 0x27) t)"

definition parsed_password :: "string \<Rightarrow> string" where
  "parsed_password t = until_char (CHR 0x27) (((after_char (CHR 0x27)) ^^ 5) t)"

definition parsed_db :: "string \<Rightarrow> string" where
  "parsed_db t = until_char (CHR 0x60) (after_char (CHR 0x60) t)"

definition toy_exec :: "string \<Rightarrow> toy_world \<Rightarrow> go_error option \<times> toy_world" where
  "toy_exec t w =
     (case w of (us, ds, gs) \<Rightarrow>
        (None,
         if prefix ''CREATE U'' t \<or> prefix ''A'' t then (AList.update (parsed_user t) (parsed_password t) us, ds, gs)
         else if prefix ''DROP U'' t
         then (AList.delete (parsed_user t) us, ds, filter (\<lambda>g. fst g \<noteq> parsed_user t) gs)
         else if prefix ''C'' t then (us, parsed_db t # ds, gs)
         else if prefix ''D'' t then (us, filter (\<lambda>d. d \<noteq> parsed_db t) ds, gs)
         else if prefix ''G'' t then (us, ds, (parsed_user t, parsed_db t) # gs)
         else if prefix ''R'' t then (us, ds, filter (\<lambda>g. g \<noteq> (parsed_user t, parsed_db t)) gs)
         else (us, ds, gs)))"

definition toy_server :: "toy_world mysql_server" where
  "toy_server =
     \<lparr>my_open = (\<lambda>dsn. None), my_ping = (\<lambda>dsn w. False), my_exec = toy_exec,
      my_select_user = (\<lambda>u h w. Inr (case map_of (fst w) u of None \<Rightarrow> None | Some p \<Rightarrow> Some (u, ''hash''))),
      my_select_dbs = (\<lambda>u h w. Inr (remdups (map snd (filter (\<lambda>g. fst g = u) (snd (snd w))))))\<rparr>"

definition toy_view :: "toy_world \<Rightarrow> mysql_state" where
  "toy_view w = \<lparr>ms_users = map_of (fst w), ms_dbs = set (fst (snd w)), ms_grants = set (snd (snd w))\<rparr>"

lemma after_char_Cons: "after_char c (x # t) = (if x = c then t else after_char c t)"
  by (simp add: after_char_def)

lemma after_char_append: "c \<notin> set l \<Longrightarrow> after_char c (l @ c # r) = r"
  by (induction l) (auto simp: after_char_def)

lemma until_char_append: "c \<notin> set l \<Longrightarrow> until_char c (l @ c # r) = l"
  by (induction l) (auto simp: until_char_def)

lemmas toy_parse = account_def sq_def bq_def plain_name_def parsed_user_def parsed_password_def parsed_db_def
  after_char_Cons after_char_append until_char_append numeral_eq_Suc

lemma parsed_create_user [simp]:
  assumes "plain_name u" "plain_name p"
  shows "parsed_user (create_user_sql u p) = u" "parsed_password (create_user_sql u p) = p"
    "parsed_user (alter_user_sql u p) = u" "parsed_password (alter_user_sql u p) = p"
  using assms by (simp_all add: create_user_sql_def alter_user_sql_def toy_parse)

lemma parsed_drop_user [simp]: "plain_name u \<Longrightarrow> parsed_user (drop_user_sql u) = u"
  by (simp add: drop_user_sql_def toy_parse)

lemma parsed_db_simps [simp]:
  assumes "plain_name d"
  shows "parsed_db (create_db_sql d) = d" "parsed_db (drop_db_sql d) = d"
  using assms by (simp_all add: create_db_sql_def drop_db_sql_def toy_parse)

lemma after_char_skip: "c \<notin> set l \<Longrightarrow> after_char c (l @ r) = after_char c r"
  by (induction l) (auto simp: after_char_def)

lemma parsed_grant_simps [simp]:
  assumes "plain_name u" "plain_name d"
  shows "parsed_db (grant_sql d u) = d" "parsed_user (grant_sql d u) = u"
    "parsed_db (revoke_sql d u) = d" "parsed_user (revoke_sql d u) = u"
  using assms by (simp_all add: grant_sql_def revoke_sql_def toy_parse after_char_skip)

lemma toy_exec_simps:
  "toy_exec (create_user_sql u p) (us, ds, gs) = (None, AList.update (parsed_user (create_user_sql u p))
     (parsed_password (create_user_sql u p)) us, ds, gs)"
  "toy_exec (alter_user_sql u p) (us, ds, gs) = (None, AList.update (parsed_user (alter_user_sql u p))
     (parsed_password (alter_user_sql u p)) us, ds, gs)"
  "toy_exec (drop_user_sql u) (us, ds, gs) = (None, AList.delete (parsed_user (drop_user_sql u)) us, ds,
     filter (\<lambda>g. fst g \<noteq> parsed_user (drop_user_sql u)) gs)"
  "toy_exec (create_db_sql d) (us, ds, gs) = (None, us, parsed_db (create_db_sql d) # ds, gs)"
  "toy_exec (drop_db_sql d) (us, ds, gs) = (None, us, filter (\<lambda>e. e \<noteq> parsed_db (drop_db_sql d)) ds, gs)"
  "toy_exec (grant_sql d u) (us, ds, gs) = (None, us, ds, (parsed_user (grant_sql d u), parsed_db (grant_sql d u)) # gs)"
  "toy_exec (revoke_sql d u) (us, ds, gs) = (None, us, ds,
     filter (\<lambda>g. g \<noteq> (parsed_user (revoke_sql d u), parsed_db (revoke_sql d u))) gs)"
  "toy_exec flush_sql (us, ds, gs) = (None, us, ds, gs)"
  by (simp_all add: toy_exec_def create_user_sql_def alter_user_sql_def drop_user_sql_def create_db_sql_def
      drop_db_sql_def grant_sql_def revoke_sql_def flush_sql_def)

lemma toy_server_simps [simp]:
  "my_exec toy_server = toy_exec" "my_open toy_server dsn = None" "my_ping toy_server dsn w = False"
  "my_select_user toy_server u h w = Inr (case map_of (fst w) u of None \<Rightarrow> None | Some p \<Rightarrow> Some (u, ''hash''))"
  "my_select_dbs toy_server u h w = Inr (remdups (map snd (filter (\<lambda>g. fst g = u) (snd (snd w)))))"
  by (simp_all add: toy_server_def)

lemma toy_user_laws: "mysql_user_laws toy_server toy_view"
  unfolding mysql_user_laws_def
  by (intro conjI allI impI; (simp add: does_def split_paired_all toy_exec_simps toy_view_def gomap_simps;
        (auto split: option.splits)?)?)

lemma toy_database_laws: "mysql_database_laws toy_server toy_view"
  unfolding mysql_database_laws_def
  by (intro conjI allI impI; (simp add: does_def split_paired_all toy_exec_simps toy_view_def; force?)?)

lemma toy_login_law: "mysql_login_law toy_server toy_view host port"
  by (simp add: mysql_login_law_def)

definition toy_mysql_config :: mysql_config where
  "toy_mysql_config = \<lparr>myc_meta = new_meta ''m'' ''ns'' [], myc_host = ''db'', myc_username = ''root'',
     myc_password = ''pw'', myc_port = 3306\<rparr>"

definition toy_task_database :: mysql_database where
  "toy_task_database = \<lparr>db_meta = new_meta ''x'' ''ns'' [],
     db_spec = \<lparr>ud_environment = \<lparr>ec_service_name = ''shop'', ec_site_name = ''site'', ec_environment = ''m''\<rparr>,
       ud_database_name = ''site_shop'', ud_username = ''u'', ud_password = ''secret''\<rparr>,
     db_state = TaskPending\<rparr>"

lemma toy_plain_spec: "plain_spec (db_spec toy_task_database)"
  by (simp add: plain_spec_def plain_name_def toy_task_database_def)

lemma toy_task_simps:
  "ud_username (db_spec toy_task_database) = ''u''" "ud_password (db_spec toy_task_database) = ''secret''"
  "ud_database_name (db_spec toy_task_database) = ''site_shop''" "db_state toy_task_database = TaskPending"
  by (simp_all add: toy_task_database_def)

definition toy_world_before :: toy_world where
  "toy_world_before = ([(''u'', ''old'')], [''other''], [(''u'', ''other''), (''v'', ''other'')])"

lemma toy_before_simps:
  "ms_dbs (toy_view toy_world_before) = {''other''}"
  "{g \<in> ms_grants (toy_view toy_world_before). fst g \<noteq> ''u''} = {(''v'', ''other'')}"
  "\<forall>d. (ud_username (db_spec toy_task_database), d) \<in> ms_grants (toy_view toy_world_before) \<longrightarrow> plain_name d"
  by (auto simp: toy_view_def toy_world_before_def toy_task_simps plain_name_def)

theorem mysql_reconcile_establishes_witness:
  "\<exists>w'. ReconcileMysqlDatabase toy_server toy_task_database toy_mysql_config toy_world_before =
        (Inr (True, toy_task_database\<lparr>db_state := TaskComplete\<rparr>), w') \<and>
     ms_users (toy_view w') ''u'' = Some ''secret'' \<and> ms_dbs (toy_view w') = {''site_shop'', ''other''} \<and>
     ms_grants (toy_view w') = {(''u'', ''site_shop''), (''v'', ''other'')}"
proof -
  note est = mysql_reconcile_establishes[OF toy_user_laws toy_database_laws toy_login_law toy_server_simps(2)
      toy_plain_spec toy_before_simps(3), of toy_mysql_config, unfolded toy_task_simps toy_before_simps]
  from est show ?thesis by (elim exE conjE, intro exI conjI, simp) simp_all
qed

definition toy_world_after :: toy_world where
  "toy_world_after = ([(''u'', ''secret''), (''v'', ''x'')], [''site_shop'', ''other''],
     [(''u'', ''site_shop''), (''v'', ''other'')])"

lemma toy_after_simps:
  "ms_dbs (toy_view toy_world_after) - {''site_shop''} = {''other''}"
  "{g \<in> ms_grants (toy_view toy_world_after). fst g \<noteq> ''u''} = {(''v'', ''other'')}"
  "fst ` ms_grants (toy_view toy_world_after) \<subseteq> dom (ms_users (toy_view toy_world_after))"
  by (auto simp: toy_view_def toy_world_after_def)

theorem mysql_delete_removes_witness:
  "\<exists>w'. DeleteMysqlDatabase toy_server toy_task_database toy_mysql_config toy_world_after = (None, w') \<and>
     ms_users (toy_view w') ''u'' = None \<and> ms_dbs (toy_view w') = {''other''} \<and>
     ms_grants (toy_view w') = {(''v'', ''other'')}"
proof -
  note del = mysql_delete_removes[OF toy_user_laws toy_database_laws toy_server_simps(2) toy_plain_spec
      toy_after_simps(3), of toy_mysql_config, unfolded toy_task_simps toy_after_simps]
  from del show ?thesis by (elim exE conjE, intro exI conjI, simp) simp_all
qed

text \<open>
  A user that two databases share keeps the rights on the one that was reconciled last only.
\<close>

lemma shared_user_loses_grants:
  assumes "mysql_user_laws srv view" "mysql_database_laws srv view"
    and "mysql_login_law srv view (myc_host config) (myc_port config)"
    and "my_open srv (dataSourceName (myc_username config) (myc_password config) (myc_host config) (myc_port config)) = None"
    and "plain_spec (db_spec a)" "plain_spec (db_spec b)"
    and "ud_username (db_spec a) = ud_username (db_spec b)"
    and "ud_database_name (db_spec a) \<noteq> ud_database_name (db_spec b)"
    and "ms_grants (view w) = {}"
  obtains r1 w1 r2 w2 where "ReconcileMysqlDatabase srv a config w = (Inr r1, w1)"
    "ReconcileMysqlDatabase srv b config w1 = (Inr r2, w2)"
    "ms_grants (view w1) = {(ud_username (db_spec a), ud_database_name (db_spec a))}"
    "ms_grants (view w2) = {(ud_username (db_spec a), ud_database_name (db_spec b))}"
proof -
  obtain w1 where w1: "ReconcileMysqlDatabase srv a config w =
      (Inr (db_state a \<noteq> TaskComplete, a\<lparr>db_state := TaskComplete\<rparr>), w1)"
    "view w1 = mysql_established (ud_username (db_spec a)) (ud_password (db_spec a)) (ud_database_name (db_spec a)) (view w)"
    using mysql_reconcile_does[OF assms(1-5), of w] assms(9) by auto
  then have g1: "ms_grants (view w1) = {(ud_username (db_spec a), ud_database_name (db_spec a))}"
    using assms(9) by (simp add: mysql_established_def)
  then have plain: "\<forall>d. (ud_username (db_spec b), d) \<in> ms_grants (view w1) \<longrightarrow> plain_name d"
    using assms(5) by (simp add: plain_spec_def)
  obtain w2 where w2: "ReconcileMysqlDatabase srv b config w1 =
      (Inr (db_state b \<noteq> TaskComplete, b\<lparr>db_state := TaskComplete\<rparr>), w2)"
    "view w2 = mysql_established (ud_username (db_spec b)) (ud_password (db_spec b)) (ud_database_name (db_spec b)) (view w1)"
    using mysql_reconcile_does[OF assms(1-4,6) plain] by auto
  have none: "{g. g = (u, d) \<and> fst g \<noteq> u} = {}" for u d :: string by auto
  have "ms_grants (view w2) = {(ud_username (db_spec a), ud_database_name (db_spec b))}"
    unfolding w2(2) by (simp add: mysql_established_def g1 assms(7) none)
  with w1(1) w2(1) g1 show thesis by (rule that)
qed


section \<open>Mongo and Redis\<close>

record mongo_state =
  gs_users :: "string \<Rightarrow> (string \<times> (string \<times> string) list) option"
  gs_dbs :: "string set"

definition mongo_laws :: "'w mongo_server \<Rightarrow> ('w \<Rightarrow> mongo_state) \<Rightarrow> bool" where
  "mongo_laws srv view \<longleftrightarrow>
     (\<forall>u w. \<exists>n. mg_users_info srv (UsersInfo u) w = Inr n \<and> (n > 0 \<longleftrightarrow> gs_users (view w) u \<noteq> None)) \<and>
     (\<forall>u p rs w. gs_users (view w) u = None \<longrightarrow>
        does (mg_run srv (CreateUser u p rs)) view (\<lambda>s. s\<lparr>gs_users := (gs_users s)(u \<mapsto> (p, rs))\<rparr>) w) \<and>
     (\<forall>u p rs w. gs_users (view w) u \<noteq> None \<longrightarrow>
        does (mg_run srv (UpdateUser u p rs)) view (\<lambda>s. s\<lparr>gs_users := (gs_users s)(u \<mapsto> (p, rs))\<rparr>) w) \<and>
     (\<forall>u w. gs_users (view w) u \<noteq> None \<longrightarrow>
        does (mg_run srv (DropUser u)) view (\<lambda>s. s\<lparr>gs_users := (gs_users s)(u := None)\<rparr>) w) \<and>
     (\<forall>d w. \<exists>ds. mg_list_databases srv d w = Inr ds \<and> set ds = {d} \<inter> gs_dbs (view w)) \<and>
     (\<forall>d w. does (mg_drop srv d) view (\<lambda>s. s\<lparr>gs_dbs := gs_dbs s - {d}\<rparr>) w)"

lemma mongo_lawsD:
  assumes "mongo_laws srv view"
  shows "\<exists>n. mg_users_info srv (UsersInfo u) w = Inr n \<and> (n > 0 \<longleftrightarrow> gs_users (view w) u \<noteq> None)"
    and "gs_users (view w) u = None \<Longrightarrow>
      does (mg_run srv (CreateUser u p rs)) view (\<lambda>s. s\<lparr>gs_users := (gs_users s)(u \<mapsto> (p, rs))\<rparr>) w"
    and "gs_users (view w) u \<noteq> None \<Longrightarrow>
      does (mg_run srv (UpdateUser u p rs)) view (\<lambda>s. s\<lparr>gs_users := (gs_users s)(u \<mapsto> (p, rs))\<rparr>) w"
    and "gs_users (view w) u \<noteq> None \<Longrightarrow>
      does (mg_run srv (DropUser u)) view (\<lambda>s. s\<lparr>gs_users := (gs_users s)(u := None)\<rparr>) w"
    and "\<exists>ds. mg_list_databases srv d w = Inr ds \<and> set ds = {d} \<inter> gs_dbs (view w)"
    and "does (mg_drop srv d) view (\<lambda>s. s\<lparr>gs_dbs := gs_dbs s - {d}\<rparr>) w"
  using assms by (simp_all add: mongo_laws_def)

lemma mongo_user_exists:
  assumes "mongo_laws srv view"
  shows "mongo_checkUserExists srv r w = Inr (gs_users (view w) (gt_username r) \<noteq> None)"
  using mongo_lawsD(1)[OF assms, of "gt_username r" w] by (auto simp: mongo_checkUserExists_def)

lemma mongo_reconcileTask_does:
  assumes "mongo_laws srv view"
  shows "does (mongo_reconcileTask srv r) view
    (\<lambda>s. s\<lparr>gs_users := (gs_users s)(gt_username r \<mapsto> (gt_password r, [(''readWrite'', gt_database r)]))\<rparr>) w"
  using mongo_lawsD(2,3)[OF assms, of w "gt_username r" "gt_password r" "[(''readWrite'', gt_database r)]"]
  by (cases "gs_users (view w) (gt_username r) = None")
    (simp_all add: does_def mongo_reconcileTask_def mongo_reconcileUser_def mongo_user_exists[OF assms]
      mongo_createUser_def mongo_updateUser_def)

lemma mongo_deleteTask_does:
  assumes "mongo_laws srv view" "gt_username r \<noteq> []"
  shows "does (mongo_deleteTask srv r) view
    (\<lambda>s. s\<lparr>gs_dbs := gs_dbs s - {gt_database r}, gs_users := (gs_users s)(gt_username r := None)\<rparr>) w"
proof -
  obtain ds where ds: "mg_list_databases srv (gt_database r) w = Inr ds"
      "set ds = {gt_database r} \<inter> gs_dbs (view w)"
    using mongo_lawsD(5)[OF assms(1)] by blast
  have db: "does (mongo_removeDatabase srv r) view (\<lambda>s. s\<lparr>gs_dbs := gs_dbs s - {gt_database r}\<rparr>) w"
  proof (cases "ds = []")
    case True
    then have "gs_dbs (view w) - {gt_database r} = gs_dbs (view w)" using ds(2) by auto
    with True ds(1) show ?thesis by (simp add: does_def mongo_removeDatabase_def)
  next
    case False
    with ds(1) mongo_lawsD(6)[OF assms(1), of "gt_database r" w] show ?thesis
      by (simp add: does_def mongo_removeDatabase_def)
  qed
  have "does (mongo_removeUser srv r) view (\<lambda>s. s\<lparr>gs_users := (gs_users s)(gt_username r := None)\<rparr>) w1" for w1
    using mongo_lawsD(4)[OF assms(1), of w1 "gt_username r"] assms(2)
    by (cases "gs_users (view w1) (gt_username r) = None")
      (simp_all add: does_def mongo_removeUser_def mongo_user_exists[OF assms(1)] fun_upd_idem)
  from does_two[OF db this] show ?thesis
    unfolding mongo_deleteTask_def by (rule does_cong) simp_all
qed

text \<open>
  C32. The Mongo handlers do what their resource asks for, from any state of a reachable server:
  \<^verbatim>\<open>ReconcileMongoDatabase\<close> leaves the user with the requested password and the right to read and
  write this one database, and marks the resource Complete; \<^verbatim>\<open>DeleteMongoDatabase\<close> removes user and
  database whether or not they are there. Neither touches anything else.
\<close>

theorem mongo_server_effects:
  assumes "mongo_laws srv view" "getMongoConnection srv config w = None"
    and "ud_username (db_spec database) \<noteq> []"
  shows "(\<exists>w'. ReconcileMongoDatabase srv database config w =
             (Inr (db_state database \<noteq> TaskComplete, database\<lparr>db_state := TaskComplete\<rparr>), w') \<and>
           view w' = (view w)\<lparr>gs_users := (gs_users (view w))(ud_username (db_spec database) \<mapsto>
             (ud_password (db_spec database), [(''readWrite'', ud_database_name (db_spec database))]))\<rparr>) \<and>
         (\<exists>w'. DeleteMongoDatabase srv database config w = (None, w') \<and>
           view w' = (view w)\<lparr>gs_dbs := gs_dbs (view w) - {ud_database_name (db_spec database)},
             gs_users := (gs_users (view w))(ud_username (db_spec database) := None)\<rparr>)"
proof
  obtain w1 where "mongo_reconcileTask srv (mongo_task_of database) w = (None, w1)"
    "view w1 = (view w)\<lparr>gs_users := (gs_users (view w))(ud_username (db_spec database) \<mapsto>
       (ud_password (db_spec database), [(''readWrite'', ud_database_name (db_spec database))]))\<rparr>"
    using mongo_reconcileTask_does[OF assms(1), of "mongo_task_of database" w]
    by (auto simp: mongo_task_of_def elim: doesE)
  then show "\<exists>w'. ReconcileMongoDatabase srv database config w =
             (Inr (db_state database \<noteq> TaskComplete, database\<lparr>db_state := TaskComplete\<rparr>), w') \<and>
           view w' = (view w)\<lparr>gs_users := (gs_users (view w))(ud_username (db_spec database) \<mapsto>
             (ud_password (db_spec database), [(''readWrite'', ud_database_name (db_spec database))]))\<rparr>"
    using assms(2) by (cases database) (simp add: ReconcileMongoDatabase_def)
  obtain w2 where "mongo_deleteTask srv (mongo_task_of database) w = (None, w2)"
    "view w2 = (view w)\<lparr>gs_dbs := gs_dbs (view w) - {ud_database_name (db_spec database)},
       gs_users := (gs_users (view w))(ud_username (db_spec database) := None)\<rparr>"
    using mongo_deleteTask_does[OF assms(1), of "mongo_task_of database" w] assms(3)
    by (auto simp: mongo_task_of_def elim: doesE)
  then show "\<exists>w'. DeleteMongoDatabase srv database config w = (None, w') \<and>
           view w' = (view w)\<lparr>gs_dbs := gs_dbs (view w) - {ud_database_name (db_spec database)},
             gs_users := (gs_users (view w))(ud_username (db_spec database) := None)\<rparr>"
    using assms(2) by (simp add: DeleteMongoDatabase_def)
qed

text \<open>A Mongo server whose world is its abstract state, with the databases as a list.\<close>

definition toy_mongo_server :: "((string \<times> string \<times> (string \<times> string) list) list \<times> string list) mongo_server" where
  "toy_mongo_server =
     \<lparr>mg_connect = (\<lambda>uri w. None),
      mg_users_info = (\<lambda>c w. case c of UsersInfo u \<Rightarrow> Inr (if map_of (fst w) u = None then 0 else 1) | _ \<Rightarrow> Inr 0),
      mg_run = (\<lambda>c w. case c of
          CreateUser u p rs \<Rightarrow> (None, (AList.update u (p, rs) (fst w), snd w))
        | UpdateUser u p rs \<Rightarrow> (None, (AList.update u (p, rs) (fst w), snd w))
        | DropUser u \<Rightarrow> (None, (AList.delete u (fst w), snd w))
        | UsersInfo u \<Rightarrow> (None, w)),
      mg_list_databases = (\<lambda>d w. Inr (filter (\<lambda>e. e = d) (snd w))),
      mg_drop = (\<lambda>d w. (None, (fst w, filter (\<lambda>e. e \<noteq> d) (snd w))))\<rparr>"

definition toy_mongo_view :: "(string \<times> string \<times> (string \<times> string) list) list \<times> string list \<Rightarrow> mongo_state" where
  "toy_mongo_view w = \<lparr>gs_users = map_of (fst w), gs_dbs = set (snd w)\<rparr>"

lemma toy_mongo_laws: "mongo_laws toy_mongo_server toy_mongo_view"
  unfolding mongo_laws_def
  by (intro conjI allI impI)
    (auto simp: toy_mongo_server_def toy_mongo_view_def does_def gomap_simps)

definition toy_mongo_config :: mongo_config where
  "toy_mongo_config = \<lparr>moc_meta = new_meta ''m'' ''ns'' [], moc_host1 = ''a'', moc_host2 = [], moc_host3 = [],
     moc_username = ''root'', moc_password = ''pw'', moc_port = 27017\<rparr>"

definition toy_mongo_world :: "(string \<times> string \<times> (string \<times> string) list) list \<times> string list" where
  "toy_mongo_world = ([(''u'', ''secret'', [])], [''site_shop'', ''other''])"

theorem mongo_server_effects_witness:
  "\<exists>w'. DeleteMongoDatabase toy_mongo_server toy_task_database toy_mongo_config toy_mongo_world = (None, w') \<and>
     gs_users (toy_mongo_view w') ''u'' = None \<and> ''site_shop'' \<notin> gs_dbs (toy_mongo_view w')"
proof -
  have c: "getMongoConnection toy_mongo_server toy_mongo_config toy_mongo_world = None"
    by (simp add: getMongoConnection_def toy_mongo_server_def)
  have u: "ud_username (db_spec toy_task_database) \<noteq> []" by (simp add: toy_task_simps)
  note del = mongo_server_effects[OF toy_mongo_laws c u, THEN conjunct2, unfolded toy_task_simps]
  from del show ?thesis by (elim exE conjE, intro exI conjI, simp) simp_all
qed

text \<open>
  A Redis database is flushed at most once: after a reconcile that succeeded, no later
  reconcile of the resource touches a server again, whatever configuration it is given. Until
  then it stays unfinished, so that an error leads to another attempt.
\<close>

lemma redis_flushed_at_most_once:
  assumes "ReconcileRedis flush_db database config w = (Inr (changed, database'), w')"
  shows "rd_state database' = TaskComplete"
    and "ReconcileRedis flush_db database' config' w'' = (Inr (False, database'), w'')"
    and "rd_state database \<noteq> TaskComplete \<Longrightarrow> fst (flush_db (redis_options_of database config) w) = None"
  using assms by (auto simp: ReconcileRedis_def split: prod.splits option.splits if_splits)

end
