(* ===== verification/TaskControllers.thy ===== *)
theory TaskControllers
  imports Controllers DatabaseProperties Converge
begin

text \<open>
  \<^verbatim>\<open>controllers/task\<close>: the controllers that bring the database resources to the servers. The MySQL
  and the Mongo controller are the same code over different types; both reach their server through
  an interface of \<^verbatim>\<open>handlers/database/interfaces.go\<close>, which is the record \<open>database_reconciler\<close>
  here. The default implementations of the interfaces call the handlers of \<open>DatabaseHandlers\<close>.
\<close>

section \<open>The interfaces\<close>

record ('w, 'c) database_reconciler =
  dr_reconcile :: "user_database \<Rightarrow> 'c \<Rightarrow> 'w \<Rightarrow> (go_error + bool \<times> user_database) \<times> 'w"
  dr_delete :: "user_database \<Rightarrow> 'c \<Rightarrow> 'w \<Rightarrow> go_error option \<times> 'w"

text \<open>
  The server is the one behind the data source name that a handler connects to; the handlers of
  \<open>DatabaseHandlers\<close> speak to one server, and the configuration picks it.
\<close>

definition mysql_dsn :: "mysql_config \<Rightarrow> string" where
  "mysql_dsn config =
     dataSourceName (myc_username config) (myc_password config) (myc_host config) (myc_port config)"

definition DefaultMysqlReconciler ::
  "(string \<Rightarrow> 'w mysql_server) \<Rightarrow> ('w, mysql_config) database_reconciler" where
  "DefaultMysqlReconciler srv =
     \<lparr>dr_reconcile = (\<lambda>db config. ReconcileMysqlDatabase (srv (mysql_dsn config)) db config),
      dr_delete = (\<lambda>db config. DeleteMysqlDatabase (srv (mysql_dsn config)) db config)\<rparr>"

definition DefaultMongoReconciler ::
  "(string \<Rightarrow> 'w mongo_server) \<Rightarrow> ('w, mongo_config) database_reconciler" where
  "DefaultMongoReconciler srv =
     \<lparr>dr_reconcile = (\<lambda>db config. ReconcileMongoDatabase (srv (mongo_uri config)) db config),
      dr_delete = (\<lambda>db config. DeleteMongoDatabase (srv (mongo_uri config)) db config)\<rparr>"

definition DefaultRedisReconciler ::
  "(redis_options \<Rightarrow> 'w \<Rightarrow> go_error option \<times> 'w) \<Rightarrow> redis_database \<Rightarrow> redis_config \<Rightarrow> 'w \<Rightarrow>
   (go_error + bool \<times> redis_database) \<times> 'w" where
  "DefaultRedisReconciler flush_db = ReconcileRedis flush_db"


section \<open>The controllers\<close>

definition set_finalizers :: "string list \<Rightarrow> user_database \<Rightarrow> user_database" where
  "set_finalizers fs db = db\<lparr>db_meta := (db_meta db)\<lparr>om_finalizers := fs\<rparr>\<rparr>"

text \<open>The branch of a resource that is being deleted.\<close>

definition Database_handleDelete ::
  "string \<Rightarrow> ('w, 'c) database_reconciler \<Rightarrow> ('w, user_database) client \<Rightarrow> user_database \<Rightarrow> 'c \<Rightarrow> 'w \<Rightarrow>
   reconcile_result \<times> 'w" where
  "Database_handleDelete finalizer rec dbs db config w =
     (case dr_delete rec db config w of
        (Some err, w') \<Rightarrow> ((no_requeue, Some err), w')
      | (None, w') \<Rightarrow>
          let previousFinalizersLength = length (om_finalizers (db_meta db));
              db = set_finalizers (RemoveStringFromSlice (om_finalizers (db_meta db)) finalizer) db
          in if length (om_finalizers (db_meta db)) \<noteq> previousFinalizersLength
             then (case cl_update dbs db w' of
                     (Inl err, w'') \<Rightarrow> ((no_requeue, Some err), w'')
                   | (Inr _, w'') \<Rightarrow> ((no_requeue, None), w''))
             else ((no_requeue, None), w'))"

definition Database_handle ::
  "string \<Rightarrow> ('w, 'c) database_reconciler \<Rightarrow> ('w, user_database) client \<Rightarrow> user_database \<Rightarrow> 'c \<Rightarrow> 'w \<Rightarrow>
   reconcile_result \<times> 'w" where
  "Database_handle finalizer rec dbs db config w =
     (if om_deletion (db_meta db) \<noteq> None then Database_handleDelete finalizer rec dbs db config w
      else if \<not> SliceContainsString (om_finalizers (db_meta db)) finalizer
      then (case cl_update dbs (set_finalizers (om_finalizers (db_meta db) @ [finalizer]) db) w of
              (Inl err, w') \<Rightarrow> ((no_requeue, Some err), w')
            | (Inr _, w') \<Rightarrow> ((requeue_now, None), w'))
      else (case dr_reconcile rec db config w of
              (Inl err, w') \<Rightarrow> SaveStatusUpdatesIfObjectChanged False dbs db no_requeue (Some err) w'
            | (Inr (changed, db'), w') \<Rightarrow> SaveStatusUpdatesIfObjectChanged changed dbs db' no_requeue None w'))"

definition Mysql_doReconcile ::
  "('w, mysql_config) database_reconciler \<Rightarrow> ('w, mysql_config) client \<Rightarrow> ('w, mysql_database) client \<Rightarrow>
   string \<Rightarrow> string \<Rightarrow> 'w \<Rightarrow> reconcile_result \<times> 'w" where
  "Mysql_doReconcile rec cfgs dbs ns name w =
     (case cl_get dbs ns name w of
        Inl err \<Rightarrow> ((no_requeue, ignore_not_found err), w)
      | Inr db \<Rightarrow>
          (case cl_get cfgs (om_namespace (db_meta db)) (ec_environment (ud_environment (db_spec db))) w of
             Inl err \<Rightarrow> ((no_requeue, Some err), w)
           | Inr config \<Rightarrow> Database_handle MysqlFinalizerName rec dbs db config w))"

definition Mongo_doReconcile ::
  "('w, mongo_config) database_reconciler \<Rightarrow> ('w, mongo_config) client \<Rightarrow> ('w, mongo_database) client \<Rightarrow>
   string \<Rightarrow> string \<Rightarrow> 'w \<Rightarrow> reconcile_result \<times> 'w" where
  "Mongo_doReconcile rec cfgs dbs ns name w =
     (case cl_get dbs ns name w of
        Inl err \<Rightarrow> ((no_requeue, ignore_not_found err), w)
      | Inr db \<Rightarrow>
          (case cl_get cfgs (om_namespace (db_meta db)) (ec_environment (ud_environment (db_spec db))) w of
             Inl err \<Rightarrow> ((no_requeue, Some err), w)
           | Inr config \<Rightarrow> Database_handle MongoFinalizerName rec dbs db config w))"

definition Redis_doReconcile ::
  "(redis_database \<Rightarrow> redis_config \<Rightarrow> 'w \<Rightarrow> (go_error + bool \<times> redis_database) \<times> 'w) \<Rightarrow>
   ('w, redis_config) client \<Rightarrow> ('w, redis_database) client \<Rightarrow> string \<Rightarrow> string \<Rightarrow> 'w \<Rightarrow>
   reconcile_result \<times> 'w" where
  "Redis_doReconcile rec cfgs dbs ns name w =
     (case cl_get dbs ns name w of
        Inl err \<Rightarrow> ((no_requeue, ignore_not_found err), w)
      | Inr db \<Rightarrow>
          (case cl_get cfgs (om_namespace (rd_meta db)) (ec_environment (rd_environment (rd_spec db))) w of
             Inl err \<Rightarrow> ((no_requeue, Some err), w)
           | Inr config \<Rightarrow>
               (case rec db config w of
                  (Inl err, w') \<Rightarrow> SaveStatusUpdatesIfObjectChanged False dbs db no_requeue (Some err) w'
                | (Inr (changed, db'), w') \<Rightarrow>
                    SaveStatusUpdatesIfObjectChanged changed dbs db' no_requeue None w')))"


section \<open>The contract of the interfaces\<close>

text \<open>
  What the controllers rely on: a successful reconcile completes the resource, changes nothing
  else in it and reports a change exactly when it was not complete.
\<close>

locale completing =
  fixes reconcile :: "user_database \<Rightarrow> 'c \<Rightarrow> 'w \<Rightarrow> (go_error + bool \<times> user_database) \<times> 'w"
  assumes completes: "reconcile d c w = (Inr (changed, d'), w') \<Longrightarrow>
      d' = d\<lparr>db_state := TaskComplete\<rparr> \<and> changed = (db_state d \<noteq> TaskComplete)"
begin

text \<open>The only status that the controller writes is Complete, and it writes it once.\<close>

lemma status_written:
  assumes "reconcile d c w = (Inr (changed, d'), w')"
  shows "SaveStatusUpdatesIfObjectChanged changed dbs d' no_requeue None w' =
    (if db_state d = TaskComplete then ((no_requeue, None), w')
     else case cl_update_status dbs (d\<lparr>db_state := TaskComplete\<rparr>) w' of
            (r, w'') \<Rightarrow> ((no_requeue, case r of Inl e \<Rightarrow> Some e | Inr _ \<Rightarrow> None), w''))"
  using completes[OF assms] by (simp add: SaveStatusUpdatesIfObjectChanged_def)

lemma handle_cases:
  assumes "Database_handle finalizer \<lparr>dr_reconcile = reconcile, dr_delete = del\<rparr> dbs d c w = (r, w')"
    and "om_deletion (db_meta d) = None" "finalizer \<in> set (om_finalizers (db_meta d))"
  obtains (failed) err where "reconcile d c w = (Inl err, w')" "r = (no_requeue, Some err)"
  | (unchanged) ch d' where "reconcile d c w = (Inr (ch, d'), w')" "db_state d = TaskComplete" "r = (no_requeue, None)"
  | (completed) ch d' w1 r' where "reconcile d c w = (Inr (ch, d'), w1)" "db_state d \<noteq> TaskComplete"
      "cl_update_status dbs (d\<lparr>db_state := TaskComplete\<rparr>) w1 = (r', w')"
proof -
  have contains: "SliceContainsString xs s \<longleftrightarrow> s \<in> set xs" for xs s by (induction xs) auto
  obtain res w1 where res: "reconcile d c w = (res, w1)" by force
  show thesis
  proof (cases res)
    case (Inl err)
    then show thesis
      using assms res failed contains by (simp add: Database_handle_def SaveStatusUpdatesIfObjectChanged_def)
  next
    case (Inr p)
    obtain ch d' where p: "p = (ch, d')" by force
    note rec = res[unfolded Inr p]
    have run: "SaveStatusUpdatesIfObjectChanged ch dbs d' no_requeue None w1 = (r, w')"
      using assms rec contains by (simp add: Database_handle_def)
    show thesis
    proof (cases "db_state d = TaskComplete")
      case True
      then show thesis using run unchanged rec by (simp add: status_written[OF rec])
    next
      case False
      then show thesis using run completed[OF rec] by (auto simp: status_written[OF rec] split: prod.splits)
    qed
  qed
qed

end

interpretation mysql_reconciler: completing "ReconcileMysqlDatabase srv" for srv :: "'w mysql_server"
  by unfold_locales (auto simp: ReconcileMysqlDatabase_def Let_def split: option.splits prod.splits if_splits)

interpretation mongo_reconciler: completing "ReconcileMongoDatabase srv" for srv :: "'w mongo_server"
  by unfold_locales (auto simp: ReconcileMongoDatabase_def split: option.splits prod.splits if_splits)

end
