(* ===== verification/TaskControllerProperties.thy ===== *)
theory TaskControllerProperties
  imports TaskControllers TaskProperties
begin

text \<open>
  Safety and progress of the database controllers as the cluster runs them: between any two
  reconciles users and other controllers create and delete resources and the API server collects
  the deleted ones, and every call may fail.
\<close>

section \<open>No database without its resource\<close>

abbreviation db_name :: "user_database \<Rightarrow> string" where
  "db_name d \<equiv> ud_database_name (db_spec d)"

definition put_object :: "user_database \<Rightarrow> user_database list \<Rightarrow> user_database list" where
  "put_object x xs = map (\<lambda>y. if obj_key db_meta y = obj_key db_meta x then x else y) xs"

text \<open>
  The API server: a read returns a stored object, a write replaces the object or fails, and
  neither touches the databases.
\<close>

definition database_api ::
  "('w, user_database) client \<Rightarrow> ('w \<Rightarrow> user_database list) \<Rightarrow> ('w \<Rightarrow> 'p set) \<Rightarrow> bool" where
  "database_api dbs objs owned \<longleftrightarrow>
     (\<forall>ns n w d. cl_get dbs ns n w = Inr d \<longrightarrow> d \<in> set (objs w)) \<and>
     (\<forall>x w r w'. cl_update dbs x w = (r, w') \<or> cl_update_status dbs x w = (r, w') \<longrightarrow>
        owned w' = owned w \<and> (objs w' = put_object x (objs w) \<or> (\<exists>e. r = Inl e) \<and> objs w' = objs w))"

text \<open>
  What is shown below of the reconcilers of the source: a reconcile may create what its resource
  names even if it then fails; a deletion that succeeds has removed it; neither touches the API
  server. \<open>place\<close> is what a resource names: a server and a database or account there.
\<close>

definition database_interface ::
  "('w, 'c) database_reconciler \<Rightarrow> ('w \<Rightarrow> user_database list) \<Rightarrow> ('w \<Rightarrow> 'p set) \<Rightarrow>
   (user_database_spec \<Rightarrow> bool) \<Rightarrow> ('c \<Rightarrow> user_database_spec \<Rightarrow> 'p) \<Rightarrow> bool" where
  "database_interface rec objs owned ok at_place \<longleftrightarrow>
     (\<forall>d c w r w'. ok (db_spec d) \<longrightarrow> dr_reconcile rec d c w = (r, w') \<longrightarrow>
        objs w' = objs w \<and> owned w' \<subseteq> insert (at_place c (db_spec d)) (owned w) \<and>
        (\<forall>ch d'. r = Inr (ch, d') \<longrightarrow> db_meta d' = db_meta d \<and> db_spec d' = db_spec d)) \<and>
     (\<forall>d c w r w'. ok (db_spec d) \<longrightarrow> dr_delete rec d c w = (r, w') \<longrightarrow>
        objs w' = objs w \<and> owned w' \<subseteq> owned w \<and> (r = None \<longrightarrow> at_place c (db_spec d) \<notin> owned w'))"

text \<open>
  The steps of the cluster. Besides the reconcile calls of the controller, users and the API
  server create, mark and collect resources, and \<open>respec\<close> is the update of the site's task handler,
  which may change the whole spec of a resource: the second component collects the places that
  such changes abandon.
\<close>

inductive database_step ::
  "(string \<Rightarrow> string \<Rightarrow> 'w \<Rightarrow> reconcile_result \<times> 'w) \<Rightarrow> ('w \<Rightarrow> user_database list) \<Rightarrow> ('w \<Rightarrow> 'p set) \<Rightarrow>
   (user_database_spec \<Rightarrow> bool) \<Rightarrow> (user_database \<Rightarrow> 'p) \<Rightarrow> 'w \<times> 'p set \<Rightarrow> 'w \<times> 'p set \<Rightarrow> bool"
  for run objs owned ok place where
  reconcile: "run ns n w = (r, w') \<Longrightarrow> database_step run objs owned ok place (w, lost) (w', lost)"
| create: "obj_key db_meta d \<notin> obj_key db_meta ` set (objs w) \<Longrightarrow> ok (db_spec d) \<Longrightarrow>
     objs w' = objs w @ [d] \<Longrightarrow> owned w' = owned w \<Longrightarrow>
     database_step run objs owned ok place (w, lost) (w', lost)"
| respec: "d \<in> set (objs w) \<Longrightarrow> ok (db_spec e) \<Longrightarrow> obj_key db_meta e = obj_key db_meta d \<Longrightarrow>
     objs w' = put_object (MysqlDatabase_UpdateFromExpected d e) (objs w) \<Longrightarrow> owned w' = owned w \<Longrightarrow>
     lost' = (if place (MysqlDatabase_UpdateFromExpected d e) = place d then lost else insert (place d) lost) \<Longrightarrow>
     database_step run objs owned ok place (w, lost) (w', lost')"
| mark: "d \<in> set (objs w) \<Longrightarrow> objs w' = put_object (d\<lparr>db_meta := (db_meta d)\<lparr>om_deletion := Some t\<rparr>\<rparr>) (objs w) \<Longrightarrow>
     owned w' = owned w \<Longrightarrow> database_step run objs owned ok place (w, lost) (w', lost)"
| collect: "objs w' = filter (\<lambda>d. om_deletion (db_meta d) = None \<or> om_finalizers (db_meta d) \<noteq> []) (objs w) \<Longrightarrow>
     owned w' = owned w \<Longrightarrow> database_step run objs owned ok place (w, lost) (w', lost)"

definition guarded ::
  "string \<Rightarrow> (user_database_spec \<Rightarrow> bool) \<Rightarrow> (user_database \<Rightarrow> 'p) \<Rightarrow> user_database list \<Rightarrow> 'p set \<Rightarrow> bool" where
  "guarded finalizer ok place xs names \<longleftrightarrow> distinct (map (obj_key db_meta) xs) \<and> (\<forall>d \<in> set xs. ok (db_spec d)) \<and>
     (\<forall>n \<in> names. \<exists>d \<in> set xs. place d = n \<and> finalizer \<in> set (om_finalizers (db_meta d)))"

definition place_of ::
  "(string \<Rightarrow> string \<Rightarrow> 'c) \<Rightarrow> ('c \<Rightarrow> user_database_spec \<Rightarrow> 'p) \<Rightarrow> user_database \<Rightarrow> 'p" where
  "place_of conf at_place d =
     at_place (conf (om_namespace (db_meta d)) (ec_environment (ud_environment (db_spec d)))) (db_spec d)"

lemma place_of_cong:
  "obj_key db_meta x = obj_key db_meta d \<Longrightarrow> db_spec x = db_spec d \<Longrightarrow> place_of conf at_place x = place_of conf at_place d"
  by (simp add: place_of_def obj_key_def)

lemma put_object_keys: "map (obj_key db_meta) (put_object x xs) = map (obj_key db_meta) xs"
  by (induction xs) (auto simp: put_object_def)

lemma put_object_set: "y \<in> set (put_object x xs) \<Longrightarrow> y = x \<or> y \<in> set xs"
  by (auto simp: put_object_def split: if_splits)

lemma same_key_same:
  "distinct (map (obj_key db_meta) xs) \<Longrightarrow> d \<in> set xs \<Longrightarrow> e \<in> set xs \<Longrightarrow> obj_key db_meta d = obj_key db_meta e \<Longrightarrow> d = e"
  by (auto simp: distinct_map inj_on_def)

text \<open>
  Replacing a stored object by one with the same key keeps the guard of every place, if the new
  object still guards the place of the old one or nothing is there.
\<close>

lemma guarded_put:
  assumes "guarded finalizer ok place xs names" "d \<in> set xs" "obj_key db_meta x = obj_key db_meta d" "ok (db_spec x)"
    and "place d \<notin> names \<or> place x = place d \<and>
      (finalizer \<in> set (om_finalizers (db_meta d)) \<longrightarrow> finalizer \<in> set (om_finalizers (db_meta x)))"
  shows "guarded finalizer ok place (put_object x xs) names"
proof -
  have "\<exists>e \<in> set (put_object x xs). place e = n \<and> finalizer \<in> set (om_finalizers (db_meta e))" if n: "n \<in> names" for n
  proof -
    obtain e where e: "e \<in> set xs" "place e = n" "finalizer \<in> set (om_finalizers (db_meta e))"
      using assms(1) n by (auto simp: guarded_def)
    show ?thesis
    proof (cases "obj_key db_meta e = obj_key db_meta x")
      case True
      then have "e = d" using assms(1,2,3) e(1) same_key_same by (metis guarded_def)
      moreover have "x \<in> set (put_object x xs)" using assms(2,3) by (force simp: put_object_def)
      ultimately show ?thesis using e assms(5) n by (intro bexI[of _ x]) auto
    next
      case False
      then have "e \<in> set (put_object x xs)" using e(1) by (force simp: put_object_def)
      with e show ?thesis by blast
    qed
  qed
  moreover have "distinct (map (obj_key db_meta) (put_object x xs))"
    using assms(1) by (simp add: put_object_keys guarded_def)
  moreover have "\<forall>y \<in> set (put_object x xs). ok (db_spec y)"
    using assms(1,4) put_object_set[of _ x xs] by (metis guarded_def)
  ultimately show ?thesis by (simp add: guarded_def)
qed

lemma guarded_fewer: "guarded finalizer ok place xs names \<Longrightarrow> names' \<subseteq> names \<Longrightarrow> guarded finalizer ok place xs names'"
  by (auto simp: guarded_def)

lemma guarded_ok: "guarded finalizer ok place xs names \<Longrightarrow> d \<in> set xs \<Longrightarrow> ok (db_spec d)"
  by (simp add: guarded_def)

lemma SliceContainsString_set: "SliceContainsString xs s \<longleftrightarrow> s \<in> set xs"
  by (induction xs) auto

lemma set_finalizers_simps [simp]:
  "db_spec (set_finalizers fs d) = db_spec d" "obj_key db_meta (set_finalizers fs d) = obj_key db_meta d"
  "om_finalizers (db_meta (set_finalizers fs d)) = fs"
  by (simp_all add: set_finalizers_def obj_key_def)

text \<open>A write by the API server keeps the guard whether it succeeds or fails.\<close>

lemma guarded_write:
  assumes "database_api dbs objs owned" "cl_update dbs x w = (r, w') \<or> cl_update_status dbs x w = (r, w')"
    and "guarded finalizer ok (place_of conf at_place) (objs w) (owned w - lost)" "d \<in> set (objs w)"
    and "obj_key db_meta x = obj_key db_meta d" "db_spec x = db_spec d"
    and "place_of conf at_place d \<notin> owned w \<or>
      (finalizer \<in> set (om_finalizers (db_meta d)) \<longrightarrow> finalizer \<in> set (om_finalizers (db_meta x)))"
  shows "guarded finalizer ok (place_of conf at_place) (objs w') (owned w' - lost)"
proof -
  have o: "owned w' = owned w" "objs w' = put_object x (objs w) \<or> objs w' = objs w"
    using assms(1,2) unfolding database_api_def by blast+
  have "ok (db_spec x)" using guarded_ok[OF assms(3,4)] assms(6) by simp
  from guarded_put[OF assms(3,4,5) this] have "guarded finalizer ok (place_of conf at_place) (put_object x (objs w)) (owned w - lost)"
    using assms(7) place_of_cong[OF assms(5,6)] by blast
  then show ?thesis using o assms(3) by auto
qed

lemma database_interfaceD:
  assumes "database_interface rec objs owned ok at_place" "ok (db_spec d)"
  shows "dr_reconcile rec d c w = (r, w') \<Longrightarrow> objs w' = objs w"
    "dr_reconcile rec d c w = (r, w') \<Longrightarrow> owned w' \<subseteq> insert (at_place c (db_spec d)) (owned w)"
    "dr_reconcile rec d c w = (Inr (ch, d'), w') \<Longrightarrow> db_meta d' = db_meta d \<and> db_spec d' = db_spec d"
    "dr_delete rec d c w = (e, w') \<Longrightarrow> objs w' = objs w"
    "dr_delete rec d c w = (e, w') \<Longrightarrow> owned w' \<subseteq> owned w"
    "dr_delete rec d c w = (None, w') \<Longrightarrow> at_place c (db_spec d) \<notin> owned w'"
proof -
  note rec = conjunct1[OF assms(1)[unfolded database_interface_def], rule_format, OF assms(2)]
  note del = conjunct2[OF assms(1)[unfolded database_interface_def], rule_format, OF assms(2)]
  show "dr_reconcile rec d c w = (r, w') \<Longrightarrow> objs w' = objs w"
    "dr_reconcile rec d c w = (r, w') \<Longrightarrow> owned w' \<subseteq> insert (at_place c (db_spec d)) (owned w)"
    "dr_reconcile rec d c w = (Inr (ch, d'), w') \<Longrightarrow> db_meta d' = db_meta d \<and> db_spec d' = db_spec d"
    by (drule rec, simp)+
  show "dr_delete rec d c w = (e, w') \<Longrightarrow> objs w' = objs w"
    "dr_delete rec d c w = (e, w') \<Longrightarrow> owned w' \<subseteq> owned w"
    "dr_delete rec d c w = (None, w') \<Longrightarrow> at_place c (db_spec d) \<notin> owned w'"
    by (drule del, simp)+
qed

abbreviation resource_config :: "(string \<Rightarrow> string \<Rightarrow> 'c) \<Rightarrow> user_database \<Rightarrow> 'c" where
  "resource_config conf d \<equiv> conf (om_namespace (db_meta d)) (ec_environment (ud_environment (db_spec d)))"

lemma handleDelete_guarded:
  assumes "database_api dbs objs owned" "database_interface rec objs owned ok at_place"
    and "guarded finalizer ok (place_of conf at_place) (objs w) (owned w - lost)" "d \<in> set (objs w)"
    and "Database_handleDelete finalizer rec dbs d (resource_config conf d) w = (r, w')"
  shows "guarded finalizer ok (place_of conf at_place) (objs w') (owned w' - lost)"
proof -
  let ?config = "resource_config conf d"
  note itf = database_interfaceD(4-6)[OF assms(2) guarded_ok[OF assms(3,4)]]
  obtain res w1 where del: "dr_delete rec d ?config w = (res, w1)" by force
  then have w1: "objs w1 = objs w" "owned w1 \<subseteq> owned w" "res = None \<Longrightarrow> place_of conf at_place d \<notin> owned w1"
    using itf by (auto simp: place_of_def)
  have g1: "guarded finalizer ok (place_of conf at_place) (objs w1) (owned w1 - lost)"
    unfolding w1(1) by (rule guarded_fewer[OF assms(3)]) (use w1(2) in auto)
  show ?thesis
  proof (cases res)
    case None
    let ?x = "set_finalizers (RemoveStringFromSlice (om_finalizers (db_meta d)) finalizer) d"
    obtain u w2 where u: "cl_update dbs ?x w1 = (u, w2)" by force
    have "guarded finalizer ok (place_of conf at_place) (objs w2) (owned w2 - lost)"
      using guarded_write[OF assms(1) disjI1[OF u] g1, of d] w1 assms(4) None by simp
    then show ?thesis
      using assms(5) del None u g1 by (auto simp: Database_handleDelete_def Let_def split: if_splits sum.splits)
  next
    case (Some err)
    then show ?thesis using assms(5) del g1 by (simp add: Database_handleDelete_def)
  qed
qed

lemma handle_live_guarded:
  assumes "database_api dbs objs owned" "database_interface rec objs owned ok at_place"
    and "guarded finalizer ok (place_of conf at_place) (objs w) (owned w - lost)" "d \<in> set (objs w)"
    and live: "om_deletion (db_meta d) = None" "finalizer \<in> set (om_finalizers (db_meta d))"
    and "Database_handle finalizer rec dbs d (resource_config conf d) w = (r, w')"
  shows "guarded finalizer ok (place_of conf at_place) (objs w') (owned w' - lost)"
proof -
  let ?config = "resource_config conf d" and ?place = "place_of conf at_place"
  obtain res w1 where rec: "dr_reconcile rec d ?config w = (res, w1)" by force
  have w1: "objs w1 = objs w" "owned w1 \<subseteq> insert (?place d) (owned w)"
    "\<And>ch d'. res = Inr (ch, d') \<Longrightarrow> db_meta d' = db_meta d \<and> db_spec d' = db_spec d"
    using database_interfaceD(1-3)[OF assms(2) guarded_ok[OF assms(3,4)]] rec by (auto simp: place_of_def)
  have g: "guarded finalizer ok ?place (objs w1) (insert (?place d) (owned w - lost))"
    using assms(3,4) live(2) w1(1) by (auto simp: guarded_def)
  have g1: "guarded finalizer ok ?place (objs w1) (owned w1 - lost)"
    by (rule guarded_fewer[OF g]) (use w1(2) in auto)
  show ?thesis
  proof (cases res)
    case (Inl err)
    then show ?thesis
      using assms(7) rec live g1 by (simp add: Database_handle_def SliceContainsString_set SaveStatusUpdatesIfObjectChanged_def)
  next
    case (Inr p)
    obtain ch d' where p: "p = (ch, d')" by force
    note d' = w1(3)[OF Inr[unfolded p]]
    obtain u w2 where u: "cl_update_status dbs d' w1 = (u, w2)" by force
    have "guarded finalizer ok ?place (objs w2) (owned w2 - lost)"
      using guarded_write[OF assms(1) disjI2[OF u] g1, of d] assms(4) w1(1) d' by (simp add: obj_key_def)
    then show ?thesis
      using assms(7) rec live g1 u Inr p
      by (auto simp: Database_handle_def SliceContainsString_set SaveStatusUpdatesIfObjectChanged_def split: if_splits)
  qed
qed

lemma handle_guarded:
  assumes "database_api dbs objs owned" "database_interface rec objs owned ok at_place"
    and "guarded finalizer ok (place_of conf at_place) (objs w) (owned w - lost)" "d \<in> set (objs w)"
    and "Database_handle finalizer rec dbs d (resource_config conf d) w = (r, w')"
  shows "guarded finalizer ok (place_of conf at_place) (objs w') (owned w' - lost)"
proof -
  consider (deleted) "om_deletion (db_meta d) \<noteq> None"
    | (fresh) "om_deletion (db_meta d) = None" "finalizer \<notin> set (om_finalizers (db_meta d))"
    | (live) "om_deletion (db_meta d) = None" "finalizer \<in> set (om_finalizers (db_meta d))" by blast
  then show ?thesis
  proof cases
    case deleted
    then show ?thesis using handleDelete_guarded[OF assms(1-4)] assms(5) by (simp add: Database_handle_def)
  next
    case fresh
    let ?x = "set_finalizers (om_finalizers (db_meta d) @ [finalizer]) d"
    obtain u w1 where u: "cl_update dbs ?x w = (u, w1)" by force
    have "guarded finalizer ok (place_of conf at_place) (objs w1) (owned w1 - lost)"
      using guarded_write[OF assms(1) disjI1[OF u] assms(3,4)] by simp
    with u fresh show ?thesis
      using assms(5) by (auto simp: Database_handle_def SliceContainsString_set split: sum.splits)
  next
    case live
    then show ?thesis by (rule handle_live_guarded[OF assms(1-4) _ _ assms(5)])
  qed
qed

text \<open>The two controllers fetch the resource and its configuration and hand them on.\<close>

definition fixed_configs :: "('w, 'c) client \<Rightarrow> (string \<Rightarrow> string \<Rightarrow> 'c) \<Rightarrow> bool" where
  "fixed_configs cfgs conf \<longleftrightarrow> (\<forall>ns env w c. cl_get cfgs ns env w = Inr c \<longrightarrow> c = conf ns env)"

lemma fixed_configsD: "fixed_configs cfgs conf \<Longrightarrow> cl_get cfgs ns env w = Inr c \<Longrightarrow> c = conf ns env"
  by (simp add: fixed_configs_def)

lemma doReconcile_handles:
  assumes "database_api dbs objs owned" "fixed_configs cfgs conf"
  shows "Mysql_doReconcile rec cfgs dbs ns n w = (r, w') \<Longrightarrow>
      w' = w \<or> (\<exists>d \<in> set (objs w). Database_handle MysqlFinalizerName rec dbs d (resource_config conf d) w = (r, w'))"
    and "Mongo_doReconcile rec' cfgs' dbs ns n w = (r, w') \<Longrightarrow> fixed_configs cfgs' conf' \<Longrightarrow>
      w' = w \<or> (\<exists>d \<in> set (objs w). Database_handle MongoFinalizerName rec' dbs d (resource_config conf' d) w = (r, w'))"
proof -
  have get: "cl_get dbs ns n w = Inr d \<Longrightarrow> d \<in> set (objs w)" for d
    using assms(1) by (simp add: database_api_def)
  show "Mysql_doReconcile rec cfgs dbs ns n w = (r, w') \<Longrightarrow>
      w' = w \<or> (\<exists>d \<in> set (objs w). Database_handle MysqlFinalizerName rec dbs d (resource_config conf d) w = (r, w'))"
    by (auto simp: Mysql_doReconcile_def dest: get fixed_configsD[OF assms(2)] split: sum.splits)
  show "Mongo_doReconcile rec' cfgs' dbs ns n w = (r, w') \<Longrightarrow> fixed_configs cfgs' conf' \<Longrightarrow>
      w' = w \<or> (\<exists>d \<in> set (objs w). Database_handle MongoFinalizerName rec' dbs d (resource_config conf' d) w = (r, w'))"
    by (auto simp: Mongo_doReconcile_def dest: get fixed_configsD split: sum.splits)
qed

lemma database_step_guarded:
  assumes "database_step run objs owned ok (place_of conf at_place) s s'"
    and "\<And>ns n w r w' lost. run ns n w = (r, w') \<Longrightarrow>
      guarded finalizer ok (place_of conf at_place) (objs w) (owned w - lost) \<Longrightarrow>
      guarded finalizer ok (place_of conf at_place) (objs w') (owned w' - lost)"
    and "guarded finalizer ok (place_of conf at_place) (objs (fst s)) (owned (fst s) - snd s)"
  shows "guarded finalizer ok (place_of conf at_place) (objs (fst s')) (owned (fst s') - snd s')"
  using assms(1)
proof cases
  case (reconcile ns n w r w' lost)
  then show ?thesis using assms(2)[OF reconcile(3), of lost] assms(3) by simp
next
  case (create d w w' lost)
  then show ?thesis using assms(3) by (auto simp: guarded_def)
next
  case (respec d w e w' lost' lost)
  let ?x = "MysqlDatabase_UpdateFromExpected d e"
  have x: "obj_key db_meta ?x = obj_key db_meta d" "db_spec ?x = db_spec e"
    "om_finalizers (db_meta ?x) = om_finalizers (db_meta d)"
    using respec(5) by (simp_all add: MysqlDatabase_UpdateFromExpected_def obj_key_def)
  have "guarded finalizer ok (place_of conf at_place) (objs w) (owned w - lost')"
    by (rule guarded_fewer[of finalizer ok _ _ "owned w - lost"]) (use assms(3) respec in \<open>auto split: if_splits\<close>)
  from guarded_put[OF this respec(3) x(1)] show ?thesis
    using respec x by (auto split: if_splits)
next
  case (mark d w w' t lost)
  let ?x = "d\<lparr>db_meta := (db_meta d)\<lparr>om_deletion := Some t\<rparr>\<rparr>"
  have "ok (db_spec ?x)" using guarded_ok[OF assms(3)] mark by simp
  with guarded_put[of finalizer ok "place_of conf at_place" "objs w" "owned w - lost" d ?x] show ?thesis
    using mark assms(3) by (simp add: obj_key_def place_of_def)
next
  case (collect w' w lost)
  have "distinct (map (obj_key db_meta) (objs w'))"
    using assms(3) collect by (simp add: guarded_def distinct_map_filter)
  then show ?thesis using assms(3) collect by (fastforce simp: guarded_def)
qed

lemma database_run_guarded:
  assumes "(database_step run objs owned ok (place_of conf at_place))\<^sup>*\<^sup>* (w, {}) (w', lost)"
    and "\<And>ns n w r w' lost. run ns n w = (r, w') \<Longrightarrow>
      guarded finalizer ok (place_of conf at_place) (objs w) (owned w - lost) \<Longrightarrow>
      guarded finalizer ok (place_of conf at_place) (objs w') (owned w' - lost)"
    and "owned w = {}" "distinct (map (obj_key db_meta) (objs w))" "\<forall>d \<in> set (objs w). ok (db_spec d)"
  shows "guarded finalizer ok (place_of conf at_place) (objs w') (owned w' - lost)"
proof -
  have "guarded finalizer ok (place_of conf at_place) (objs (fst s')) (owned (fst s') - snd s')"
    if "(database_step run objs owned ok (place_of conf at_place))\<^sup>*\<^sup>* (w, {}) s'" for s'
    using that
  proof (induction rule: rtranclp_induct)
    case base
    then show ?case using assms(3-5) by (simp add: guarded_def)
  next
    case (step u v)
    from step.hyps(2) assms(2) step.IH show ?case by (rule database_step_guarded)
  qed
  from this[OF assms(1)] show ?thesis by simp
qed


section \<open>From a resource to a usable database\<close>

text \<open>Statements on a server leave the objects of the API server alone.\<close>

definition keeps_objects :: "('w \<Rightarrow> 'a) \<Rightarrow> ('w \<Rightarrow> 'r \<times> 'w) \<Rightarrow> bool" where
  "keeps_objects objs f \<longleftrightarrow> (\<forall>w. objs (snd (f w)) = objs w)"

lemma keeps_objectsD: "keeps_objects objs f \<Longrightarrow> f w = (r, w') \<Longrightarrow> objs w' = objs w"
  by (metis keeps_objects_def snd_conv)

lemma keeps_steps: "\<forall>f \<in> set fs. keeps_objects objs f \<Longrightarrow> objs (snd (steps fs w)) = objs w"
proof (induction fs arbitrary: w)
  case (Cons f fs)
  obtain r w1 where f: "f w = (r, w1)" by force
  then have "objs w1 = objs w" using keeps_objectsD[of objs f w] Cons.prems by simp
  then show ?case using f Cons by (cases r) simp_all
qed simp

lemma mysql_reconcileTask_keeps:
  assumes "\<And>t. keeps_objects objs (my_exec srv t)"
  shows "keeps_objects objs (mysql_reconcileTask srv r)"
proof -
  have one: "objs (snd (my_exec srv t w)) = objs w" for t w
    using assms unfolding keeps_objects_def by blast
  have two: "objs (snd (steps [my_exec srv s, my_exec srv t] w)) = objs w" for s t w
    by (rule keeps_steps) (simp add: assms)
  have "keeps_objects objs (mysql_reconcileUser srv r)"
    by (simp add: keeps_objects_def mysql_reconcileUser_def mysql_changePassword_def mysql_createUser_def two
        split: sum.split del: steps.simps)
  moreover have "keeps_objects objs (mysql_reconcileDatabase srv r)"
    by (simp add: keeps_objects_def mysql_reconcileDatabase_def one)
  moreover have "keeps_objects objs (mysql_reconcilePermissions srv r)"
  proof -
    have "keeps_objects objs (revokePermissionOnDatabase srv r d)" for d
      by (simp add: keeps_objects_def revokePermissionOnDatabase_def one)
    then have s: "objs (snd (steps (map (revokePermissionOnDatabase srv r) ds) w)) = objs w" for ds w
      by (intro keeps_steps) simp
    have "objs w' = objs w" if "revokeNotRequestedPermissions srv r w = (x, w')" for x w w'
      using that s unfolding revokeNotRequestedPermissions_def
      by (auto split: sum.splits prod.splits option.splits) (metis snd_conv)+
    then show ?thesis
      by (auto simp: keeps_objects_def mysql_reconcilePermissions_def one split: prod.splits sum.splits)
  qed
  ultimately show ?thesis
    unfolding mysql_reconcileTask_def keeps_objects_def[of objs "steps _"]
    by (intro allI keeps_steps) simp
qed

lemma ReconcileMysqlDatabase_keeps:
  assumes "\<And>t. keeps_objects objs (my_exec srv t)"
  shows "keeps_objects objs (ReconcileMysqlDatabase srv database config)"
proof -
  have k: "mysql_reconcileTask srv r w = (x, w') \<Longrightarrow> objs w' = objs w" for r w x w'
    by (rule keeps_objectsD[OF mysql_reconcileTask_keeps[OF assms]])
  show ?thesis
    unfolding keeps_objects_def ReconcileMysqlDatabase_def Let_def
    by (auto split: option.splits prod.splits dest: k)
qed

text \<open>
  An API server that serves the stored objects and accepts writes to them, and writes of which
  the database server does not see.
\<close>

definition database_store ::
  "('w, user_database) client \<Rightarrow> ('w \<Rightarrow> user_database list) \<Rightarrow> ('w \<Rightarrow> 'v) \<Rightarrow> bool" where
  "database_store dbs objs view \<longleftrightarrow>
     (\<forall>d w. distinct (map (obj_key db_meta) (objs w)) \<longrightarrow> d \<in> set (objs w) \<longrightarrow>
        cl_get dbs (om_namespace (db_meta d)) (om_name (db_meta d)) w = Inr d) \<and>
     (\<forall>x w. obj_key db_meta x \<in> obj_key db_meta ` set (objs w) \<longrightarrow>
        (\<exists>w'. cl_update dbs x w = (Inr x, w') \<and> objs w' = put_object x (objs w) \<and> view w' = view w)) \<and>
     (\<forall>x w. obj_key db_meta x \<in> obj_key db_meta ` set (objs w) \<longrightarrow>
        (\<exists>w'. cl_update_status dbs x w = (Inr x, w') \<and> objs w' = put_object x (objs w) \<and> view w' = view w))"

lemma database_storeD:
  assumes "database_store dbs objs view"
  shows "distinct (map (obj_key db_meta) (objs w)) \<Longrightarrow> d \<in> set (objs w) \<Longrightarrow>
      cl_get dbs (om_namespace (db_meta d)) (om_name (db_meta d)) w = Inr d"
    and "obj_key db_meta x \<in> obj_key db_meta ` set (objs w) \<Longrightarrow>
      \<exists>w'. cl_update dbs x w = (Inr x, w') \<and> objs w' = put_object x (objs w) \<and> view w' = view w"
    and "obj_key db_meta x \<in> obj_key db_meta ` set (objs w) \<Longrightarrow>
      \<exists>w'. cl_update_status dbs x w = (Inr x, w') \<and> objs w' = put_object x (objs w) \<and> view w' = view w"
  using conjunct1[OF assms[unfolded database_store_def], rule_format]
    conjunct1[OF conjunct2[OF assms[unfolded database_store_def]], rule_format]
    conjunct2[OF conjunct2[OF assms[unfolded database_store_def]], rule_format]
  by blast+

lemma put_object_mem: "obj_key db_meta x \<in> obj_key db_meta ` set xs \<Longrightarrow> x \<in> set (put_object x xs)"
  by (force simp: put_object_def)

lemma put_object_put: "obj_key db_meta x = obj_key db_meta y \<Longrightarrow> put_object y (put_object x xs) = put_object y xs"
  by (simp add: put_object_def)

lemma put_object_same:
  "distinct (map (obj_key db_meta) xs) \<Longrightarrow> d \<in> set xs \<Longrightarrow> put_object d xs = xs"
  unfolding put_object_def by (rule map_idI) (metis same_key_same)

text \<open>
  The second pass: the resource carries the finalizer, so the database is set up and the resource
  completed.
\<close>

lemma provision_second_pass:
  assumes api: "database_store dbs objs view" and exec: "\<And>t. keeps_objects objs (my_exec srv t)"
    and laws: "mysql_user_laws srv view" "mysql_database_laws srv view"
      "mysql_login_law srv view (myc_host config) (myc_port config)"
      "my_open srv (dataSourceName (myc_username config) (myc_password config) (myc_host config) (myc_port config)) = None"
    and d: "d \<in> set (objs w)" "distinct (map (obj_key db_meta) (objs w))" "om_deletion (db_meta d) = None"
      "MysqlFinalizerName \<in> set (om_finalizers (db_meta d))" "plain_spec (db_spec d)"
    and grants: "\<forall>e. (ud_username (db_spec d), e) \<in> ms_grants (view w) \<longrightarrow> plain_name e"
  obtains w' where "Database_handle MysqlFinalizerName (DefaultMysqlReconciler (\<lambda>dsn. srv)) dbs d config w = ((no_requeue, None), w')"
    "objs w' = put_object (d\<lparr>db_state := TaskComplete\<rparr>) (objs w)"
    "view w' = mysql_established (ud_username (db_spec d)) (ud_password (db_spec d)) (db_name d) (view w)"
proof -
  obtain w1 where w1: "ReconcileMysqlDatabase srv d config w =
      (Inr (db_state d \<noteq> TaskComplete, d\<lparr>db_state := TaskComplete\<rparr>), w1)"
    "view w1 = mysql_established (ud_username (db_spec d)) (ud_password (db_spec d)) (db_name d) (view w)"
    using mysql_reconcile_does[OF laws d(5) grants] .
  have o1: "objs w1 = objs w" by (rule keeps_objectsD[OF ReconcileMysqlDatabase_keeps[OF exec] w1(1)])
  show thesis
  proof (cases "db_state d = TaskComplete")
    case True
    then have "d\<lparr>db_state := TaskComplete\<rparr> = d" by (cases d) simp
    then have "objs w1 = put_object (d\<lparr>db_state := TaskComplete\<rparr>) (objs w)"
      using o1 put_object_same[OF d(2,1)] by simp
    moreover have "Database_handle MysqlFinalizerName (DefaultMysqlReconciler (\<lambda>dsn. srv)) dbs d config w = ((no_requeue, None), w1)"
      using True d(3,4) w1(1)
      by (simp add: Database_handle_def DefaultMysqlReconciler_def SliceContainsString_set SaveStatusUpdatesIfObjectChanged_def)
    ultimately show thesis using w1(2) by (intro that)
  next
    case False
    have "obj_key db_meta (d\<lparr>db_state := TaskComplete\<rparr>) \<in> obj_key db_meta ` set (objs w1)"
      using d(1) o1 by (simp add: obj_key_def)
    then obtain w2 where w2: "cl_update_status dbs (d\<lparr>db_state := TaskComplete\<rparr>) w1 = (Inr (d\<lparr>db_state := TaskComplete\<rparr>), w2)"
      "objs w2 = put_object (d\<lparr>db_state := TaskComplete\<rparr>) (objs w1)" "view w2 = view w1"
      using database_storeD(3)[OF api] by blast
    have "Database_handle MysqlFinalizerName (DefaultMysqlReconciler (\<lambda>dsn. srv)) dbs d config w = ((no_requeue, None), w2)"
      using False d(3,4) w1(1) w2(1)
      by (simp add: Database_handle_def DefaultMysqlReconciler_def SliceContainsString_set SaveStatusUpdatesIfObjectChanged_def)
    then show thesis by (rule that) (use w1(2) w2(2,3) o1 in simp_all)
  qed
qed

text \<open>
  From a resource to a usable database: over a working API server and MySQL server, the first
  reconcile of a fresh \<^verbatim>\<open>MysqlDatabase\<close> only puts the finalizer on it and asks to be called again,
  and the second creates user, database and rights and marks the resource Complete, all other
  resources and all other users being left alone.
\<close>

theorem mysql_database_provisioned:
  assumes "database_store dbs objs view" "\<forall>t. keeps_objects objs (my_exec srv t)"
    and "mysql_user_laws srv view" "mysql_database_laws srv view"
    and "mysql_login_law srv view (myc_host config) (myc_port config)"
    and "my_open srv (dataSourceName (myc_username config) (myc_password config) (myc_host config) (myc_port config)) = None"
    and "\<forall>w. cl_get cfgs (om_namespace (db_meta d)) (ec_environment (ud_environment (db_spec d))) w = Inr config"
    and "d \<in> set (objs w)" "distinct (map (obj_key db_meta) (objs w))" "om_deletion (db_meta d) = None"
    and "MysqlFinalizerName \<notin> set (om_finalizers (db_meta d))" "plain_spec (db_spec d)"
    and "\<forall>e. (ud_username (db_spec d), e) \<in> ms_grants (view w) \<longrightarrow> plain_name e"
  shows "\<exists>w1 w2.
    Mysql_doReconcile (DefaultMysqlReconciler (\<lambda>dsn. srv)) cfgs dbs (om_namespace (db_meta d)) (om_name (db_meta d)) w =
      ((requeue_now, None), w1) \<and>
    Mysql_doReconcile (DefaultMysqlReconciler (\<lambda>dsn. srv)) cfgs dbs (om_namespace (db_meta d)) (om_name (db_meta d)) w1 =
      ((no_requeue, None), w2) \<and>
    objs w2 = put_object ((set_finalizers (om_finalizers (db_meta d) @ [MysqlFinalizerName]) d)
                \<lparr>db_state := TaskComplete\<rparr>) (objs w) \<and>
    view w2 = mysql_established (ud_username (db_spec d)) (ud_password (db_spec d))
                (ud_database_name (db_spec d)) (view w)"
proof -
  let ?x = "set_finalizers (om_finalizers (db_meta d) @ [MysqlFinalizerName]) d"
  have x: "om_namespace (db_meta ?x) = om_namespace (db_meta d)" "om_name (db_meta ?x) = om_name (db_meta d)"
    "om_deletion (db_meta ?x) = None"
    using assms(10) by (simp_all add: set_finalizers_def)
  obtain w1 where w1: "cl_update dbs ?x w = (Inr ?x, w1)" "objs w1 = put_object ?x (objs w)" "view w1 = view w"
    using database_storeD(2)[OF assms(1), of ?x w] assms(8) by auto
  have x1: "?x \<in> set (objs w1)" "distinct (map (obj_key db_meta) (objs w1))"
    using w1(2) assms(8,9) put_object_mem[of ?x "objs w"] by (simp_all add: put_object_keys)
  have first: "Mysql_doReconcile (DefaultMysqlReconciler (\<lambda>dsn. srv)) cfgs dbs (om_namespace (db_meta d)) (om_name (db_meta d)) w =
      ((requeue_now, None), w1)"
    using assms(7,10,11) w1(1) database_storeD(1)[OF assms(1,9,8)]
    by (simp add: Mysql_doReconcile_def Database_handle_def SliceContainsString_set)
  obtain w2 where w2: "Database_handle MysqlFinalizerName (DefaultMysqlReconciler (\<lambda>dsn. srv)) dbs ?x config w1 = ((no_requeue, None), w2)"
    "objs w2 = put_object (?x\<lparr>db_state := TaskComplete\<rparr>) (objs w1)"
    "view w2 = mysql_established (ud_username (db_spec ?x)) (ud_password (db_spec ?x)) (db_name ?x) (view w1)"
    by (rule provision_second_pass[OF assms(1) assms(2)[rule_format] assms(3-6) x1 x(3)])
      (use assms(12,13) w1(3) in simp_all)
  have "Mysql_doReconcile (DefaultMysqlReconciler (\<lambda>dsn. srv)) cfgs dbs (om_namespace (db_meta d)) (om_name (db_meta d)) w1 =
      ((no_requeue, None), w2)"
    using database_storeD(1)[OF assms(1) x1(2,1)] x(1,2) assms(7) w2(1) by (simp add: Mysql_doReconcile_def)
  moreover have "objs w2 = put_object (?x\<lparr>db_state := TaskComplete\<rparr>) (objs w)"
    using w2(2) w1(2) by (simp add: put_object_put obj_key_def)
  ultimately show ?thesis using first w2(3) w1(3) by (intro exI[of _ w1] exI[of _ w2]) simp
qed

text \<open>A MySQL server beside the resources.\<close>

definition beside :: "'b mysql_server \<Rightarrow> ('a \<times> 'b) mysql_server" where
  "beside srv =
     \<lparr>my_open = my_open srv, my_ping = (\<lambda>dsn w. my_ping srv dsn (snd w)),
      my_exec = (\<lambda>t w. map_prod id (Pair (fst w)) (my_exec srv t (snd w))),
      my_select_user = (\<lambda>u h w. my_select_user srv u h (snd w)),
      my_select_dbs = (\<lambda>u h w. my_select_dbs srv u h (snd w))\<rparr>"

lemma beside_does [simp]:
  "does (my_exec (beside srv) t) (view \<circ> snd) g w \<longleftrightarrow> does (my_exec srv t) view g (snd w)"
  by (simp add: does_def beside_def)

lemma beside_laws:
  "mysql_user_laws srv view \<Longrightarrow> mysql_user_laws (beside srv) (view \<circ> snd)"
  "mysql_database_laws srv view \<Longrightarrow> mysql_database_laws (beside srv) (view \<circ> snd)"
  "mysql_login_law srv view host port \<Longrightarrow> mysql_login_law (beside srv) (view \<circ> snd) host port"
  by (simp add: mysql_user_laws_def, simp add: beside_def)
    (simp add: mysql_database_laws_def, simp add: beside_def, simp add: mysql_login_law_def beside_def)

lemma beside_keeps: "keeps_objects fst (my_exec (beside srv) t)"
  by (simp add: keeps_objects_def beside_def)

lemma find_by_key: "distinct (map f xs) \<Longrightarrow> d \<in> set xs \<Longrightarrow> find (\<lambda>y. f y = f d) xs = Some d"
  by (induction xs) (auto simp: image_iff)

lemma mem_database_store: "database_store (on_first (mem_client db_meta)) fst (view \<circ> snd)"
  unfolding database_store_def
proof (intro conjI allI impI)
  fix d and w :: "user_database list \<times> 'a"
  assume "distinct (map (obj_key db_meta) (fst w))" "d \<in> set (fst w)"
  then have "find (\<lambda>y. obj_key db_meta y = obj_key db_meta d) (fst w) = Some d" by (rule find_by_key)
  then show "cl_get (on_first (mem_client db_meta)) (om_namespace (db_meta d)) (om_name (db_meta d)) w = Inr d"
    by (simp add: on_first_def mem_client_def obj_key_def)
qed (auto simp: on_first_def mem_client_def put_object_def)

theorem mysql_database_provisioned_witness:
  "\<exists>w1 w2. Mysql_doReconcile (DefaultMysqlReconciler (\<lambda>dsn. beside toy_server)) (static_client myc_meta [toy_mysql_config])
        (on_first (mem_client db_meta)) ''ns'' ''x'' ([toy_task_database], toy_world_before) = ((requeue_now, None), w1) \<and>
     Mysql_doReconcile (DefaultMysqlReconciler (\<lambda>dsn. beside toy_server)) (static_client myc_meta [toy_mysql_config])
        (on_first (mem_client db_meta)) ''ns'' ''x'' w1 = ((no_requeue, None), w2) \<and>
     map db_state (fst w2) = [TaskComplete] \<and> ms_users (toy_view (snd w2)) ''u'' = Some ''secret''"
proof -
  have k: "om_namespace (db_meta toy_task_database) = ''ns''" "om_name (db_meta toy_task_database) = ''x''"
    "om_deletion (db_meta toy_task_database) = None" "om_finalizers (db_meta toy_task_database) = []"
    "ec_environment (ud_environment (db_spec toy_task_database)) = ''m''"
    by (simp_all add: toy_task_database_def)
  have open': "my_open (beside toy_server) dsn = None" for dsn by (simp add: beside_def)
  have cfg: "\<forall>w. cl_get (static_client myc_meta [toy_mysql_config]) (om_namespace (db_meta toy_task_database))
      (ec_environment (ud_environment (db_spec toy_task_database))) w = Inr toy_mysql_config"
    by (simp add: k static_client_def toy_mysql_config_def obj_key_def)
  have w: "toy_task_database \<in> set (fst ([toy_task_database], toy_world_before))"
    "distinct (map (obj_key db_meta) (fst ([toy_task_database], toy_world_before)))"
    "MysqlFinalizerName \<notin> set (om_finalizers (db_meta toy_task_database))"
    "\<forall>e. (ud_username (db_spec toy_task_database), e) \<in> ms_grants ((toy_view \<circ> snd) ([toy_task_database], toy_world_before)) \<longrightarrow>
      plain_name e"
    using toy_before_simps(3) by (simp_all add: k)
  note prov = mysql_database_provisioned[OF mem_database_store allI[OF beside_keeps] beside_laws(1)[OF toy_user_laws]
      beside_laws(2)[OF toy_database_laws] beside_laws(3)[OF toy_login_law] open' cfg w(1,2) k(3) w(3) toy_plain_spec w(4),
      unfolded k]
  from prov show ?thesis
  proof (elim exE conjE, goal_cases)
    case (1 w1 w2)
    have "map db_state (fst w2) = [TaskComplete]" using 1(3) by (simp add: put_object_def obj_key_def set_finalizers_def)
    moreover have "ms_users (toy_view (snd w2)) ''u'' = Some ''secret''"
      using 1(4) by (simp add: mysql_established_def toy_task_simps)
    ultimately show ?case using 1(1,2) by (intro exI[of _ w1] exI[of _ w2] conjI)
  qed
qed


section \<open>No database without its resource, over the servers\<close>

text \<open>
  What a statement can do to the databases of its server at most, whether it succeeds or fails: only
  \<^verbatim>\<open>CREATE DATABASE\<close> adds one, the one that it names, and a \<^verbatim>\<open>DROP DATABASE\<close> that succeeds leaves none
  of that name. Nothing is said of success. Several data source names may lead to one server.
\<close>

definition within ::
  "('w \<Rightarrow> 'a) \<Rightarrow> ('w \<Rightarrow> 'p set) \<Rightarrow> 'p set \<Rightarrow> ('w \<Rightarrow> go_error option \<times> 'w) \<Rightarrow> bool" where
  "within objs owned S f \<longleftrightarrow> (\<forall>w. objs (snd (f w)) = objs w \<and> owned (snd (f w)) \<subseteq> S \<union> owned w)"

definition mysql_scope ::
  "(string \<Rightarrow> 'w mysql_server) \<Rightarrow> (string \<Rightarrow> 's) \<Rightarrow> ('w \<Rightarrow> 'a) \<Rightarrow> ('w \<Rightarrow> ('s \<times> string) set) \<Rightarrow> bool" where
  "mysql_scope srv server objs owned \<longleftrightarrow>
     (\<forall>dsn u p d.
        within objs owned {} (my_exec (srv dsn) (create_user_sql u p)) \<and>
        within objs owned {} (my_exec (srv dsn) (alter_user_sql u p)) \<and>
        within objs owned {} (my_exec (srv dsn) (drop_user_sql u)) \<and>
        within objs owned {} (my_exec (srv dsn) (grant_sql d u)) \<and>
        within objs owned {} (my_exec (srv dsn) (revoke_sql d u)) \<and>
        within objs owned {} (my_exec (srv dsn) flush_sql)) \<and>
     (\<forall>dsn d. plain_name d \<longrightarrow>
        within objs owned {(server dsn, d)} (my_exec (srv dsn) (create_db_sql d)) \<and>
        within objs owned {} (my_exec (srv dsn) (drop_db_sql d)) \<and>
        (\<forall>w w'. my_exec (srv dsn) (drop_db_sql d) w = (None, w') \<longrightarrow> (server dsn, d) \<notin> owned w'))"

lemma withinD: "within objs owned S f \<Longrightarrow> f w = (r, w') \<Longrightarrow> objs w' = objs w \<and> owned w' \<subseteq> S \<union> owned w"
  by (metis within_def snd_conv)

lemma within_more: "within objs owned {} f \<Longrightarrow> within objs owned S f"
  by (fastforce simp: within_def)

lemma within_steps: "\<forall>f \<in> set fs. within objs owned S f \<Longrightarrow> within objs owned S (steps fs)"
proof (induction fs)
  case (Cons f fs)
  show ?case
    unfolding within_def
  proof
    fix w
    obtain r w1 where f: "f w = (r, w1)" by force
    have one: "objs w1 = objs w \<and> owned w1 \<subseteq> S \<union> owned w" using withinD[of objs owned S f w r w1] f Cons.prems by simp
    have "within objs owned S (steps fs)" using Cons by simp
    then have "objs (snd (steps fs w1)) = objs w1 \<and> owned (snd (steps fs w1)) \<subseteq> S \<union> owned w1"
      unfolding within_def by blast
    then show "objs (snd (steps (f # fs) w)) = objs w \<and> owned (snd (steps (f # fs) w)) \<subseteq> S \<union> owned w"
      using f one by (cases r) auto
  qed
qed (simp add: within_def)

lemma within_id: "within objs owned S (\<lambda>w. (e, w))"
  by (simp add: within_def)

lemma mysql_scopeD:
  assumes "mysql_scope srv server objs owned"
  shows "within objs owned S (my_exec (srv dsn) (create_user_sql u p))"
    "within objs owned S (my_exec (srv dsn) (alter_user_sql u p))"
    "within objs owned S (my_exec (srv dsn) (drop_user_sql u))"
    "within objs owned S (my_exec (srv dsn) (grant_sql d u))"
    "within objs owned S (my_exec (srv dsn) (revoke_sql d u))"
    "within objs owned S (my_exec (srv dsn) flush_sql)"
    "plain_name d \<Longrightarrow> within objs owned {(server dsn, d)} (my_exec (srv dsn) (create_db_sql d))"
    "plain_name d \<Longrightarrow> within objs owned {} (my_exec (srv dsn) (drop_db_sql d))"
    "plain_name d \<Longrightarrow> my_exec (srv dsn) (drop_db_sql d) w = (None, w') \<Longrightarrow> (server dsn, d) \<notin> owned w'"
  using assms unfolding mysql_scope_def by (blast intro: within_more)+

lemma reconcileUser_within:
  assumes "mysql_scope srv server objs owned"
  shows "within objs owned S (mysql_reconcileUser (srv dsn) r)"
proof -
  have c: "within objs owned S (mysql_createUser (srv dsn) r)" "within objs owned S (mysql_changePassword (srv dsn) r)"
    unfolding mysql_createUser_def mysql_changePassword_def
    by (intro within_steps; simp add: mysql_scopeD[OF assms])+
  then show ?thesis
    unfolding within_def[of _ _ _ "mysql_reconcileUser _ _"] mysql_reconcileUser_def
    by (auto simp: within_def split: sum.split)
qed

lemma revokes_within:
  assumes "mysql_scope srv server objs owned"
  shows "within objs owned S (steps (map (revokePermissionOnDatabase (srv dsn) r) ds))"
proof (intro within_steps ballI)
  fix f assume "f \<in> set (map (revokePermissionOnDatabase (srv dsn) r) ds)"
  then obtain d where "f = revokePermissionOnDatabase (srv dsn) r d" by auto
  then show "within objs owned S f"
    using mysql_scopeD(5)[OF assms] by (auto simp: within_def revokePermissionOnDatabase_def)
qed

lemma reconcilePermissions_within:
  assumes "mysql_scope srv server objs owned"
  shows "within objs owned S (mysql_reconcilePermissions (srv dsn) r)"
  unfolding within_def
proof
  fix w
  let ?P = "\<lambda>w'. objs w' = objs w \<and> owned w' \<subseteq> S \<union> owned w"
  obtain res w1 where rev: "revokeNotRequestedPermissions (srv dsn) r w = (res, w1)" by force
  have one: "?P w1"
    using rev withinD[OF revokes_within[OF assms, of S dsn r]]
    by (fastforce simp: revokeNotRequestedPermissions_def split: sum.splits prod.splits option.splits)
  obtain e w2 where g: "my_exec (srv dsn) (grant_sql (mt_database r) (mt_username r)) w1 = (e, w2)" by force
  have "?P w2" using withinD[OF mysql_scopeD(4)[OF assms, of S] g] one by (intro conjI; (simp; fail)?) blast
  then show "?P (snd (mysql_reconcilePermissions (srv dsn) r w))"
    using one rev g by (simp add: mysql_reconcilePermissions_def split: sum.split)
qed

lemma mysql_reconcile_within:
  assumes "mysql_scope srv server objs owned" "plain_name (db_name d)"
    and "ReconcileMysqlDatabase (srv dsn) d c w = (r, w')"
  shows "objs w' = objs w \<and> owned w' \<subseteq> {(server dsn, db_name d)} \<union> owned w \<and>
    (\<forall>ch d'. r = Inr (ch, d') \<longrightarrow> db_meta d' = db_meta d \<and> db_spec d' = db_spec d)"
proof -
  define t where "t = \<lparr>mt_host = myc_host c, mt_port = myc_port c, mt_username = ud_username (db_spec d),
    mt_password = ud_password (db_spec d), mt_database = db_name d\<rparr>"
  have "within objs owned {(server dsn, db_name d)} (mysql_reconcileTask (srv dsn) t)"
    unfolding mysql_reconcileTask_def
    by (intro within_steps)
      (simp add: reconcileUser_within[OF assms(1)] reconcilePermissions_within[OF assms(1)]
        mysql_reconcileDatabase_def mysql_scopeD(7)[OF assms(1,2)] t_def)
  note task = withinD[OF this]
  show ?thesis
  proof (cases "my_open (srv dsn) (dataSourceName (myc_username c) (myc_password c) (myc_host c) (myc_port c))")
    case (Some err)
    then show ?thesis using assms(3) by (auto simp: ReconcileMysqlDatabase_def)
  next
    case None
    obtain e w1 where run: "mysql_reconcileTask (srv dsn) t w = (e, w1)" by force
    have "w1 = w'"
      using assms(3)[unfolded ReconcileMysqlDatabase_def None Let_def option.case, folded t_def, unfolded run prod.case]
      by (cases e) (simp_all split: if_splits)
    moreover have "db_meta d' = db_meta d \<and> db_spec d' = db_spec d" if "r = Inr (ch, d')" for ch d'
      using mysql_reconciler.completes[OF assms(3)[unfolded that]] by simp
    ultimately show ?thesis using task[OF run] by blast
  qed
qed

lemma mysql_delete_within:
  assumes "mysql_scope srv server objs owned" "plain_name (db_name d)"
    and "DeleteMysqlDatabase (srv dsn) d c w = (r, w')"
  shows "objs w' = objs w \<and> owned w' \<subseteq> owned w \<and> (r = None \<longrightarrow> (server dsn, db_name d) \<notin> owned w')"
proof (cases "my_open (srv dsn) (dataSourceName (myc_username c) (myc_password c) (myc_host c) (myc_port c))")
  case (Some err)
  then show ?thesis using assms(3) by (auto simp: DeleteMysqlDatabase_def)
next
  case None
  define t where "t = \<lparr>mt_host = [], mt_port = (0 :: 16 word), mt_username = ud_username (db_spec d),
    mt_password = ud_password (db_spec d), mt_database = db_name d\<rparr>"
  have run: "mysql_deleteTask (srv dsn) t w = (r, w')"
    using assms(3) None by (simp add: DeleteMysqlDatabase_def t_def)
  have user: "within objs owned {} (mysql_removeUser (srv dsn) t)"
    using mysql_scopeD(3)[OF assms(1), of "{}"] by (auto simp: within_def mysql_removeUser_def split: sum.split)
  have rights: "within objs owned {} (mysql_revokePermissions (srv dsn) t)"
    using revokes_within[OF assms(1), of "{}" dsn t]
    by (auto simp: within_def mysql_revokePermissions_def split: sum.split)
  have db: "within objs owned {} (mysql_removeDatabase (srv dsn) t)"
    using mysql_scopeD(8)[OF assms(1,2)] by (simp add: mysql_removeDatabase_def t_def)
  have "within objs owned {} (mysql_deleteTask (srv dsn) t)"
    unfolding mysql_deleteTask_def by (rule within_steps) (simp add: user rights db)
  from withinD[OF this run] have sub: "objs w' = objs w" "owned w' \<subseteq> owned w" by auto
  have "(server dsn, db_name d) \<notin> owned w'" if "r = None"
    using run that mysql_scopeD(9)[OF assms(1,2)]
    by (auto simp: mysql_deleteTask_def mysql_removeDatabase_def t_def split: prod.splits option.splits)
  with sub show ?thesis by simp
qed

definition mysql_place :: "(string \<Rightarrow> 's) \<Rightarrow> mysql_config \<Rightarrow> user_database_spec \<Rightarrow> 's \<times> string" where
  "mysql_place server config spec = (server (mysql_dsn config), ud_database_name spec)"

lemma mysql_interface:
  assumes "mysql_scope srv server objs owned"
  shows "database_interface (DefaultMysqlReconciler srv) objs owned (\<lambda>s. plain_name (ud_database_name s))
    (mysql_place server)"
  unfolding database_interface_def mysql_place_def DefaultMysqlReconciler_def database_reconciler.simps
  using mysql_reconcile_within[OF assms] mysql_delete_within[OF assms]
  by (metis (no_types, lifting) insert_is_Un)

text \<open>
  C4. No orphaned databases: take any sequence of reconcile calls of the MySQL controller, creations,
  changes of the spec, deletions and garbage collections, with any calls to the API server and any
  statements on the MySQL servers failing. Every database that then exists has a stored resource
  that names it, by its environment's server and its name, and that still carries the finalizer, so
  that its removal will be waited for. The only exceptions are the places in \<open>lost\<close>: those that a
  change of the spec abandoned, which happens when the task handler changes the name or the
  environment of the database in place. The configurations of the environments do not change.
\<close>

theorem no_orphaned_database:
  assumes "database_api dbs objs owned" "mysql_scope srv server objs owned" "fixed_configs cfgs conf"
    and "(database_step (Mysql_doReconcile (DefaultMysqlReconciler srv) cfgs dbs) objs owned
           (\<lambda>s. plain_name (ud_database_name s)) (place_of conf (mysql_place server)))\<^sup>*\<^sup>* (w, {}) (w', lost)"
    and "owned w = {}" "distinct (map (obj_key db_meta) (objs w))"
    and "\<forall>d \<in> set (objs w). plain_name (ud_database_name (db_spec d))"
  shows "\<forall>p \<in> owned w' - lost. \<exists>d \<in> set (objs w').
           p = (server (mysql_dsn (conf (om_namespace (db_meta d)) (ec_environment (ud_environment (db_spec d))))),
                ud_database_name (db_spec d)) \<and>
           SliceContainsString (om_finalizers (db_meta d)) MysqlFinalizerName"
proof -
  have "guarded MysqlFinalizerName (\<lambda>s. plain_name (ud_database_name s)) (place_of conf (mysql_place server))
      (objs w') (owned w' - lost)"
    using assms(4)
  proof (rule database_run_guarded[where objs = objs and w = w and owned = owned
        and ok = "\<lambda>s. plain_name (ud_database_name s)", OF _ _ assms(5-7)])
    fix ns n w r w' lost
    assume run: "Mysql_doReconcile (DefaultMysqlReconciler srv) cfgs dbs ns n w = (r, w')"
      and g: "guarded MysqlFinalizerName (\<lambda>s. plain_name (ud_database_name s)) (place_of conf (mysql_place server))
        (objs w) (owned w - lost)"
    show "guarded MysqlFinalizerName (\<lambda>s. plain_name (ud_database_name s)) (place_of conf (mysql_place server))
        (objs w') (owned w' - lost)"
      using doReconcile_handles(1)[OF assms(1,3) run]
    proof (elim disjE bexE)
      fix d
      assume d: "d \<in> set (objs w)" "Database_handle MysqlFinalizerName (DefaultMysqlReconciler srv) dbs d
        (resource_config conf d) w = (r, w')"
      show ?thesis by (rule handle_guarded[OF assms(1) mysql_interface[OF assms(2)] g d])
    qed (use g in simp)
  qed
  then show ?thesis
    unfolding guarded_def SliceContainsString_set place_of_def mysql_place_def by (intro ballI) metis
qed

text \<open>The databases of the small MySQL server, beside the resources.\<close>

definition toy_owned :: "user_database list \<times> toy_world \<Rightarrow> (unit \<times> string) set" where
  "toy_owned w = Pair () ` ms_dbs (toy_view (snd w))"

lemma toy_database_api: "database_api (on_first (mem_client db_meta)) fst toy_owned"
  by (auto simp: database_api_def on_first_def mem_client_def put_object_def find_Some_iff toy_owned_def
      split: option.splits if_splits)

lemma beside_within:
  "within fst toy_owned S (my_exec (beside toy_server) t) \<longleftrightarrow>
   (\<forall>v. Pair () ` ms_dbs (toy_view (snd (toy_exec t v))) \<subseteq> S \<union> Pair () ` ms_dbs (toy_view v))"
  by (simp add: within_def beside_def toy_owned_def)

lemma toy_scope: "mysql_scope (\<lambda>dsn. beside toy_server) (\<lambda>dsn. ()) fst toy_owned"
  unfolding mysql_scope_def beside_within
  by (intro conjI allI impI)
    (auto simp: split_paired_all toy_exec_simps toy_view_def toy_owned_def beside_def)

theorem no_orphaned_database_witness:
  "\<exists>w'. toy_owned w' = {((), ''site_shop'')} \<and>
     (\<exists>d \<in> set (fst w'). ud_database_name (db_spec d) = ''site_shop'' \<and>
        SliceContainsString (om_finalizers (db_meta d)) MysqlFinalizerName)"
proof -
  let ?d = "set_finalizers [MysqlFinalizerName] toy_task_database"
  let ?w = "([?d], ([], [], [])) :: user_database list \<times> toy_world"
  let ?cfgs = "static_client myc_meta [toy_mysql_config] :: (user_database list \<times> toy_world, mysql_config) client"
  let ?dbs = "on_first (mem_client db_meta) :: (user_database list \<times> toy_world, user_database) client"
  let ?rec = "DefaultMysqlReconciler (\<lambda>dsn. beside toy_server)"
  have d: "om_deletion (db_meta ?d) = None" "MysqlFinalizerName \<in> set (om_finalizers (db_meta ?d))"
    "plain_spec (db_spec ?d)" "plain_name (db_name ?d)"
    using toy_plain_spec by (simp_all add: set_finalizers_def toy_task_database_def plain_spec_def)
  obtain w' where w': "Database_handle MysqlFinalizerName ?rec ?dbs ?d toy_mysql_config ?w = ((no_requeue, None), w')"
      "fst w' = put_object (?d\<lparr>db_state := TaskComplete\<rparr>) (fst ?w)"
      "(toy_view \<circ> snd) w' = mysql_established (ud_username (db_spec ?d)) (ud_password (db_spec ?d)) (db_name ?d) ((toy_view \<circ> snd) ?w)"
    by (rule provision_second_pass[OF mem_database_store[of toy_view] beside_keeps beside_laws(1)[OF toy_user_laws]
          beside_laws(2)[OF toy_database_laws] beside_laws(3)[OF toy_login_law], of toy_mysql_config ?d ?w])
      (use d in \<open>simp_all add: beside_def toy_view_def\<close>)
  have "Mysql_doReconcile ?rec ?cfgs ?dbs ''ns'' ''x'' ?w = ((no_requeue, None), w')"
    using w'(1) by (simp add: Mysql_doReconcile_def static_client_def on_first_def mem_client_def obj_key_def
        set_finalizers_def toy_task_database_def new_meta_def toy_mysql_config_def)
  note first = database_step.reconcile[where run = "Mysql_doReconcile ?rec ?cfgs ?dbs", OF this]
  have run: "(database_step (Mysql_doReconcile ?rec ?cfgs ?dbs) fst toy_owned (\<lambda>s. plain_name (ud_database_name s))
      (place_of (\<lambda>ns env. toy_mysql_config) (mysql_place (\<lambda>dsn. ()))))\<^sup>*\<^sup>* (?w, {}) (w', {})"
    by (rule r_into_rtranclp, rule first)
  have cfgs: "fixed_configs ?cfgs (\<lambda>ns env. toy_mysql_config)"
    by (simp add: fixed_configs_def static_client_def)
  have owned: "toy_owned w' = {((), ''site_shop'')}"
    using w'(3) by (simp add: toy_owned_def mysql_established_def toy_view_def toy_task_simps)
  have guard: "\<forall>p \<in> toy_owned w' - {}. \<exists>x \<in> set (fst w'). p = ((), db_name x) \<and>
      SliceContainsString (om_finalizers (db_meta x)) MysqlFinalizerName"
    by (rule no_orphaned_database[OF toy_database_api toy_scope cfgs run])
      (use d(4) in \<open>simp_all add: toy_owned_def toy_view_def\<close>)
  have "((), ''site_shop'') \<in> toy_owned w' - {}" by (simp add: owned)
  from bspec[OF guard this] have "\<exists>x \<in> set (fst w'). db_name x = ''site_shop'' \<and>
      SliceContainsString (om_finalizers (db_meta x)) MysqlFinalizerName" by auto
  then show ?thesis by (intro exI[of _ w'] conjI owned)
qed

text \<open>
  The exceptions are real: when the handler of the site has updated a resource to another database
  name, which keeps its object, finalizer and status, the later deletion succeeds, the finalizer is
  removed, and the database with the old name stays on the server for good. In the same way an
  update to another environment leaves the database on the server of the old one.
\<close>

lemma renamed_database_stays:
  assumes "mysql_user_laws srv view" "mysql_database_laws srv view"
    and "my_open srv (dataSourceName (myc_username config) (myc_password config) (myc_host config) (myc_port config)) = None"
    and "plain_spec (db_spec e)" "fst ` ms_grants (view w) \<subseteq> dom (ms_users (view w))"
    and "db_name e \<noteq> db_name d" "db_name d \<in> ms_dbs (view w)"
  obtains w' where "DeleteMysqlDatabase srv (MysqlDatabase_UpdateFromExpected d e) config w = (None, w')"
    "db_name d \<in> ms_dbs (view w')"
proof -
  let ?task = "\<lparr>mt_host = [], mt_port = 0, mt_username = ud_username (db_spec e),
      mt_password = ud_password (db_spec e), mt_database = db_name e\<rparr>"
  have "does (mysql_deleteTask srv ?task) view (mysql_removed (ud_username (db_spec e)) (db_name e)) w"
    using deleteTask_does[OF assms(1,2), of ?task w] assms(4,5) by (simp add: plain_spec_def)
  then obtain w' where "mysql_deleteTask srv ?task w = (None, w')"
    "view w' = mysql_removed (ud_username (db_spec e)) (db_name e) (view w)" by (rule doesE)
  then show thesis
    using assms(3,6,7) that[of w']
    by (simp add: DeleteMysqlDatabase_def mysql_removed_def MysqlDatabase_UpdateFromExpected_def)
qed

end
