(* ===== verification/SiteCompletion.thy ===== *)
theory SiteCompletion
  imports RedisProperties JobProperties
begin

text \<open>
  What it means that a handler of the databases or jobs of a site reports that everything has been
  created: the listed objects are, service by service, those that the site's spec and the service
  configurations ask for. The five handlers share the statement and its proof.
\<close>

section \<open>The objects that a site asks for\<close>

text \<open>\<open>f\<close> is the body of the handler's loop over the services: the object for a service, if it needs one.\<close>

definition asked_for ::
  "(string \<Rightarrow> site_service \<Rightarrow> go_error + 'o option) \<Rightarrow> staging_site \<Rightarrow> string \<Rightarrow> 'o \<Rightarrow> bool" where
  "asked_for f site name e \<longleftrightarrow> (\<exists>svc. map_of (site_services site) name = Some svc \<and> f name svc = Inr (Some e))"

definition listed_as_asked ::
  "('w, 'o) client \<Rightarrow> ('o \<Rightarrow> string) \<Rightarrow> (string \<Rightarrow> site_service \<Rightarrow> go_error + 'o option) \<Rightarrow>
   ('o \<Rightarrow> 'o \<Rightarrow> bool) \<Rightarrow> staging_site \<Rightarrow> 'w \<Rightarrow> bool" where
  "listed_as_asked cl service f same site w \<longleftrightarrow>
     (\<exists>items. cl_list cl (st_namespace site) [(labels_Site, st_name site)] w = Inr items \<and>
        distinct (map service items) \<and>
        (\<forall>name. name \<in> service ` set items \<longleftrightarrow> (\<exists>e. asked_for f site name e)) \<and>
        (\<forall>x \<in> set items. \<exists>e. asked_for f site (service x) e \<and> same x e))"

lemma build_expected_asked:
  assumes "build_expected f (go_range ord 0 (site_services site)) [] = Inr E"
    and "range_order ord" "wf_map (site_services site)"
  shows "map_of E k = Some e \<longleftrightarrow> asked_for f site k e"
  using build_expected_dom[OF assms(1), unfolded map_of.simps] assms(2,3)
  by (cases "map_of (site_services site) k") (auto simp: asked_for_def range_simps split: option.splits sum.splits)

lemma listed_as_askedI:
  assumes "cl_list cl (st_namespace site) [(labels_Site, st_name site)] w = Inr items"
    and "build_expected f (go_range ord 0 (site_services site)) [] = Inr E"
    and "range_order ord" "wf_map (site_services site)"
    and "distinct (map service items)" "service ` set items = dom (map_of E)"
    and "\<forall>x \<in> set items. \<forall>e. map_of E (service x) = Some e \<longrightarrow> same x e"
  shows "listed_as_asked cl service f same site w"
proof -
  note asked = build_expected_asked[OF assms(2-4)]
  have "name \<in> service ` set items \<longleftrightarrow> (\<exists>e. asked_for f site name e)" for name
    unfolding asked[symmetric] assms(6) by blast
  moreover have "\<exists>e. asked_for f site (service x) e \<and> same x e" if x: "x \<in> set items" for x
  proof -
    have "service x \<in> dom (map_of E)" using x assms(6) by blast
    then obtain e where "map_of E (service x) = Some e" by blast
    with asked assms(7) x show ?thesis by blast
  qed
  ultimately show ?thesis using assms(1,5) unfolding listed_as_asked_def by blast
qed

lemma listed_as_asked_same:
  "st_meta a = st_meta b \<Longrightarrow> st_spec a = st_spec b \<Longrightarrow> listed_as_asked cl service f same a w = listed_as_asked cl service f same b w"
  by (simp add: listed_as_asked_def asked_for_def)

text \<open>The loop bodies look at the metadata and the spec of the site only.\<close>

lemma service_functions_same:
  assumes "st_meta a = st_meta b" "st_spec a = st_spec b"
  shows "Mysql_service_database md5 setref cfgs a = Mysql_service_database md5 setref cfgs b"
    "Mongo_service_database md5 setref cfgs a = Mongo_service_database md5 setref cfgs b"
    "Redis_service_database md5 setref cfgs a = Redis_service_database md5 setref cfgs b"
    "DbInit_service_job md5 setref cfgs a = DbInit_service_job md5 setref cfgs b"
    "DbMigration_service_job md5 setref cfgs a = DbMigration_service_job md5 setref cfgs b"
proof -
  obtain t where a: "a = b\<lparr>st_status := t\<rparr>" using assms by (cases a, cases b) auto
  have "MakeDatabaseName md5 (b\<lparr>st_status := t\<rparr>) = MakeDatabaseName md5 b"
    "MakeUsername md5 (b\<lparr>st_status := t\<rparr>) = MakeUsername md5 b"
    by (simp_all add: fun_eq_iff MakeDatabaseName_def MakeUsername_def)
  then have "Mysql_getPopulatedDatabase md5 setref a = Mysql_getPopulatedDatabase md5 setref b"
    "Mongo_getPopulatedDatabase md5 setref a = Mongo_getPopulatedDatabase md5 setref b"
    "Redis_getPopulatedDatabase md5 setref a = Redis_getPopulatedDatabase md5 setref b"
    "DbInit_getPopulatedJob md5 setref a = DbInit_getPopulatedJob md5 setref b"
    "DbMigration_getPopulatedJob md5 setref a = DbMigration_getPopulatedJob md5 setref b"
    unfolding fun_eq_iff a
    by (simp_all add: Mysql_getPopulatedDatabase_def Mongo_getPopulatedDatabase_def
        Redis_getPopulatedDatabase_def DbInit_getPopulatedJob_def DbMigration_getPopulatedJob_def task_populate_defs
        DbInitJob_PopulateFomSite_def DbMigrationJob_PopulateFomSite_def task_object_name_def site_service_of_def
        cong: option.case_cong sum.case_cong)
  then show "Mysql_service_database md5 setref cfgs a = Mysql_service_database md5 setref cfgs b"
    "Mongo_service_database md5 setref cfgs a = Mongo_service_database md5 setref cfgs b"
    "Redis_service_database md5 setref cfgs a = Redis_service_database md5 setref cfgs b"
    "DbInit_service_job md5 setref cfgs a = DbInit_service_job md5 setref cfgs b"
    "DbMigration_service_job md5 setref cfgs a = DbMigration_service_job md5 setref cfgs b"
    using assms(1) unfolding fun_eq_iff
    by (simp_all add: Mysql_service_database_def Mongo_service_database_def Redis_service_database_def
        DbInit_service_job_def DbMigration_service_job_def cong: sum.case_cong if_cong)
qed

section \<open>The handlers\<close>

lemma mysql_created:
  assumes "Mysql_EnsureDatabasesAreCreated md5 setref ord cfgs dbs site w = (Inr True, w')"
    and "range_order ord" "wf_map (site_services site)"
  shows "w' = w" "listed_as_asked dbs db_service (Mysql_service_database md5 setref cfgs site w) MysqlDatabase_Matches site w"
proof -
  obtain items E where l: "cl_list dbs (st_namespace site) [(labels_Site, st_name site)] w = Inr items"
    and E: "build_expected (Mysql_service_database md5 setref cfgs site w) (go_range ord 0 (site_services site)) [] = Inr E"
    and sync: "mysql.in_sync E items" and "w' = w"
    by (rule Mysql_created_cases[OF assms(1,2)])
  then show "w' = w" by simp
  show "listed_as_asked dbs db_service (Mysql_service_database md5 setref cfgs site w) MysqlDatabase_Matches site w"
    by (rule listed_as_askedI[OF l E assms(2,3)]) (use sync in \<open>simp_all add: mysql.in_sync_def\<close>)
qed

lemma mongo_created:
  assumes "Mongo_EnsureDatabasesAreCreated md5 setref ord cfgs dbs site w = (Inr True, w')"
    and "range_order ord" "wf_map (site_services site)"
  shows "w' = w" "listed_as_asked dbs db_service (Mongo_service_database md5 setref cfgs site w)
    (\<lambda>x e. MongoDatabase_Matches e x) site w"
proof -
  obtain items where l: "cl_list dbs (st_namespace site) [(labels_Site, st_name site)] w = Inr items"
    using assms(1) by (auto simp: Mongo_EnsureDatabasesAreCreated_def split: sum.splits)
  obtain E where E: "build_expected (Mongo_service_database md5 setref cfgs site w) (go_range ord 0 (site_services site)) [] = Inr E"
    using assms(1) l by (auto simp: Mongo_EnsureDatabasesAreCreated_def split: sum.splits)
  let ?p = "classify db_service (\<lambda>x e. MongoDatabase_Matches e x) MongoDatabase_UpdateFromExpected items (start_plan E)"
  have p: "plan_empty ?p" and run: "run_loops
       [write_all (cl_delete dbs) (go_range ord 1 (to_delete ?p)),
        write_all (cl_create dbs) (go_range ord 2 (to_create ?p)),
        write_all (cl_update dbs) (go_range ord 3 (to_update ?p))] w = (None, w')"
    using assms(1) by (simp_all add: Mongo_EnsureDatabasesAreCreated_def l E Let_def finish_Inr)
  show "w' = w" by (rule plan_empty_writes[OF p assms(2) run])
  have sync: "mongo.in_sync E items"
    using p build_expected_wf[OF E] by (intro mongo.plan_empty_in_sync) simp_all
  show "listed_as_asked dbs db_service (Mongo_service_database md5 setref cfgs site w)
    (\<lambda>x e. MongoDatabase_Matches e x) site w"
    by (rule listed_as_askedI[OF l E assms(2,3)]) (use sync in \<open>simp_all add: mongo.in_sync_def\<close>)
qed

text \<open>The classification of the Redis handler is the common one, when it does not fail.\<close>

lemma redis_classify_classify:
  "redis_classify ff ds p = Inr q \<Longrightarrow>
   q = classify rd_service (\<lambda>x e. RedisDatabase_Matches e x) RedisDatabase_UpdateFromExpected ds p"
  by (induction ds arbitrary: p) (auto simp: Let_def split: option.splits if_splits sum.splits)

lemma redis_created:
  assumes "Redis_EnsureDatabasesAreCreated md5 setref ord cfgs rcfgs dbs site w = (Inr True, site', w')"
    and "range_order ord" "wf_map (site_services site)"
  shows "w' = w" "listed_as_asked dbs rd_service (Redis_service_database md5 setref cfgs site w)
    (\<lambda>x e. RedisDatabase_Matches e x) site w"
proof -
  let ?ff = "\<lambda>ec. getFirstFreeDatabaseInEnvironment rcfgs dbs (st_namespace site) ec w"
  note run = assms(1)[unfolded Redis_EnsureDatabasesAreCreated_def]
  obtain items where l: "cl_list dbs (st_namespace site) [(labels_Site, st_name site)] w = Inr items"
    using run by (auto split: sum.splits)
  obtain E where E: "build_expected (Redis_service_database md5 setref cfgs site w) (go_range ord 0 (site_services site)) [] = Inr E"
    using run l by (auto split: sum.splits)
  obtain p where c: "redis_classify ?ff items (start_plan E) = Inr p"
    using run l E by (auto split: sum.splits)
  have p: "plan_empty p"
    using run l E c by (auto split: prod.splits option.splits)
  have "write_all (cl_delete dbs) (go_range ord 1 (to_delete p)) w = (None, w)"
    "redis_create_loop rcfgs dbs (go_range ord 2 (to_create p)) site w = (None, site, w)"
    "redis_update_loop dbs (go_range ord 3 (to_update p)) site w = (None, site, w)"
    using p assms(2) by (simp_all add: plan_empty_def)
  then show "w' = w" using run l E c by simp
  have sync: "redis.in_sync E items"
    using p build_expected_wf[OF E] redis_classify_classify[OF c] by (intro redis.plan_empty_in_sync) simp_all
  show "listed_as_asked dbs rd_service (Redis_service_database md5 setref cfgs site w)
    (\<lambda>x e. RedisDatabase_Matches e x) site w"
    by (rule listed_as_askedI[OF l E assms(2,3)]) (use sync in \<open>simp_all add: redis.in_sync_def\<close>)
qed

text \<open>Init jobs are not compared with the spec: there is one for each service that needs it.\<close>

lemma init_jobs_created:
  assumes "DbInit_EnsureJobsAreCreated md5 setref ord cfgs jobs site w = (Inr True, w')"
    and "range_order ord" "wf_map (site_services site)"
  shows "w' = w" "listed_as_asked jobs di_service (DbInit_service_job md5 setref cfgs site w) (\<lambda>x e. True) site w"
proof -
  let ?f = "DbInit_service_job md5 setref cfgs site w"
  obtain items where l: "cl_list jobs (st_namespace site) [(labels_Site, st_name site)] w = Inr items"
    using assms(1) by (auto simp: DbInit_EnsureJobsAreCreated_def split: sum.splits)
  obtain E where E: "build_expected ?f (go_range ord 0 (site_services site)) [] = Inr E"
    using assms(1) l by (auto simp: DbInit_EnsureJobsAreCreated_def split: sum.splits)
  let ?p = "classify di_service (\<lambda>x e. True) (\<lambda>x e. x) items (start_plan E)"
  have none: "to_delete ?p = []" "to_create ?p = []" "w' = w"
    using assms(1,2) l by (auto simp: DbInit_EnsureJobsAreCreated_def E Let_def finish_Inr)
  then show "w' = w" by simp
  have sync: "dbinit.in_sync E items"
    using none build_expected_wf[OF E] by (intro dbinit.plan_empty_in_sync) (simp_all add: dbinit_plan_empty)
  show "listed_as_asked jobs di_service ?f (\<lambda>x e. True) site w"
    by (rule listed_as_askedI[OF l E assms(2,3)]) (use sync in \<open>simp_all add: dbinit.in_sync_def\<close>)
qed

text \<open>
  The migration handler reports completion also when it has updated jobs, so that only their
  services are as asked for; a disabled site asks for none.
\<close>

definition migration_asked ::
  "digest \<Rightarrow> set_ref \<Rightarrow> ('w, service_config) client \<Rightarrow> staging_site \<Rightarrow> 'w \<Rightarrow> string \<Rightarrow> site_service \<Rightarrow>
   go_error + db_migration_job option" where
  "migration_asked md5 setref cfgs site w name svc =
     (if su_enabled (st_status site) then DbMigration_service_job md5 setref cfgs site w name svc else Inr None)"

lemma migrations_created:
  assumes "DbMigration_EnsureJobsAreCreated md5 setref ord cfgs jobs site w = (Inr True, w')"
    and "range_order ord" "wf_map (site_services site)"
  shows "listed_as_asked jobs dm_service (migration_asked md5 setref cfgs site w) (\<lambda>x e. True) site w"
proof -
  let ?f = "migration_asked md5 setref cfgs site w"
  obtain items where l: "cl_list jobs (st_namespace site) [(labels_Site, st_name site)] w = Inr items"
    using assms(1) by (auto simp: DbMigration_EnsureJobsAreCreated_def split: sum.splits)
  have none: "build_expected ?f nxs [] = Inr []" if "\<not> su_enabled (st_status site)" for nxs
    using that by (induction nxs) (simp_all add: migration_asked_def)
  have some: "?f = DbMigration_service_job md5 setref cfgs site w" if "su_enabled (st_status site)"
    using that by (simp add: fun_eq_iff migration_asked_def)
  obtain E where E: "build_expected ?f (go_range ord 0 (site_services site)) [] = Inr E"
    and d: "to_delete (classify dm_service DbMigrationJob_Matches DbMigrationJob_UpdateFrom items (start_plan E)) = []"
    and c: "to_create (classify dm_service DbMigrationJob_Matches DbMigrationJob_UpdateFrom items (start_plan E)) = []"
    using assms(1) l none some
    by (cases "su_enabled (st_status site)")
      (auto simp: DbMigration_EnsureJobsAreCreated_def Let_def finish_Inr split: sum.splits)
  have wf: "wf_map E" by (rule build_expected_wf[OF E]) simp
  have keys: "distinct (map dm_service items)" "dm_service ` set items \<subseteq> dom (map_of E)"
    using migration.no_deletes[OF d] wf by (simp_all add: start_plan_def)
  have "dom (map_of E) \<subseteq> dm_service ` set items"
    using c unfolding migration.alist_nil_iff migration.plan_create[OF wf] by auto
  with keys show ?thesis by (intro listed_as_askedI[OF l E assms(2,3)]) simp_all
qed

end
