(* ===== verification/SiteStages.thy ===== *)
theory SiteStages
  imports SiteBackups SiteCompletion
begin

text \<open>
  The stages of a reconcile call, across the components: what the state Complete says about the
  databases and jobs of the site, what must be finished before a workload is touched, and what a
  failed job does to the site.
\<close>

section \<open>What a stage leaves of the site\<close>

definition same_site :: "staging_site \<Rightarrow> staging_site \<Rightarrow> bool" where
  "same_site a b \<longleftrightarrow> st_meta a = st_meta b \<and> st_spec a = st_spec b"

lemma same_site_on_status [simp]: "same_site (on_status f a) b = same_site a b" "same_site a (on_status f b) = same_site a b"
  by (simp_all add: same_site_def)

lemma same_site_refl [simp]: "same_site a a"
  by (simp add: same_site_def)

lemma set_redis_number_on_status: "\<exists>svcs. set_redis_number n k site = on_status (\<lambda>s. s\<lparr>su_services := svcs\<rparr>) site"
  by (auto simp: set_redis_number_def on_status_def Let_def)

definition only_services :: "staging_site \<Rightarrow> staging_site \<Rightarrow> bool" where
  "only_services a b \<longleftrightarrow> (\<exists>svcs. b = on_status (\<lambda>s. s\<lparr>su_services := svcs\<rparr>) a)"

lemma only_services_facts:
  assumes "only_services a b"
  shows "same_site b a" "su_db_created (st_status b) = su_db_created (st_status a)"
    "su_db_initialised (st_status b) = su_db_initialised (st_status a)"
    "su_enabled (st_status b) = su_enabled (st_status a)"
  using assms by (auto simp: only_services_def)

lemma only_services_refl [simp]: "only_services a a"
  unfolding only_services_def by (rule exI[of _ "su_services (st_status a)"]) (simp add: on_status_def)

lemma only_services_step: "only_services (set_redis_number n k a) b \<Longrightarrow> only_services a b"
  by (auto simp: only_services_def set_redis_number_def on_status_def Let_def)

lemma redis_loops_only_services:
  "redis_create_loop rcfgs dbs m site w = (r, site', w') \<Longrightarrow> only_services site site'"
  "redis_update_loop dbs m site w = (r, site', w') \<Longrightarrow> only_services site site'"
  by (induction m arbitrary: site w; auto split: sum.splits prod.splits simp: Let_def;
      blast intro: only_services_step)+

lemma only_services_trans: "only_services a b \<Longrightarrow> only_services b c \<Longrightarrow> only_services a c"
  by (auto simp: only_services_def on_status_def)

lemma redis_only_services:
  "Redis_EnsureDatabasesAreCreated md5 setref ord cfgs rcfgs dbs site w = (r, site', w') \<Longrightarrow> only_services site site'"
  unfolding Redis_EnsureDatabasesAreCreated_def
  by (auto split: sum.splits prod.splits option.splits
      dest: redis_loops_only_services intro: only_services_trans)

lemma run_handlers_done:
  assumes "run_handlers hs site w = (None, site', w')"
    and "\<And>h s u r s' u'. h \<in> set hs \<Longrightarrow> h s u = (r, s', u') \<Longrightarrow> only_services s s'"
  shows "same_site site' site" "su_db_initialised (st_status site') = su_db_initialised (st_status site)"
    and "su_db_created (st_status site') \<Longrightarrow> su_db_created (st_status site)"
    and "su_enabled (st_status site') = su_enabled (st_status site)"
proof -
  define kept where "kept = (\<lambda>a b. same_site b a \<and> su_db_initialised (st_status b) = su_db_initialised (st_status a) \<and>
      (su_db_created (st_status b) \<longrightarrow> su_db_created (st_status a)) \<and>
      su_enabled (st_status b) = su_enabled (st_status a))"
  have "kept site site'"
    using assms
  proof (induction hs arbitrary: site w)
    case (Cons h hs)
    from Cons.prems(1) obtain b s1 w1 where h: "h site w = (Inr b, s1, w1)"
        "run_handlers hs (on_status (\<lambda>s. s\<lparr>su_db_created := su_db_created s \<and> b\<rparr>) s1) w1 = (None, site', w')"
      by (auto split: prod.splits sum.splits)
    have o: "only_services site s1" using Cons.prems(2)[OF list.set_intros(1) h(1)] .
    have "kept (on_status (\<lambda>s. s\<lparr>su_db_created := su_db_created s \<and> b\<rparr>) s1) site'"
      by (rule Cons.IH[OF h(2)]) (rule Cons.prems(2)[OF list.set_intros(2)])
    with only_services_facts[OF o] show ?case by (simp add: same_site_def kept_def)
  qed (simp add: kept_def)
  then show "same_site site' site" "su_db_initialised (st_status site') = su_db_initialised (st_status site)"
    "su_db_created (st_status site') \<Longrightarrow> su_db_created (st_status site)"
    "su_enabled (st_status site') = su_enabled (st_status site)" by (simp_all add: kept_def)
qed

lemma created_handlers_only_services:
  "h \<in> set (created_handlers x cl) \<Longrightarrow> h s u = (r, s', u') \<Longrightarrow> only_services s s'"
  by (auto simp: created_handlers_def Let_def map_prod_def split: prod.splits dest: redis_only_services)

lemma ready_handlers_only_services:
  "h \<in> set (ready_handlers cl) \<Longrightarrow> h s u = (r, s', u') \<Longrightarrow> only_services s s'"
  by (auto simp: ready_handlers_def)

text \<open>The resources of a site as the API server lists them.\<close>

definition all_in :: "('w, 'o) client \<Rightarrow> staging_site \<Rightarrow> 'w \<Rightarrow> ('o \<Rightarrow> bool) \<Rightarrow> bool" where
  "all_in cl site w P \<longleftrightarrow>
     (\<exists>items. cl_list cl (st_namespace site) [(labels_Site, st_name site)] w = Inr items \<and> (\<forall>x \<in> set items. P x))"

definition databases_ready :: "'w site_clients \<Rightarrow> staging_site \<Rightarrow> 'w \<Rightarrow> bool" where
  "databases_ready cl site w \<longleftrightarrow>
     all_in (sk_mysql cl) site w (\<lambda>d. db_state d = TaskComplete) \<and>
     all_in (sk_mongo cl) site w (\<lambda>d. db_state d = TaskComplete) \<and>
     all_in (sk_redis cl) site w (\<lambda>d. rd_state d = TaskComplete)"

definition init_jobs_done :: "'w site_clients \<Rightarrow> staging_site \<Rightarrow> 'w \<Rightarrow> bool" where
  "init_jobs_done cl site w \<longleftrightarrow> all_in (sk_inits cl) site w (\<lambda>j. dit_state (di_status j) = JobComplete)"

definition migrations_done :: "'w site_clients \<Rightarrow> staging_site \<Rightarrow> 'w \<Rightarrow> bool" where
  "migrations_done cl site w \<longleftrightarrow> all_in (sk_migrations cl) site w (\<lambda>j. dmt_state (dm_status j) = JobComplete)"

lemma all_in_same: "same_site a b \<Longrightarrow> all_in cl a w P = all_in cl b w P"
  by (simp add: all_in_def same_site_def)

lemma databases_ready_same: "same_site a b \<Longrightarrow> databases_ready cl a w = databases_ready cl b w"
  by (simp add: databases_ready_def all_in_same[of a b])

lemma jobs_loop_True:
  "jobs_loop state failure js b = Inr True \<longleftrightarrow> b \<and> (\<forall>j \<in> set js. state j = JobComplete)"
  by (induction js arbitrary: b) auto


lemma ready_all_in:
  "Mysql_EnsureDatabasesAreReady dbs site w = Inr True \<Longrightarrow> all_in dbs site w (\<lambda>d. db_state d = TaskComplete)"
  "Mongo_EnsureDatabasesAreReady dbs site w = Inr True \<Longrightarrow> all_in dbs site w (\<lambda>d. db_state d = TaskComplete)"
  "Redis_EnsureDatabasesAreReady rds site w = Inr True \<Longrightarrow> all_in rds site w (\<lambda>d. rd_state d = TaskComplete)"
  by (auto simp: Mysql_EnsureDatabasesAreReady_def Mongo_EnsureDatabasesAreReady_def Redis_EnsureDatabasesAreReady_def
      all_in_def ready_loop_True split: sum.splits)

lemma jobs_all_in:
  "DbInit_EnsureJobsAreComplete ijs site w = Inr True \<Longrightarrow> all_in ijs site w (\<lambda>j. dit_state (di_status j) = JobComplete)"
  "DbMigration_EnsureJobsAreComplete mjs site w = Inr True \<Longrightarrow> all_in mjs site w (\<lambda>j. dmt_state (dm_status j) = JobComplete)"
  by (auto simp: DbInit_EnsureJobsAreComplete_def DbMigration_EnsureJobsAreComplete_def all_in_def jobs_loop_True
      split: sum.splits)

lemma ready_run:
  assumes "run_handlers (ready_handlers cl) site w = (None, site', w')" "su_db_created (st_status site')"
  shows "databases_ready cl site w" "w' = w"
proof -
  have name: "st_name (on_status f s) = st_name s" "st_namespace (on_status f s) = st_namespace s" for f s by simp_all
  have same: "Mongo_EnsureDatabasesAreReady (sk_mongo cl) (on_status f s) w = Mongo_EnsureDatabasesAreReady (sk_mongo cl) s w"
    "Redis_EnsureDatabasesAreReady (sk_redis cl) (on_status f s) w = Redis_EnsureDatabasesAreReady (sk_redis cl) s w" for f s
    by (simp_all add: Mongo_EnsureDatabasesAreReady_def Redis_EnsureDatabasesAreReady_def)
  from assms show "databases_ready cl site w" "w' = w"
    by (auto simp: ready_handlers_def same databases_ready_def ready_all_in split: sum.splits)
qed

section \<open>The state Complete\<close>

lemma created_stage:
  assumes "ensureDatabasesAreCreated x cl site w = ((Inr c, site'), w')" "su_db_created (st_status site')"
  shows "databases_ready cl site w'" "same_site site' site"
proof -
  obtain s1 w1 s2 where r: "run_handlers (created_handlers x cl) (on_status (\<lambda>s. s\<lparr>su_db_created := True\<rparr>) site) w = (None, s1, w1)"
      "run_handlers (ready_handlers cl) (on_status (\<lambda>s. s\<lparr>su_db_initialised := True\<rparr>) s1) w1 = (None, s2, w')" "site' = s2"
    using assms(1) by (auto simp: ensureDatabasesAreCreated_def Let_def split: prod.splits option.splits)
  note ready = ready_run[OF r(2) assms(2)[unfolded r(3)]]
  have "same_site s1 site" using run_handlers_done(1)[OF r(1) created_handlers_only_services] by simp
  moreover have "same_site s2 s1" using run_handlers_done(1)[OF r(2) ready_handlers_only_services] by simp
  ultimately show "same_site site' site" by (simp add: same_site_def r(3))
  have "databases_ready cl s1 w'" using ready by (simp add: databases_ready_def all_in_def)
  then show "databases_ready cl site w'"
    unfolding databases_ready_same[OF \<open>same_site s1 site\<close>] .
qed

lemma initialised_stage:
  assumes "ensureDatabasesAreInitialised x cl site w = ((Inr c, site'), w')" "su_db_initialised (st_status site')"
  shows "init_jobs_done cl site w'" "same_site site' site"
proof -
  have same: "DbInit_EnsureJobsAreComplete (sk_inits cl) (on_status f s) u = DbInit_EnsureJobsAreComplete (sk_inits cl) s u" for f s u
    by (simp add: DbInit_EnsureJobsAreComplete_def)
  show "init_jobs_done cl site w'" "same_site site' site"
    using assms by (auto simp: ensureDatabasesAreInitialised_def Let_def same init_jobs_done_def jobs_all_in
        split: prod.splits sum.splits)
qed

lemma migrated_stage:
  assumes "ensureDatabaseMigrationJobsAreCreated x cl site w = ((Inr c, site'), w')" "su_db_migrated (st_status site')"
  shows "migrations_done cl site w'" "same_site site' site"
proof -
  have same: "DbMigration_EnsureJobsAreComplete (sk_migrations cl) (on_status f s) u = DbMigration_EnsureJobsAreComplete (sk_migrations cl) s u" for f s u
    by (simp add: DbMigration_EnsureJobsAreComplete_def)
  show "migrations_done cl site w'" "same_site site' site"
    using assms by (auto simp: ensureDatabaseMigrationJobsAreCreated_def Let_def same migrations_done_def jobs_all_in
        split: prod.splits sum.splits)
qed

lemma configs_stage:
  assumes "ensureConfigsAreUpToDate x cl site w = ((r, site'), w')"
  shows "same_site site' site" "su_db_created (st_status site') = su_db_created (st_status site)"
    "su_enabled (st_status site') = su_enabled (st_status site)"
  using assms by (auto simp: ensureConfigsAreUpToDate_def EnsureConfigsAreUpToDate_def Let_def same_site_def
      split: prod.splits sum.splits)

lemma Complete_iff:
  "st_state (setSiteState site) = StateComplete \<longleftrightarrow> st_state site \<noteq> StateFailed \<and> su_db_created (st_status site) \<and>
     su_db_initialised (st_status site) \<and> su_db_migrated (st_status site) \<and> su_configs (st_status site) \<and>
     su_networking (st_status site) \<and> su_workloads (st_status site) \<and> om_deletion (st_meta site) = None"
  by (auto simp: setSiteState_def Let_def)

text \<open>The run of the stages before the workloads, each of which has ended with its flag set.\<close>

definition stages_run ::
  "site_env \<Rightarrow> 'w site_clients \<Rightarrow> staging_site \<Rightarrow> 'w \<Rightarrow> staging_site \<times> 'w \<Rightarrow> staging_site \<times> 'w \<Rightarrow>
   staging_site \<times> 'w \<Rightarrow> staging_site \<times> 'w \<Rightarrow> bool" where
  "stages_run e cl site w p1 p2 p3 p4 \<longleftrightarrow>
     (\<exists>c1 c2 c3 c4.
        ensureDatabasesAreCreated (en_x e) cl site w = ((Inr c1, fst p1), snd p1) \<and>
        ensureConfigsAreUpToDate (en_x e) cl (fst p1) (snd p1) = ((Inr c2, fst p2), snd p2) \<and>
        su_db_created (st_status (fst p2)) \<and> su_configs (st_status (fst p2)) \<and>
        ensureDatabasesAreInitialised (en_x e) cl (fst p2) (snd p2) = ((Inr c3, fst p3), snd p3) \<and>
        su_db_initialised (st_status (fst p3)) \<and>
        ensureDatabaseMigrationJobsAreCreated (en_x e) cl (fst p3) (snd p3) = ((Inr c4, fst p4), snd p4) \<and>
        su_db_migrated (st_status (fst p4)))"

text \<open>
  The stages before the workloads have been passed: after the database stage every database resource
  of the site was listed as Complete, after the next one the config maps were in place, after the init
  stage every database init job was listed as Complete, and after the migration stage every migration
  job.
\<close>

definition stages_passed :: "site_env \<Rightarrow> 'w site_clients \<Rightarrow> staging_site \<Rightarrow> 'w \<Rightarrow> bool" where
  "stages_passed e cl site w \<longleftrightarrow>
     (\<exists>c1 s1 w1 c2 s2 w2 c3 s3 w3 c4 s4 w4.
        ensureDatabasesAreCreated (en_x e) cl site w = ((Inr c1, s1), w1) \<and> databases_ready cl site w1 \<and>
        ensureConfigsAreUpToDate (en_x e) cl s1 w1 = ((Inr c2, s2), w2) \<and> su_configs (st_status s2) \<and>
        ensureDatabasesAreInitialised (en_x e) cl s2 w2 = ((Inr c3, s3), w3) \<and> init_jobs_done cl site w3 \<and>
        ensureDatabaseMigrationJobsAreCreated (en_x e) cl s3 w3 = ((Inr c4, s4), w4) \<and> migrations_done cl site w4)"

lemma stages_run_passed:
  assumes "stages_run e cl site w p1 p2 p3 p4"
  shows "stages_passed e cl site w"
proof -
  obtain s1 w1 s2 w2 s3 w3 s4 w4 where p: "p1 = (s1, w1)" "p2 = (s2, w2)" "p3 = (s3, w3)" "p4 = (s4, w4)" by fastforce
  from assms[unfolded stages_run_def p fst_conv snd_conv] show ?thesis
  proof (elim exE conjE, goal_cases)
    case (1 c1 c2 c3 c4)
    have created: "su_db_created (st_status s1)" using configs_stage(2)[OF 1(2)] 1(3) by simp
    have same: "same_site s1 site" "same_site s2 site" "same_site s3 site"
      using created_stage(2)[OF 1(1) created] configs_stage(1)[OF 1(2)] initialised_stage(2)[OF 1(5,6)]
      by (simp_all add: same_site_def)
    have "databases_ready cl site w1" by (rule created_stage(1)[OF 1(1) created])
    moreover have "init_jobs_done cl site w3" "migrations_done cl site w4"
      using initialised_stage(1)[OF 1(5,6)] migrated_stage(1)[OF 1(7,8)] same
      by (simp_all add: init_jobs_done_def migrations_done_def all_in_def same_site_def)
    ultimately show ?case unfolding stages_passed_def using 1(1,2,4,5,7) by blast
  qed
qed

definition keeps :: "('w \<Rightarrow> bool) \<Rightarrow> ('w \<Rightarrow> 'r \<times> 'w) \<Rightarrow> bool" where
  "keeps P f \<longleftrightarrow> (\<forall>w r w'. f w = (r, w') \<longrightarrow> P w \<longrightarrow> P w')"

lemma keepsD: "keeps P f \<Longrightarrow> f w = (r, w') \<Longrightarrow> P w \<Longrightarrow> P w'"
  by (auto simp: keeps_def)

definition unfinished :: "site_outcome \<Rightarrow> bool" where
  "unfinished out \<longleftrightarrow> (\<exists>changed site result err. out = SaveStatus changed site result err \<and>
     (err = None \<longrightarrow> st_state (setSiteState site) \<noteq> StateComplete))"

text \<open>A call that stops early leaves an unfinished status, and only the first stages have written.\<close>

lemma database_stages_outcome:
  assumes run: "site_database_stages e cl c s2 w2 = (out, w')"
    and keep: "\<And>s. keeps P (ensureDatabasesAreInitialised (en_x e) cl s)"
      "\<And>s. keeps P (ensureDatabaseMigrationJobsAreCreated (en_x e) cl s)"
  shows "(\<exists>c3 s3 w3 c4 s4 w4. ensureDatabasesAreInitialised (en_x e) cl s2 w2 = ((Inr c3, s3), w3) \<and>
        su_db_initialised (st_status s3) \<and>
        ensureDatabaseMigrationJobsAreCreated (en_x e) cl s3 w3 = ((Inr c4, s4), w4) \<and> su_db_migrated (st_status s4)) \<or>
      unfinished out \<and> (P w2 \<longrightarrow> P w')"
proof -
  note run = run[unfolded site_database_stages_def Let_def]
  obtain r3 s3 w3 where 3: "ensureDatabasesAreInitialised (en_x e) cl s2 w2 = ((r3, s3), w3)" by (metis surj_pair)
  note P3 = keepsD[OF keep(1) 3]
  show ?thesis
  proof (cases "\<exists>c3. r3 = Inr c3 \<and> su_db_initialised (st_status s3)")
    case False
    then have "unfinished out" "w' = w3"
      using run 3 by (cases r3; auto simp: unfinished_def Complete_iff)+
    with P3 show ?thesis by blast
  next
    case True
    then obtain c3 where c3: "r3 = Inr c3" and go3: "su_db_initialised (st_status s3)" by blast
    note 3 = 3[unfolded c3]
    obtain r4 s4 w4 where 4: "ensureDatabaseMigrationJobsAreCreated (en_x e) cl s3 w3 = ((r4, s4), w4)" by (metis surj_pair)
    note P4 = keepsD[OF keep(2) 4]
    show ?thesis
    proof (cases "\<exists>c4. r4 = Inr c4 \<and> su_db_migrated (st_status s4)")
      case False
      then have "unfinished out" "w' = w4"
        using run 3 4 go3 by (cases r4; auto simp: unfinished_def Complete_iff)+
      with P3 P4 show ?thesis by blast
    next
      case True
      then show ?thesis using 3 4 go3 by blast
    qed
  qed
qed

lemma site_stages_outcome:
  assumes run: "site_stages e cl site w = (out, w')"
    and keep: "\<And>s. keeps P (ensureDatabasesAreCreated (en_x e) cl s)" "\<And>s. keeps P (ensureConfigsAreUpToDate (en_x e) cl s)"
      "\<And>s. keeps P (ensureDatabasesAreInitialised (en_x e) cl s)"
      "\<And>s. keeps P (ensureDatabaseMigrationJobsAreCreated (en_x e) cl s)"
  shows "(\<exists>p1 p2 p3 p4. stages_run e cl site w p1 p2 p3 p4) \<or> unfinished out \<and> (P w \<longrightarrow> P w')"
proof -
  note run = run[unfolded site_stages_def Let_def]
  obtain r1 s1 w1 where 1: "ensureDatabasesAreCreated (en_x e) cl site w = ((r1, s1), w1)" by (metis surj_pair)
  note P1 = keepsD[OF keep(1) 1]
  show ?thesis
  proof (cases r1)
    case (Inl er)
    then have "unfinished out" "w' = w1" using run 1 by (auto simp: unfinished_def)
    with P1 show ?thesis by blast
  next
    case (Inr c1)
    note 1 = 1[unfolded Inr] and first = 1[unfolded Inr]
    obtain r2 s2 w2 where 2: "ensureConfigsAreUpToDate (en_x e) cl s1 w1 = ((r2, s2), w2)" by (metis surj_pair)
    note P2 = keepsD[OF keep(2) 2]
    show ?thesis
    proof (cases "\<exists>c2. r2 = Inr c2 \<and> su_configs (st_status s2) \<and> su_db_created (st_status s2)")
      case False
      have "unfinished out \<and> w' = w2"
      proof (cases r2)
        case Inl
        then show ?thesis using run 1 2 by (auto simp: unfinished_def)
      next
        case (Inr c2)
        with False have "\<not> su_configs (st_status s2) \<or> \<not> su_db_created (st_status s2)" by blast
        moreover from this have "SaveStatus (c1 \<or> c2) s2 no_requeue None = out \<and> w2 = w'"
          using run 1 2 Inr by simp
        ultimately show ?thesis by (auto simp: unfinished_def Complete_iff)
      qed
      with P1 P2 show ?thesis by blast
    next
      case True
      then obtain c2 where c2: "r2 = Inr c2" and go: "su_configs (st_status s2)" "su_db_created (st_status s2)" by blast
      note 2 = 2[unfolded c2]
      have "site_database_stages e cl (c1 \<or> c2) s2 w2 = (out, w')" using run 1 2 go by simp
      from database_stages_outcome[OF this keep(3,4)] show ?thesis
      proof (elim disjE exE conjE, goal_cases)
        case (1 c3 s3 w3 c4 s4 w4)
        have "stages_run e cl site w (s1, w1) (s2, w2) (s3, w3) (s4, w4)"
          unfolding stages_run_def fst_conv snd_conv using first 2 go 1 by blast
        then show ?case by blast
      next
        case 2
        with P1 P2 show ?case by blast
      qed
    qed
  qed
qed

text \<open>What a stage that ends with its flag set has found, for a map of services without duplicates.\<close>

lemma created_handlers_found:
  assumes "run_handlers (created_handlers x cl) s w = (None, s', w')" "su_db_created (st_status s')"
    and "range_order (ex_order x)" "wf_map (site_services s)"
  defines "cfgs \<equiv> cc_service (sk_configs cl)"
  shows "w' = w"
    and "listed_as_asked (sk_mysql cl) db_service (Mysql_service_database (ex_md5 x) (ex_set_ref x) cfgs s w)
      MysqlDatabase_Matches s w"
    and "listed_as_asked (sk_mongo cl) db_service (Mongo_service_database (ex_md5 x) (ex_set_ref x) cfgs s w)
      (\<lambda>d e. MongoDatabase_Matches e d) s w"
    and "listed_as_asked (sk_redis cl) rd_service (Redis_service_database (ex_md5 x) (ex_set_ref x) cfgs s w)
      (\<lambda>d e. RedisDatabase_Matches e d) s w"
proof -
  let ?flag = "\<lambda>b. on_status (\<lambda>t. t\<lparr>su_db_created := su_db_created t \<and> b\<rparr>)"
  obtain b1 u1 where m: "Mysql_EnsureDatabasesAreCreated (ex_md5 x) (ex_set_ref x) (ex_order x) cfgs (sk_mysql cl) s w = (Inr b1, u1)"
    using assms(1) by (auto simp: created_handlers_def cfgs_def Let_def map_prod_def split: prod.splits sum.splits)
  define s2 where "s2 = ?flag b1 s"
  obtain b2 u2 where g: "Mongo_EnsureDatabasesAreCreated (ex_md5 x) (ex_set_ref x) (ex_order x) cfgs (sk_mongo cl) s2 u1 = (Inr b2, u2)"
    using assms(1) m by (auto simp: created_handlers_def cfgs_def Let_def map_prod_def s2_def split: prod.splits sum.splits)
  define s3 where "s3 = ?flag b2 s2"
  obtain b3 s4 where r: "Redis_EnsureDatabasesAreCreated (ex_md5 x) (ex_set_ref x) (ex_order x) cfgs (cc_redis (sk_configs cl))
      (sk_redis cl) s3 u2 = (Inr b3, s4, w')" and s': "s' = ?flag b3 s4"
    using assms(1) m g
    by (auto simp: created_handlers_def cfgs_def Let_def map_prod_def s2_def s3_def split: prod.splits sum.splits)
  have flags: b1 b2 b3
    using assms(2) s' only_services_facts(2)[OF redis_only_services[OF r]] by (simp_all add: s3_def s2_def)
  have same: "st_meta s2 = st_meta s" "st_spec s2 = st_spec s" "st_meta s3 = st_meta s" "st_spec s3 = st_spec s"
    by (simp_all add: s2_def s3_def)
  have wf: "wf_map (site_services s2)" "wf_map (site_services s3)" using assms(4) same by simp_all
  have T: "b1 = True" "b2 = True" "b3 = True" using flags by simp_all
  note m = mysql_created[OF m[unfolded T] assms(3,4)]
  note g = mongo_created[OF g[unfolded T m(1)] assms(3) wf(1)]
  note r = redis_created[OF r[unfolded T g(1)] assms(3) wf(2)]
  show "w' = w" by (rule r(1))
  show "listed_as_asked (sk_mysql cl) db_service (Mysql_service_database (ex_md5 x) (ex_set_ref x) cfgs s w)
      MysqlDatabase_Matches s w" by (rule m(2))
  show "listed_as_asked (sk_mongo cl) db_service (Mongo_service_database (ex_md5 x) (ex_set_ref x) cfgs s w)
      (\<lambda>d e. MongoDatabase_Matches e d) s w"
    using g(2) unfolding service_functions_same(2)[OF same(1,2)] listed_as_asked_same[OF same(1,2)] .
  show "listed_as_asked (sk_redis cl) rd_service (Redis_service_database (ex_md5 x) (ex_set_ref x) cfgs s w)
      (\<lambda>d e. RedisDatabase_Matches e d) s w"
    using r(2) unfolding service_functions_same(3)[OF same(3,4)] listed_as_asked_same[OF same(3,4)] .
qed

text \<open>
  Everything that the spec of the site asks for is there and complete, as the stages of one call have
  seen it. The database stage has written nothing and found, for MySQL, Mongo and Redis, one resource
  for each service with such an environment, as derived from the spec and the service configuration,
  no other, and all Complete. The init stage has written nothing and found one init job for each
  service that needs one, no other, and all Complete. The migration stage has found one migration job
  for each service that needs one while the site is enabled, no other, and after its updates all jobs
  were listed as Complete.
\<close>

definition site_in_place :: "site_env \<Rightarrow> 'w site_clients \<Rightarrow> staging_site \<Rightarrow> 'w \<Rightarrow> bool" where
  "site_in_place e cl site w \<longleftrightarrow>
     (let md5 = ex_md5 (en_x e); setref = ex_set_ref (en_x e); cfgs = cc_service (sk_configs cl)
      in \<exists>s1 s2 w2 s3 s4 w4. stages_run e cl site w (s1, w) (s2, w2) (s3, w2) (s4, w4) \<and>
           listed_as_asked (sk_mysql cl) db_service (Mysql_service_database md5 setref cfgs site w) MysqlDatabase_Matches site w \<and>
           listed_as_asked (sk_mongo cl) db_service (Mongo_service_database md5 setref cfgs site w)
             (\<lambda>d e. MongoDatabase_Matches e d) site w \<and>
           listed_as_asked (sk_redis cl) rd_service (Redis_service_database md5 setref cfgs site w)
             (\<lambda>d e. RedisDatabase_Matches e d) site w \<and>
           databases_ready cl site w \<and>
           listed_as_asked (sk_inits cl) di_service (DbInit_service_job md5 setref cfgs site w2) (\<lambda>j e. True) site w2 \<and>
           init_jobs_done cl site w2 \<and>
           listed_as_asked (sk_migrations cl) dm_service (migration_asked md5 setref cfgs site w2) (\<lambda>j e. True) site w2 \<and>
           migrations_done cl site w4)"

lemma created_stage_found:
  assumes "ensureDatabasesAreCreated x cl site w = ((Inr c, site'), w')" "su_db_created (st_status site')"
    and "range_order (ex_order x)" "wf_map (site_services site)"
  defines "cfgs \<equiv> cc_service (sk_configs cl)"
  shows "w' = w" "su_enabled (st_status site') = su_enabled (st_status site)"
    and "listed_as_asked (sk_mysql cl) db_service (Mysql_service_database (ex_md5 x) (ex_set_ref x) cfgs site w)
      MysqlDatabase_Matches site w"
    and "listed_as_asked (sk_mongo cl) db_service (Mongo_service_database (ex_md5 x) (ex_set_ref x) cfgs site w)
      (\<lambda>d e. MongoDatabase_Matches e d) site w"
    and "listed_as_asked (sk_redis cl) rd_service (Redis_service_database (ex_md5 x) (ex_set_ref x) cfgs site w)
      (\<lambda>d e. RedisDatabase_Matches e d) site w"
proof -
  let ?s = "on_status (\<lambda>s. s\<lparr>su_db_created := True\<rparr>) site"
  obtain s1 w1 where r: "run_handlers (created_handlers x cl) ?s w = (None, s1, w1)"
      "run_handlers (ready_handlers cl) (on_status (\<lambda>s. s\<lparr>su_db_initialised := True\<rparr>) s1) w1 = (None, site', w')"
    using assms(1) by (auto simp: ensureDatabasesAreCreated_def Let_def split: prod.splits option.splits)
  have created: "su_db_created (st_status s1)"
    using run_handlers_done(3)[OF r(2) ready_handlers_only_services] assms(2) by simp
  have enabled: "su_enabled (st_status site') = su_enabled (st_status s1)" "su_enabled (st_status s1) = su_enabled (st_status site)"
    using run_handlers_done(4)[OF r(2) ready_handlers_only_services]
      run_handlers_done(4)[OF r(1) created_handlers_only_services] by simp_all
  have same: "st_meta ?s = st_meta site" "st_spec ?s = st_spec site" by simp_all
  have wf: "wf_map (site_services ?s)" using assms(4) by simp
  note found = created_handlers_found[OF r(1) created assms(3) wf, folded cfgs_def,
      unfolded service_functions_same[OF same] listed_as_asked_same[OF same]]
  show "w' = w" using ready_run(2)[OF r(2) assms(2)] found(1) by simp
  show "su_enabled (st_status site') = su_enabled (st_status site)" using enabled by simp
  from found(2-4) show "listed_as_asked (sk_mysql cl) db_service (Mysql_service_database (ex_md5 x) (ex_set_ref x) cfgs site w)
      MysqlDatabase_Matches site w"
    "listed_as_asked (sk_mongo cl) db_service (Mongo_service_database (ex_md5 x) (ex_set_ref x) cfgs site w)
      (\<lambda>d e. MongoDatabase_Matches e d) site w"
    "listed_as_asked (sk_redis cl) rd_service (Redis_service_database (ex_md5 x) (ex_set_ref x) cfgs site w)
      (\<lambda>d e. RedisDatabase_Matches e d) site w" .
qed

lemma job_stages_found:
  fixes cl :: "'w site_clients"
  assumes "range_order (ex_order x)" "wf_map (site_services site)"
  defines "cfgs \<equiv> cc_service (sk_configs cl)"
  shows "ensureDatabasesAreInitialised x cl site w = ((Inr c, site'), w') \<Longrightarrow> su_db_initialised (st_status site') \<Longrightarrow>
      w' = w \<and> su_enabled (st_status site') = su_enabled (st_status site) \<and>
      listed_as_asked (sk_inits cl) di_service (DbInit_service_job (ex_md5 x) (ex_set_ref x) cfgs site w) (\<lambda>j e. True) site w"
    and "ensureDatabaseMigrationJobsAreCreated x cl site w = ((Inr c, site'), w') \<Longrightarrow> su_db_migrated (st_status site') \<Longrightarrow>
      listed_as_asked (sk_migrations cl) dm_service (migration_asked (ex_md5 x) (ex_set_ref x) cfgs site w) (\<lambda>j e. True) site w"
proof -
  assume run: "ensureDatabasesAreInitialised x cl site w = ((Inr c, site'), w')" "su_db_initialised (st_status site')"
  let ?s = "on_status (\<lambda>s. s\<lparr>su_db_initialised := True\<rparr>) site"
  have same: "st_meta ?s = st_meta site" "st_spec ?s = st_spec site" by simp_all
  have wf: "wf_map (site_services ?s)" using assms(2) by simp
  have h: "DbInit_EnsureJobsAreCreated (ex_md5 x) (ex_set_ref x) (ex_order x) cfgs (sk_inits cl) ?s w = (Inr True, w')"
    and enabled: "su_enabled (st_status site') = su_enabled (st_status site)"
    using run by (auto simp: ensureDatabasesAreInitialised_def Let_def cfgs_def split: prod.splits sum.splits)
  from init_jobs_created[OF h assms(1) wf, unfolded service_functions_same[OF same] listed_as_asked_same[OF same]] enabled
  show "w' = w \<and> su_enabled (st_status site') = su_enabled (st_status site) \<and>
      listed_as_asked (sk_inits cl) di_service (DbInit_service_job (ex_md5 x) (ex_set_ref x) cfgs site w) (\<lambda>j e. True) site w"
    by blast
next
  assume run: "ensureDatabaseMigrationJobsAreCreated x cl site w = ((Inr c, site'), w')" "su_db_migrated (st_status site')"
  let ?s = "on_status (\<lambda>s. s\<lparr>su_db_migrated := True\<rparr>) site"
  have same: "st_meta ?s = st_meta site" "st_spec ?s = st_spec site" by simp_all
  have wf: "wf_map (site_services ?s)" using assms(2) by simp
  obtain v where h: "DbMigration_EnsureJobsAreCreated (ex_md5 x) (ex_set_ref x) (ex_order x) cfgs (sk_migrations cl) ?s w = (Inr True, v)"
    using run by (auto simp: ensureDatabaseMigrationJobsAreCreated_def Let_def cfgs_def split: prod.splits sum.splits)
  have asked: "migration_asked (ex_md5 x) (ex_set_ref x) cfgs ?s w = migration_asked (ex_md5 x) (ex_set_ref x) cfgs site w"
    unfolding fun_eq_iff migration_asked_def service_functions_same(5)[OF same] by simp
  from migrations_created[OF h assms(1) wf, unfolded asked listed_as_asked_same[OF same]]
  show "listed_as_asked (sk_migrations cl) dm_service (migration_asked (ex_md5 x) (ex_set_ref x) cfgs site w) (\<lambda>j e. True) site w" .
qed

lemma stages_run_in_place:
  assumes run: "stages_run e cl site w p1 p2 p3 p4"
    and "range_order (ex_order (en_x e))" "wf_map (site_services site)"
  shows "site_in_place e cl site w"
proof -
  obtain s1 w1 s2 w2 s3 w3 s4 w4 where p: "p1 = (s1, w1)" "p2 = (s2, w2)" "p3 = (s3, w3)" "p4 = (s4, w4)" by fastforce
  note run = run[unfolded p]
  from run[unfolded stages_run_def fst_conv snd_conv] show ?thesis
  proof (elim exE conjE, goal_cases)
    case (1 c1 c2 c3 c4)
    have created: "su_db_created (st_status s1)" using configs_stage(2)[OF 1(2)] 1(3) by simp
    note found = created_stage_found[OF 1(1) created assms(2,3)]
    have same: "st_meta s2 = st_meta site" "st_spec s2 = st_spec site" "st_meta s3 = st_meta site" "st_spec s3 = st_spec site"
      using created_stage(2)[OF 1(1) created] configs_stage(1)[OF 1(2)] initialised_stage(2)[OF 1(5,6)]
      by (simp_all add: same_site_def)
    have wf: "wf_map (site_services s2)" "wf_map (site_services s3)" using assms(3) same by simp_all
    note init = job_stages_found(1)[OF assms(2) wf(1) 1(5,6)]
    note migr = job_stages_found(2)[OF assms(2) wf(2) 1(7,8)]
    have w: "w1 = w" "w3 = w2" using found(1) init by blast+
    have "su_enabled (st_status s3) = su_enabled (st_status site)"
      using found(2) configs_stage(3)[OF 1(2)] init by simp
    then have asked: "migration_asked (ex_md5 (en_x e)) (ex_set_ref (en_x e)) (cc_service (sk_configs cl)) s3 w2 =
        migration_asked (ex_md5 (en_x e)) (ex_set_ref (en_x e)) (cc_service (sk_configs cl)) site w2"
      unfolding fun_eq_iff migration_asked_def service_functions_same(5)[OF same(3,4)] by simp
    have done': "databases_ready cl site w" "init_jobs_done cl site w2" "migrations_done cl site w4"
      using created_stage(1)[OF 1(1) created] initialised_stage(1)[OF 1(5,6)] migrated_stage(1)[OF 1(7,8)] same w
      by (simp_all add: init_jobs_done_def migrations_done_def all_in_def)
    have init': "listed_as_asked (sk_inits cl) di_service (DbInit_service_job (ex_md5 (en_x e)) (ex_set_ref (en_x e))
        (cc_service (sk_configs cl)) site w2) (\<lambda>j e. True) site w2"
      using init unfolding service_functions_same(4)[OF same(1,2)] listed_as_asked_same[OF same(1,2)] by blast
    have migr': "listed_as_asked (sk_migrations cl) dm_service (migration_asked (ex_md5 (en_x e)) (ex_set_ref (en_x e))
        (cc_service (sk_configs cl)) site w2) (\<lambda>j e. True) site w2"
      using migr unfolding w asked listed_as_asked_same[OF same(3,4)] .
    show ?case
      unfolding site_in_place_def Let_def
      using run[unfolded w] found(3-5) done' init' migr' by blast
  qed
qed



section \<open>The order of the writes\<close>

definition writes_keep :: "('w \<Rightarrow> bool) \<Rightarrow> ('w, 'o) client \<Rightarrow> bool" where
  "writes_keep P cl \<longleftrightarrow> (\<forall>x. keeps P (cl_create cl x) \<and> keeps P (cl_update cl x) \<and> keeps P (cl_delete cl x))"

lemma keeps_write_all:
  assumes "\<And>x. keeps P (f x)"
  shows "keeps P (write_all f m)"
  unfolding keeps_def using write_all_invariant[of f m _ _ _ P] keepsD[OF assms] by blast

lemma keeps_run_loops: "(\<And>f. f \<in> set fs \<Longrightarrow> keeps P f) \<Longrightarrow> keeps P (run_loops fs)"
proof (induction fs)
  case (Cons f fs)
  have f: "keeps P f" and fs: "keeps P (run_loops fs)" using Cons by simp_all
  show ?case
    unfolding keeps_def using keepsD[OF f] keepsD[OF fs] by (auto split: prod.splits option.splits)
qed (simp add: keeps_def)

lemma keeps_finish:
  "finish v (run_loops fs w) = (r, w') \<Longrightarrow> P w \<Longrightarrow> (\<And>f. f \<in> set fs \<Longrightarrow> keeps P f) \<Longrightarrow> P w'"
  using keepsD[OF keeps_run_loops, of fs P w] by (auto simp: finish_def split: prod.splits option.splits)

lemma keeps_loops:
  assumes "writes_keep P cl"
  shows "keeps P (write_all (cl_create cl) a)" "keeps P (write_all (cl_update cl) a)" "keeps P (write_all (cl_delete cl) a)"
  using assms by (auto simp: writes_keep_def intro: keeps_write_all)

lemma handlers_keep:
  "writes_keep P dbs \<Longrightarrow> keeps P (Mysql_EnsureDatabasesAreCreated md5 setref ord cfgs dbs site)"
  "writes_keep P dbs \<Longrightarrow> keeps P (Mongo_EnsureDatabasesAreCreated md5 setref ord cfgs dbs site)"
  "writes_keep P ijs \<Longrightarrow> keeps P (DbInit_EnsureJobsAreCreated md5 setref ord cfgs ijs site)"
  "writes_keep P mjs \<Longrightarrow> keeps P (DbMigration_EnsureJobsAreCreated md5 setref ord cfgs mjs site)"
  "writes_keep P cms \<Longrightarrow> keeps P (ensureConfigmapsAreUpToDate x cc cms site)"
  unfolding keeps_def Mysql_EnsureDatabasesAreCreated_def Mongo_EnsureDatabasesAreCreated_def
    DbInit_EnsureJobsAreCreated_def DbMigration_EnsureJobsAreCreated_def ensureConfigmapsAreUpToDate_def Let_def
  by (auto split: sum.splits if_splits simp del: run_loops.simps intro: keeps_loops elim!: keeps_finish)

lemma redis_loops_keep:
  assumes "writes_keep P dbs"
  shows "redis_create_loop rcfgs dbs m site w = (r, site', w') \<Longrightarrow> P w \<Longrightarrow> P w'"
    and "redis_update_loop dbs m site w = (r, site', w') \<Longrightarrow> P w \<Longrightarrow> P w'"
  using assms[unfolded writes_keep_def]
  by (induction m arbitrary: site w; fastforce simp: Let_def keeps_def split: sum.splits prod.splits)+

lemma redis_keeps:
  assumes "writes_keep P dbs" "Redis_EnsureDatabasesAreCreated md5 setref ord cfgs rcfgs dbs site w = (r, site', w')" "P w"
  shows "P w'"
  using assms(2,3) redis_loops_keep[OF assms(1)] keepsD[OF keeps_loops(3)[OF assms(1)]]
  unfolding Redis_EnsureDatabasesAreCreated_def by (auto split: sum.splits prod.splits option.splits)


lemma run_handlers_keep:
  assumes "\<And>h s u r s' u'. h \<in> set hs \<Longrightarrow> h s u = (r, s', u') \<Longrightarrow> P u \<Longrightarrow> P u'"
  shows "run_handlers hs site w = (r, site', w') \<Longrightarrow> P w \<Longrightarrow> P w'"
  using assms
proof (induction hs arbitrary: site w)
  case (Cons h hs)
  obtain b s1 w1 where h: "h site w = (b, s1, w1)" by (metis prod_cases3)
  have "P w1" by (rule Cons.prems(3)[OF list.set_intros(1) h Cons.prems(2)])
  with Cons.prems(1) Cons.IH[OF _ _ Cons.prems(3)[OF list.set_intros(2)]] h show ?case
    by (cases b) auto
qed simp

text \<open>Every client of the operator but those of the workload and networking objects keeps \<open>P\<close>.\<close>

definition others_keep :: "('w \<Rightarrow> bool) \<Rightarrow> 'w site_clients \<Rightarrow> bool" where
  "others_keep P cl \<longleftrightarrow>
     writes_keep P (sk_mysql cl) \<and> writes_keep P (sk_mongo cl) \<and> writes_keep P (sk_redis cl) \<and>
     writes_keep P (sk_inits cl) \<and> writes_keep P (sk_migrations cl) \<and> writes_keep P (sk_config_maps cl) \<and>
     writes_keep P (sk_backups cl) \<and> writes_keep P (sk_sites cl) \<and> (\<forall>s. keeps P (cl_update_status (sk_sites cl) s))"

lemma stages_keep:
  assumes "others_keep P cl"
  shows "keeps P (ensureDatabasesAreCreated x cl s)" "keeps P (ensureConfigsAreUpToDate x cl s)"
    "keeps P (ensureDatabasesAreInitialised x cl s)" "keeps P (ensureDatabaseMigrationJobsAreCreated x cl s)"
proof -
  note k = assms[unfolded others_keep_def]
  have created: "P u'" if "h \<in> set (created_handlers x cl)" "h t u = (r, t', u')" "P u" for h t u r t' u'
    using that k by (auto simp: created_handlers_def Let_def map_prod_def split: prod.splits
        intro: keepsD[OF handlers_keep(1)] keepsD[OF handlers_keep(2)] redis_keeps)
  have created_run: "P u'" if "run_handlers (created_handlers x cl) t u = (r, t', u')" "P u" for t u r t' u'
    using run_handlers_keep[where P = P, OF created that] .
  have ready: "u' = u" if "run_handlers (ready_handlers cl) t u = (r, t', u')" for t u r t' u'
    using that by (auto simp: ready_handlers_def split: prod.splits sum.splits)
  show "keeps P (ensureDatabasesAreCreated x cl s)"
    unfolding keeps_def ensureDatabasesAreCreated_def Let_def
    by (auto split: prod.splits option.splits dest!: ready created_run)
  show "keeps P (ensureConfigsAreUpToDate x cl s)"
    using k unfolding keeps_def ensureConfigsAreUpToDate_def EnsureConfigsAreUpToDate_def Let_def
    by (auto split: prod.splits sum.splits dest: keepsD[OF handlers_keep(5)])
  show "keeps P (ensureDatabasesAreInitialised x cl s)"
    using k unfolding keeps_def ensureDatabasesAreInitialised_def Let_def
    by (auto split: prod.splits sum.splits dest: keepsD[OF handlers_keep(3)])
  show "keeps P (ensureDatabaseMigrationJobsAreCreated x cl s)"
    using k unfolding keeps_def ensureDatabaseMigrationJobsAreCreated_def Let_def
    by (auto split: prod.splits sum.splits dest: keepsD[OF handlers_keep(4)])
qed

lemma claim_backups_keep:
  assumes "writes_keep P bks"
  shows "claim_backups setref bks owner items s w = (r, w') \<Longrightarrow> P w \<Longrightarrow> P w'"
  using assms[unfolded writes_keep_def keeps_def]
  by (induction items arbitrary: s w) (auto simp: Let_def split: if_splits sum.splits prod.splits)

lemma write_list_keeps: "(\<And>x. keeps P (f x)) \<Longrightarrow> write_list f xs w = (r, w') \<Longrightarrow> P w \<Longrightarrow> P w'"
  by (induction xs arbitrary: w) (auto simp: keeps_def split: prod.splits sum.splits)

lemma update_backups_worlds:
  assumes "update_backups e cl c t u = (q, v)"
  obtains "v = u"
  | items s0 r where "claim_backups (ex_set_ref (en_x e)) (sk_backups cl) (st_meta t) items s0 u = (r, v)"
  | items s0 r u1 xs er where "claim_backups (ex_set_ref (en_x e)) (sk_backups cl) (st_meta t) items s0 u = (r, u1)"
      "write_list (cl_delete (sk_backups cl)) xs u1 = (er, v)"
proof (cases "cl_list_field (sk_backups cl) (st_namespace t) index_SiteName (st_name t) u")
  case (Inl err)
  with assms that(1) show thesis by (simp add: update_backups_def)
next
  case (Inr items)
  note run = assms[unfolded update_backups_def Inr sum.case Let_def]
  let ?s0 = "\<lparr>bs_last = su_last_backup (st_status t), bs_changed = c, bs_finished = [], bs_claimed = False\<rparr>"
  obtain er s u1 where cl: "claim_backups (ex_set_ref (en_x e)) (sk_backups cl) (st_meta t) items ?s0 u = ((er, s), u1)"
    by (metis surj_pair)
  obtain er2 u2 where wl: "write_list (cl_delete (sk_backups cl)) (old_backups (en_sort e) (bs_finished s)) u1 = (er2, u2)" by force
  have "v = u1 \<or> v = u2"
    using run unfolding cl prod.case by (cases er; cases "bs_claimed s"; simp add: wl)
  with that(2)[of items ?s0 "(er, s)"] that(3)[of items ?s0 "(er, s)" u1] cl wl show thesis by blast
qed

lemma status_keeps:
  assumes "others_keep P cl" "ensureStatusIsUpToDate e cl site w = (r, w')" "P w"
  shows "P w'"
proof -
  note k = assms(1)[unfolded others_keep_def]
  have backups: "P v" if "update_backups e cl c t u = (q, v)" "P u" for c t u q v
  proof -
    have bk: "writes_keep P (sk_backups cl)" using k by blast
    then have del: "keeps P (cl_delete (sk_backups cl) y)" for y by (simp add: writes_keep_def)
    from that(1) show "P v"
      by (cases rule: update_backups_worlds)
        (use that(2) claim_backups_keep[OF bk] write_list_keeps[of P "cl_delete (sk_backups cl)", OF del] in blast)+
  qed
  have update: "P v" if "cl_update (sk_sites cl) t u = (q, v)" "P u" for t u q v
    using that k by (auto simp: writes_keep_def dest: keepsD)
  obtain err ch site' where r: "r = (err, ch, site')" by (metis prod_cases3)
  show ?thesis
    using assms(2)[unfolded r]
  proof (cases rule: ensureStatus_cases)
    case (annotation q s0)
    then show ?thesis using update assms(3) by blast
  next
    case config
    then show ?thesis using assms(3) by simp
  next
    case (body t s1 s2 s3 s4 c1 c2 c3 c4 cfgs er c5 s5)
    then show ?thesis using backups assms(3) by blast
  qed
qed


lemma others_keepD:
  assumes "others_keep P cl" "P w"
  shows "cl_update_status (sk_sites cl) s w = (q, v) \<Longrightarrow> P v" "cl_update (sk_sites cl) s w = (q, v) \<Longrightarrow> P v"
    "cl_delete (sk_sites cl) s w = (u, v) \<Longrightarrow> P v" "cl_create (sk_backups cl) b w = (p, v) \<Longrightarrow> P v"
proof -
  have "keeps P (cl_update_status (sk_sites cl) s)" "keeps P (cl_update (sk_sites cl) s)"
    "keeps P (cl_delete (sk_sites cl) s)" "keeps P (cl_create (sk_backups cl) b)"
    using assms(1) by (simp_all add: others_keep_def writes_keep_def)
  then show "cl_update_status (sk_sites cl) s w = (q, v) \<Longrightarrow> P v" "cl_update (sk_sites cl) s w = (q, v) \<Longrightarrow> P v"
    "cl_delete (sk_sites cl) s w = (u, v) \<Longrightarrow> P v" "cl_create (sk_backups cl) b w = (p, v) \<Longrightarrow> P v"
    using assms(2) by (simp_all add: keeps_def)
qed

lemma save_keeps:
  assumes "others_keep P cl" "Site_SaveStatusUpdatesIfObjectChanged (sk_sites cl) ch site result err w = (r, w')" "P w"
  shows "P w'"
proof -
  obtain ch2 site2 result2 err2 where f: "fail_if_final ch site result err = (ch2, site2, result2, err2)" by (metis prod_cases4)
  obtain q w1 where q: "cl_update_status (sk_sites cl) (setSiteState site2) w = (q, w1)" by force
  have "P w1" by (rule others_keepD(1)[OF assms(1,3) q])
  moreover have "w' = w \<or> w' = w1"
    using assms(2) by (auto simp: Site_SaveStatusUpdatesIfObjectChanged_def f SaveStatusUpdatesIfObjectChanged_def q split: if_splits)
  ultimately show ?thesis using assms(3) by blast
qed

lemma delete_branch_keeps:
  assumes "others_keep P cl" "handleDelete e cl site w = (r, w')" "P w"
  shows "P w'"
proof -
  have bk: "P v" if "Backup_EnsureFinalBackupIsComplete md5 setref (sk_backups cl) now t u = (q, v)" "P u" for md5 setref now t u q v
  proof -
    note create = others_keepD(4)[OF assms(1) that(2)]
    from that create show ?thesis
      by (auto simp: Backup_EnsureFinalBackupIsComplete_def split: sum.splits prod.splits if_splits job_state.splits)
  qed
  have rm: "P v" if "remove_site_finalizer (sk_sites cl) t u = (q, v)" "P u" for t u q v
  proof -
    note upd = others_keepD(2)[OF assms(1) that(2)]
    from that(1) upd show ?thesis by (auto simp: remove_site_finalizer_def split: sum.splits prod.splits)
  qed
  show ?thesis
    using assms(2,3) by (auto simp: handleDelete_def split: if_splits prod.splits sum.splits
        dest: bk rm save_keeps[OF assms(1)])
qed

text \<open>What comes before the stages writes no other object.\<close>

lemma reconcile_reaches_live:
  assumes keep: "others_keep P cl" "P w" and changed: "\<not> P (snd (Site_doReconcile e cl ns name w))"
  obtains site out w2 where "cl_get (sk_sites cl) ns name w = Inr site" "om_deletion (st_meta site) = None"
    "site_live e cl site w = (out, w2)" "\<not> P w2"
proof (cases "cl_get (sk_sites cl) ns name w")
  case (Inl err)
  with keep(2) changed show ?thesis by (simp add: Site_doReconcile_def)
next
  case (Inr site)
  have live: "om_deletion (st_meta site) = None"
  proof (rule ccontr)
    assume d: "om_deletion (st_meta site) \<noteq> None"
    have "P (snd (handleDelete e cl site w))" by (rule delete_branch_keeps[OF keep(1) prod.collapse[symmetric] keep(2)])
    with changed d show False by (simp add: Site_doReconcile_def Inr)
  qed
  note upd = others_keepD(2)[OF keep]
  have fin: "SiteFinalizerName \<in> set (om_finalizers (st_meta site))"
  proof (rule ccontr)
    assume f: "SiteFinalizerName \<notin> set (om_finalizers (st_meta site))"
    have "P (snd (appendFinalizer (sk_sites cl) site w))"
      by (auto simp: appendFinalizer_def split: sum.splits prod.splits dest: upd)
    with changed live f show False by (simp add: Site_doReconcile_def Inr SliceContainsString_iff)
  qed
  obtain out w2 where out: "site_live e cl site w = (out, w2)" by force
  have "Site_doReconcile e cl ns name w = finish_reconcile cl (out, w2)"
    using Inr live fin out by (simp add: Site_doReconcile_def SliceContainsString_iff)
  moreover have "P (snd (finish_reconcile cl (out, w2)))" if "P w2"
    using that save_keeps[OF keep(1) _ that] by (cases out) (simp_all add: finish_reconcile_def, metis prod.collapse)
  ultimately have "\<not> P w2" using changed by auto
  with Inr live out show ?thesis by (rule that)
qed

text \<open>Neither does the status, so that a call that writes one has passed the stages.\<close>

lemma live_passes_stages:
  assumes keep: "others_keep P cl" "P w" and out: "site_live e cl site w = (out, w2)" and changed: "\<not> P w2"
  shows "\<exists>site1 w1. ensureStatusIsUpToDate e cl site w = ((None, False, site1), w1) \<and>
           stages_passed e cl (resetStatusErrors site1) w1"
proof -
  obtain err ch site1 w1 where st: "ensureStatusIsUpToDate e cl site w = ((err, ch, site1), w1)" by (metis prod_cases3 surj_pair)
  have "P w1" by (rule status_keeps[OF keep(1) st keep(2)])
  have go: "err = None" "\<not> ch"
    using out st \<open>P w1\<close> changed by (auto simp: site_live_def split: if_splits)
  note del = others_keepD(3)[OF keep(1) \<open>P w1\<close>]
  have "site_stages e cl (resetStatusErrors site1) w1 = (out, w2)"
    using out st go changed by (auto simp: site_live_def Let_def split: if_splits sum.splits prod.splits dest: del)
  from site_stages_outcome[OF this, where P = P] stages_keep[OF keep(1)] \<open>P w1\<close> changed
  have "\<exists>p1 p2 p3 p4. stages_run e cl (resetStatusErrors site1) w1 p1 p2 p3 p4" by blast
  then have "stages_passed e cl (resetStatusErrors site1) w1" by (elim exE) (rule stages_run_passed)
  with st go show ?thesis by simp
qed

text \<open>
  C1. Workloads wait for their databases: if a reconcile call of the site controller changes anything
  that only the clients of deployments, services and ingresses can change, then the site is not being
  deleted, its status was up to date, and before the change the call has seen all databases, init jobs
  and migration jobs of the site complete and its config maps in place. \<open>P\<close> is any statement about
  the world that the writes of all other clients keep.
\<close>

theorem workloads_wait_for_databases:
  assumes "others_keep P cl" "P w" "\<not> P (snd (Site_doReconcile e cl ns name w))"
  shows "\<exists>site site1 w1. cl_get (sk_sites cl) ns name w = Inr site \<and> om_deletion (st_meta site) = None \<and>
           ensureStatusIsUpToDate e cl site w = ((None, False, site1), w1) \<and>
           stages_passed e cl (resetStatusErrors site1) w1"
proof -
  obtain site out w2 where site: "cl_get (sk_sites cl) ns name w = Inr site" "om_deletion (st_meta site) = None"
    and run: "site_live e cl site w = (out, w2)" "\<not> P w2"
    by (rule reconcile_reaches_live[OF assms])
  from live_passes_stages[OF assms(1,2) run] site show ?thesis by blast
qed

section \<open>A site with one service\<close>

definition toy_ready_site :: staging_site where
  "toy_ready_site =
     \<lparr>st_meta = (new_meta ''my-site'' ''ns'' [])\<lparr>om_finalizers := [SiteFinalizerName],
        om_annotations := [(StagingSiteLastSpecChangeAt, ''2023-11-14T22:13:20Z'')]\<rparr>,
      st_spec = (st_spec toy_db_site)\<lparr>sp_enabled := True, sp_services := [(''shop'', zero_service)]\<rparr>,
      st_status = (st_status toy_db_site)\<lparr>su_enabled := True, su_state := StatePending,
        su_health := WorkloadHealthIncomplete, su_last_applied := Some 1700000000000000000,
        su_services := [(''shop'', new_service_status toy_md5 toy_db_site (toy_service ''shop'' ''sh''))]\<rparr>\<rparr>"

definition toy_stage_clients :: "deployment list site_clients" where
  "toy_stage_clients =
     \<lparr>sk_configs = \<lparr>cc_service = static_client sc_meta [toy_service ''shop'' ''sh''], cc_mysql = static_client myc_meta [],
        cc_mongo = static_client moc_meta [], cc_redis = static_client rec_meta []\<rparr>,
      sk_sites = static_client st_meta [toy_ready_site], sk_mysql = static_client db_meta [],
      sk_mongo = static_client db_meta [], sk_redis = static_client rd_meta [], sk_inits = static_client di_meta [],
      sk_migrations = static_client dm_meta [], sk_backups = static_client bk_meta [], sk_config_maps = static_client cm_meta [],
      sk_deployments = mem_client dp_meta, sk_services = static_client ks_meta [],
      sk_ingresses = static_client ki_meta []\<rparr>"

lemma toy_others_keep: "others_keep P toy_stage_clients"
  by (simp add: others_keep_def writes_keep_def keeps_def toy_stage_clients_def static_client_def)

lemma toy_reconcile_deploys: "snd (Site_doReconcile toy_site_env toy_stage_clients ''ns'' ''my-site'' []) \<noteq> []"
  by code_simp

theorem workloads_wait_for_databases_witness:
  "\<exists>site1 w1. stages_passed toy_site_env toy_stage_clients (resetStatusErrors site1) w1"
  using workloads_wait_for_databases[OF toy_others_keep, of "\<lambda>w. w = []" "[]" toy_site_env "''ns''" "''my-site''"]
    toy_reconcile_deploys by blast

lemma toy_stages_run:
  "case site_stages toy_site_env toy_stage_clients toy_ready_site [] of
     (SaveStatus changed s result err, w') \<Rightarrow> err = None \<and> st_state (setSiteState s) = StateComplete
   | _ \<Rightarrow> False"
  by code_simp


end
