(* ===== verification/SiteFailures.thy ===== *)
theory SiteFailures
  imports SiteStages
begin

text \<open>
  Failures: a failed job, whatever it was for, ends in the state of the site. The site is Failed with
  a message that names the job's service, and the call is not repeated until something changes.
\<close>

lemma jobs_loop_failed:
  "\<exists>j \<in> set js. state j = JobFailed \<Longrightarrow>
   \<exists>j. j \<in> set js \<and> state j = JobFailed \<and> jobs_loop state failure js b = Inl (failure j)"
  by (induction js arbitrary: b) auto

definition failed_with :: "go_error \<Rightarrow> staging_site \<Rightarrow> bool" where
  "failed_with er site \<longleftrightarrow> st_state site = StateFailed \<and> su_error (st_status site) = error_string er"

lemma finish_final_error:
  assumes "IsControllerError er"
  shows "\<exists>s q w'. failed_with er s \<and> same_site s site \<and> cl_update_status (sk_sites cl) s w = (q, w') \<and>
     finish_reconcile cl (SaveStatus changed site result (Some er), w) =
       ((no_requeue, case q of Inl err \<Rightarrow> Some err | Inr _ \<Rightarrow> None), w')"
proof -
  let ?s = "on_status (\<lambda>s. s\<lparr>su_state := StateFailed, su_error := error_string er\<rparr>) site"
  obtain q w' where q: "cl_update_status (sk_sites cl) ?s w = (q, w')" by force
  have keep: "setSiteState ?s = ?s" by (simp add: setSiteState_def Let_def)
  have "finish_reconcile cl (SaveStatus changed site result (Some er), w) =
      ((no_requeue, case q of Inl err \<Rightarrow> Some err | Inr _ \<Rightarrow> None), w')"
    using assms IsFinal_IsControllerError[of er]
    by (simp add: finish_reconcile_def Site_SaveStatusUpdatesIfObjectChanged_def fail_if_final_def
        SaveStatusUpdatesIfObjectChanged_def keep q)
  with q show ?thesis by (intro exI[of _ ?s] exI[of _ q] exI[of _ w']) (simp add: failed_with_def)
qed

text \<open>
  C19. A failed database init job fails its site: with the databases and config maps in place, a
  reconcile call that finds a failed init job of the site writes the state Failed, with the message of
  the error for this job, which names the site and the service. The call ends without an error of its
  own and asks for no repetition; only an error of writing the status is passed on.
\<close>

theorem failed_init_job_fails_site:
  assumes "ensureDatabasesAreCreated (en_x e) cl site w = ((Inr c1, s1), w1)" "su_db_created (st_status s1)"
    and "ensureConfigsAreUpToDate (en_x e) cl s1 w1 = ((Inr c2, s2), w2)" "su_configs (st_status s2)"
    and "DbInit_EnsureJobsAreCreated (ex_md5 (en_x e)) (ex_set_ref (en_x e)) (ex_order (en_x e)) (cc_service (sk_configs cl))
           (sk_inits cl) (on_status (\<lambda>s. s\<lparr>su_db_initialised := True\<rparr>) s2) w2 = (Inr b, w3)"
    and "cl_list (sk_inits cl) (st_namespace site) [(labels_Site, st_name site)] w3 = Inr items"
    and "\<exists>j \<in> set items. dit_state (di_status j) = JobFailed"
  shows "\<exists>j s q w4. j \<in> set items \<and> dit_state (di_status j) = JobFailed \<and>
     failed_with (DatabaseInitError (dis_site (di_spec j)) (dis_service (di_spec j)) []) s \<and> same_site s site \<and>
     cl_update_status (sk_sites cl) s w3 = (q, w4) \<and>
     finish_reconcile cl (site_stages e cl site w) =
       ((no_requeue, case q of Inl err \<Rightarrow> Some err | Inr _ \<Rightarrow> None), w4)"
proof -
  have same: "same_site s2 site" and created: "su_db_created (st_status s2)"
    using created_stage(2)[OF assms(1,2)] configs_stage[OF assms(3)] assms(2) by (simp_all add: same_site_def)
  let ?fail = "\<lambda>j. DatabaseInitError (dis_site (di_spec j)) (dis_service (di_spec j)) []"
  from jobs_loop_failed[where state = "\<lambda>j. dit_state (di_status j)" and failure = ?fail and b = True, OF assms(7)]
  obtain j where j: "j \<in> set items" "dit_state (di_status j) = JobFailed"
      "jobs_loop (\<lambda>j. dit_state (di_status j)) ?fail items True = Inl (?fail j)" by blast
  have failed: "DbInit_EnsureJobsAreComplete (sk_inits cl) t w3 = Inl (?fail j)" if "same_site t s2" for t
    using that same assms(6) j(3) by (simp add: DbInit_EnsureJobsAreComplete_def same_site_def)
  obtain s3 where "ensureDatabasesAreInitialised (en_x e) cl s2 w2 = ((Inl (?fail j), s3), w3)" "same_site s3 s2"
    by (rule that[of "on_status (\<lambda>s. s\<lparr>su_db_initialised := su_db_initialised s \<and> b\<rparr>)
          (on_status (\<lambda>s. s\<lparr>su_db_initialised := True\<rparr>) s2)"])
      (simp_all only: ensureDatabasesAreInitialised_def Let_def assms(5) failed same_site_on_status same_site_refl prod.case sum.case)
  then have "site_stages e cl site w = (SaveStatus (c1 \<or> c2) s3 no_requeue (Some (?fail j)), w3)" "same_site s3 site"
    using assms(1-4) created same by (simp_all add: site_stages_def site_database_stages_def Let_def same_site_def)
  then show ?thesis
    using finish_final_error[of "?fail j" s3 cl w3 "c1 \<or> c2" no_requeue] j(1,2) by (fastforce simp: same_site_def)
qed


text \<open>A site whose database is complete and whose init job has failed.\<close>

definition toy_init_service :: service_config where
  "toy_init_service = (toy_service ''shop'' ''sh'')\<lparr>sc_db_init_pod_spec :=
     Some \<lparr>ps_containers = [], ps_restart_policy = ''Never'', ps_rest = []\<rparr>\<rparr>"

definition toy_failing_site :: staging_site where
  "toy_failing_site = toy_ready_site\<lparr>st_spec := (st_spec toy_ready_site)
     \<lparr>sp_services := [(''shop'', zero_service\<lparr>svc_mysql_env := ''my1''\<rparr>)]\<rparr>\<rparr>"

definition toy_failed_init :: db_init_job where
  "toy_failed_init = (projr (DbInit_getPopulatedJob toy_md5 toy_set_ref toy_failing_site toy_init_service ''my1'' []))
     \<lparr>di_status := \<lparr>dit_state = JobFailed, dit_not_found = 0, dit_deadline = None\<rparr>\<rparr>"

definition toy_failing_clients :: "deployment list site_clients" where
  "toy_failing_clients = toy_stage_clients
     \<lparr>sk_configs := (sk_configs toy_stage_clients)\<lparr>cc_service := static_client sc_meta [toy_init_service]\<rparr>,
      sk_mysql := static_client db_meta
        [(projr (Mysql_getPopulatedDatabase toy_md5 toy_set_ref toy_failing_site toy_init_service ''my1''))
           \<lparr>db_state := TaskComplete\<rparr>],
      sk_inits := static_client di_meta [toy_failed_init]\<rparr>"

lemma toy_failing_run:
  "case ensureDatabasesAreCreated toy_externals toy_failing_clients toy_failing_site [] of
     ((Inl er, s1), w1) \<Rightarrow> False
   | ((Inr c1, s1), w1) \<Rightarrow> su_db_created (st_status s1) \<and>
       (case ensureConfigsAreUpToDate toy_externals toy_failing_clients s1 w1 of
          ((Inl er, s2), w2) \<Rightarrow> False
        | ((Inr c2, s2), w2) \<Rightarrow> su_configs (st_status s2) \<and>
            (case DbInit_EnsureJobsAreCreated toy_md5 toy_set_ref (\<lambda>l ks. ks) (cc_service (sk_configs toy_failing_clients))
                    (sk_inits toy_failing_clients) (on_status (\<lambda>s. s\<lparr>su_db_initialised := True\<rparr>) s2) w2 of
               (Inl er, w3) \<Rightarrow> False
             | (Inr b, w3) \<Rightarrow> w3 = []))"
  by code_simp

theorem failed_init_job_fails_site_witness:
  "\<exists>s r w4. failed_with (DatabaseInitError ''my-site'' ''shop'' []) s \<and>
     finish_reconcile toy_failing_clients (site_stages toy_site_env toy_failing_clients toy_failing_site []) = ((no_requeue, r), w4)"
proof -
  let ?cl = "toy_failing_clients"
  obtain r1 s1 w1 where 1: "ensureDatabasesAreCreated toy_externals ?cl toy_failing_site [] = ((r1, s1), w1)" by (metis surj_pair)
  obtain r2 s2 w2 where 2: "ensureConfigsAreUpToDate toy_externals ?cl s1 w1 = ((r2, s2), w2)" by (metis surj_pair)
  obtain r3 w3 where 3: "DbInit_EnsureJobsAreCreated toy_md5 toy_set_ref (\<lambda>l ks. ks) (cc_service (sk_configs ?cl))
      (sk_inits ?cl) (on_status (\<lambda>s. s\<lparr>su_db_initialised := True\<rparr>) s2) w2 = (r3, w3)" by force
  note run = toy_failing_run[unfolded 1 prod.case]
  obtain c1 where c1: "r1 = Inr c1" "su_db_created (st_status s1)" using run by (cases r1) simp_all
  obtain c2 where c2: "r2 = Inr c2" "su_configs (st_status s2)" using run by (cases r2) (simp_all add: c1 2)
  obtain b where b: "r3 = Inr b" "w3 = []" using run by (cases r3) (simp_all add: c1 c2 2 3)
  have x: "en_x toy_site_env = toy_externals" "ex_md5 toy_externals = toy_md5" "ex_set_ref toy_externals = toy_set_ref"
    "ex_order toy_externals = (\<lambda>l ks. ks)"
    by (simp_all add: toy_site_env_def toy_externals_def)
  have list: "cl_list (sk_inits ?cl) (st_namespace toy_failing_site) [(labels_Site, st_name toy_failing_site)] [] = Inr [toy_failed_init]"
    and job: "dit_state (di_status toy_failed_init) = JobFailed" "dis_site (di_spec toy_failed_init) = ''my-site''"
      "dis_service (di_spec toy_failed_init) = ''shop''"
    by code_simp+
  have failed: "\<exists>j \<in> set [toy_failed_init]. dit_state (di_status j) = JobFailed" by (simp add: job)
  note fails = failed_init_job_fails_site[where e = toy_site_env and cl = ?cl, unfolded x, OF 1[unfolded c1(1)] c1(2)
      2[unfolded c2(1)] c2(2) 3[unfolded b] list failed]
  show ?thesis
    by (insert fails) (elim exE conjE, simp only: set_simps singleton_iff job, intro exI conjI, (assumption | rule refl)+)
qed

end
