(* ===== verification/WorkloadProperties.thy ===== *)
theory WorkloadProperties
  imports SiteHandlerProperties
begin

text \<open>
  What the workload and networking handlers guarantee: the reported health, the routing from a
  service to the pods of one site, and the removal of everything that runs when a site is disabled.
\<close>

section \<open>Health\<close>

lemma classify_deployments_keys:
  "map_of (dn_create p) k = None \<Longrightarrow> map_of (dn_create (classify_deployments ds p)) k = None"
  by (induction ds arbitrary: p) (auto simp: Let_def gomap_simps split: option.splits)

lemma classify_deployments_healthy:
  assumes "distinct (map dp_service ds)"
  shows "dn_healthy (classify_deployments ds p) \<longleftrightarrow> dn_healthy p \<and>
     (\<forall>d \<in> set ds. \<forall>e. map_of (dn_create p) (dp_service d) = Some e \<longrightarrow>
        dp_replicas e = Some (ds_ready_replicas (dp_status d)))"
  using assms
proof (induction ds arbitrary: p)
  case (Cons d ds)
  have other: "dp_service d' \<noteq> dp_service d" if "d' \<in> set ds" for d' by (rule distinct_head_image[OF Cons.prems that])
  show ?case
  proof (cases "map_of (dn_create p) (dp_service d)")
    case None
    with Cons show ?thesis by simp
  next
    case (Some e)
    let ?p = "p\<lparr>dn_update := AList.update (dp_service d) (updateDeploymentFromOther d e, d) (dn_update p),
        dn_site := set_deployment_status (dp_service d) (dp_status (updateDeploymentFromOther d e)) (dn_site p),
        dn_healthy := dn_healthy p \<and> dp_replicas (updateDeploymentFromOther d e) =
          Some (ds_ready_replicas (dp_status (updateDeploymentFromOther d e))),
        dn_create := AList.delete (dp_service d) (dn_create p)\<rparr>"
    have u: "dp_replicas (updateDeploymentFromOther d e) = dp_replicas e" "dp_status (updateDeploymentFromOther d e) = dp_status d"
      by (simp_all add: updateDeploymentFromOther_def)
    have "dn_healthy (classify_deployments (d # ds) p) = dn_healthy (classify_deployments ds ?p)"
      by (simp add: Some Let_def)
    also have "\<dots> \<longleftrightarrow> (dn_healthy p \<and> dp_replicas e = Some (ds_ready_replicas (dp_status d))) \<and>
        (\<forall>d' \<in> set ds. \<forall>e. map_of (dn_create p) (dp_service d') = Some e \<longrightarrow>
           dp_replicas e = Some (ds_ready_replicas (dp_status d')))"
      using Cons.IH[of ?p] Cons.prems other by (simp add: u AList.delete_conv')
    finally show ?thesis using Some by auto
  qed
qed simp

text \<open>
  C26. The health of an enabled site is what its deployments report: after a pass of the workload
  handler it is Healthy exactly when every deployment that exists for a service of the site has as many
  ready replicas as the spec now asks for, and Unhealthy otherwise, also when writing fails.
\<close>

theorem workload_health_exact:
  assumes "su_enabled (st_status site)"
    and "cl_list dps (st_namespace site) [(labels_Site, st_name site)] w = Inr items" "distinct (map dp_service items)"
    and "build_expected (service_deployment x cc site w) (go_range (ex_order x) 50 (site_services site)) [] = Inr expected"
  shows "su_health (st_status (snd (fst (ensureDeploymentsAreUpToDate x cc dps site w)))) =
     (if \<forall>d \<in> set items. \<forall>e. map_of expected (dp_service d) = Some e \<longrightarrow>
           dp_replicas e = Some (ds_ready_replicas (dp_status d))
      then WorkloadHealthHealthy else WorkloadHealthUnhealthy)"
  using assms
  by (auto simp: ensureDeploymentsAreUpToDate_def Let_def set_health_def classify_deployments_healthy
      split: prod.splits option.splits)

text \<open>
  A site none of whose deployments exists yet is reported as Healthy: the pass that creates the
  first deployments, with no pod running, sets the health so.
\<close>

theorem health_without_deployments:
  assumes "su_enabled (st_status site)" "cl_list dps (st_namespace site) [(labels_Site, st_name site)] w = Inr []"
    and "build_expected (service_deployment x cc site w) (go_range (ex_order x) 50 (site_services site)) [] = Inr expected"
  shows "su_health (st_status (snd (fst (ensureDeploymentsAreUpToDate x cc dps site w)))) = WorkloadHealthHealthy"
  using assms
  by (auto simp: ensureDeploymentsAreUpToDate_def Let_def set_health_def split: prod.splits option.splits)


section \<open>Routing\<close>

text \<open>
  C27. Services route to the pods of their own site and service only: the selector of a generated
  service matches the pod labels of a generated deployment exactly when both were generated for sites
  of the same name and for the same service configuration.
\<close>

theorem service_selects_own_pods:
  assumes "createService x cc site config w = Inr svc" "createDeployment x cc' site' config' w' = Inr d"
  shows "label_match (sv_selector (ks_spec svc)) (dp_pod_labels d) \<longleftrightarrow>
           st_name site = st_name site' \<and> sc_name config = sc_name config'"
proof -
  have "sv_selector (ks_spec svc) = [(labels_Site, st_name site), (labels_Service, sc_name config)]"
    using assms(1) by (auto simp: createService_def Let_def split: sum.splits option.splits)
  moreover have "dp_pod_labels d = [(labels_Site, st_name site'), (labels_Service, sc_name config')]"
    using assms(2) by (auto simp: createDeployment_def Let_def split: sum.splits)
  ultimately show ?thesis by auto
qed


section \<open>Disabled sites\<close>

lemma write_list_keeps_view:
  assumes "\<And>x u. f (snd (del x u)) = f u"
  shows "write_list del xs w = (r, w') \<Longrightarrow> f w' = f w"
proof (induction xs arbitrary: w)
  case (Cons x xs)
  then show ?case using assms[of x w] by (auto split: prod.splits sum.splits)
qed simp

definition of_others :: "('o \<Rightarrow> object_meta) \<Rightarrow> staging_site \<Rightarrow> 'o list \<Rightarrow> 'o list" where
  "of_others meta site xs = filter (\<lambda>x. \<not> selects meta (st_namespace site) [(labels_Site, st_name site)] x) xs"

lemma delete_all_selected:
  assumes "kube_store meta cl objs" "distinct (map (obj_key meta) (objs w))"
    and "\<forall>x \<in> set (objs w). om_finalizers (meta x) = []"
  shows "\<exists>w'. write_list (cl_delete cl) (filter (selects meta (st_namespace site) [(labels_Site, st_name site)]) (objs w)) w = (None, w') \<and>
           objs w' = of_others meta site (objs w)"
proof -
  let ?sel = "selects meta (st_namespace site) [(labels_Site, st_name site)]"
  obtain w' where w': "write_list (cl_delete cl) (filter ?sel (objs w)) w = (None, w')"
      "objs w' = filter (\<lambda>y. obj_key meta y \<notin> obj_key meta ` set (filter ?sel (objs w))) (objs w)"
    using delete_list[OF assms(1), of "filter ?sel (objs w)" w] assms(3) by auto
  have inj: "inj_on (obj_key meta) (set (objs w))" using assms(2) by (simp add: distinct_map)
  have "obj_key meta y \<in> obj_key meta ` set (filter ?sel (objs w)) \<longleftrightarrow> ?sel y" if "y \<in> set (objs w)" for y
    using inj_on_image_mem_iff[OF inj that, of "set (filter ?sel (objs w))"] that by auto
  then have "objs w' = of_others meta site (objs w)"
    unfolding w'(2) of_others_def by (intro filter_cong) auto
  with w'(1) show ?thesis by blast
qed

text \<open>
  C28. A disabled site keeps nothing running: over a working API server, a pass of the workload handler
  removes exactly the deployments of the site, a pass of the networking handler exactly its services
  and ingresses, both without an error and both reporting their part as complete.
\<close>

theorem disabled_site_has_no_workloads:
  assumes "\<not> su_enabled (st_status site)"
    and stores: "kube_store dp_meta dps objsD" "kube_store ks_meta svcs objsS" "kube_store ki_meta ings objsI"
    and keys: "distinct (map (obj_key dp_meta) (objsD w))" "distinct (map (obj_key ks_meta) (objsS w))"
      "distinct (map (obj_key ki_meta) (objsI w))"
    and fins: "\<forall>d \<in> set (objsD w). om_finalizers (dp_meta d) = []" "\<forall>s \<in> set (objsS w). om_finalizers (ks_meta s) = []"
      "\<forall>i \<in> set (objsI w). om_finalizers (ki_meta i) = []"
    and apart: "\<And>s u. objsI (snd (cl_delete svcs s u)) = objsI u" "\<And>i u. objsS (snd (cl_delete ings i u)) = objsS u"
  shows "(\<exists>c site' w'. EnsureWorkloadObjectsAreUpToDate x cc dps site w = ((Inr c, site'), w') \<and>
            su_workloads (st_status site') \<and> objsD w' = of_others dp_meta site (objsD w)) \<and>
         (\<exists>c site' w'. EnsureNetworkingObjectsAreUpToDate x cc svcs ings site w = ((Inr c, site'), w') \<and>
            su_networking (st_status site') \<and> objsS w' = of_others ks_meta site (objsS w) \<and>
            objsI w' = of_others ki_meta site (objsI w))"
proof
  obtain wd where wd: "write_list (cl_delete dps) (filter (selects dp_meta (st_namespace site) [(labels_Site, st_name site)]) (objsD w)) w = (None, wd)"
      "objsD wd = of_others dp_meta site (objsD w)"
    using delete_all_selected[OF stores(1) keys(1) fins(1)] by blast
  have "ensureDeploymentsAreUpToDate x cc dps site w = ((Inr True, site), wd)"
    unfolding ensureDeploymentsAreUpToDate_def kube_storeD(1)[OF stores(1)] sum.case if_P[OF assms(1)] wd(1) by simp
  then show "\<exists>c site' w'. EnsureWorkloadObjectsAreUpToDate x cc dps site w = ((Inr c, site'), w') \<and>
      su_workloads (st_status site') \<and> objsD w' = of_others dp_meta site (objsD w)"
    by (simp add: EnsureWorkloadObjectsAreUpToDate_def wd(2))
  obtain ws where ws: "write_list (cl_delete svcs) (filter (selects ks_meta (st_namespace site) [(labels_Site, st_name site)]) (objsS w)) w = (None, ws)"
      "objsS ws = of_others ks_meta site (objsS w)"
    using delete_all_selected[OF stores(2) keys(2) fins(2)] by blast
  have i: "objsI ws = objsI w" by (rule write_list_keeps_view[of objsI "cl_delete svcs", OF apart(1) ws(1)])
  obtain wi where wi: "write_list (cl_delete ings) (filter (selects ki_meta (st_namespace site) [(labels_Site, st_name site)]) (objsI ws)) ws = (None, wi)"
      "objsI wi = of_others ki_meta site (objsI ws)"
    using delete_all_selected[OF stores(3), of ws] keys(3) fins(3) unfolding i by blast
  have s: "objsS wi = objsS ws" by (rule write_list_keeps_view[of objsS "cl_delete ings", OF apart(2) wi(1)])
  have "ensureServicesAreUpToDate x cc svcs site w = (Inr True, ws)"
    unfolding ensureServicesAreUpToDate_def kube_storeD(1)[OF stores(2)] sum.case if_P[OF assms(1)] ws(1) by simp
  moreover have "ensureIngressesAreUpToDate x cc ings site ws = (Inr True, wi)"
    unfolding ensureIngressesAreUpToDate_def kube_storeD(1)[OF stores(3)] sum.case if_P[OF assms(1)] wi(1) by simp
  ultimately show "\<exists>c site' w'. EnsureNetworkingObjectsAreUpToDate x cc svcs ings site w = ((Inr c, site'), w') \<and>
      su_networking (st_status site') \<and> objsS w' = of_others ks_meta site (objsS w) \<and> objsI w' = of_others ki_meta site (objsI w)"
    using ws(2) wi(2) i s by (simp add: EnsureNetworkingObjectsAreUpToDate_def)
qed



section \<open>A site with one service\<close>

definition toy_enabled_site :: staging_site where
  "toy_enabled_site = toy_db_site\<lparr>st_status := (st_status toy_db_site)\<lparr>su_enabled := True\<rparr>\<rparr>"

lemma toy_enabled_site_simps:
  "st_name toy_enabled_site = ''my-site''" "st_namespace toy_enabled_site = ''ns''" "st_meta toy_enabled_site = st_meta toy_db_site"
  "su_enabled (st_status toy_enabled_site)"
  "site_services toy_enabled_site = site_services toy_db_site"
  by (simp_all add: toy_enabled_site_def)

definition toy_shop_labels :: "string gomap" where
  "toy_shop_labels = [(labels_Site, ''my-site''), (labels_Service, ''shop'')]"

definition toy_deployment :: deployment where
  "toy_deployment =
     \<lparr>dp_meta = new_meta (MakeDeploymentName toy_md5 toy_enabled_site toy_env_service) ''ns'' toy_shop_labels,
      dp_replicas = Some 1, dp_selector = toy_shop_labels, dp_pod_labels = toy_shop_labels,
      dp_pod = SetExtraEnvVarsOnPodSpec toy_sort (\<lambda>l ks. ks) 40
        (UpdatePodSpecWithOverrides (sc_deployment_pod_spec toy_env_service) toy_enabled_site toy_env_service)
        toy_enabled_site toy_env_service,
      dp_status = zero_deployment_status\<rparr>"

definition toy_deployments :: "32 word \<Rightarrow> deployment list" where
  "toy_deployments ready = [toy_deployment\<lparr>dp_status := \<lparr>ds_ready_replicas = ready, ds_rest = []\<rparr>\<rparr>]"

lemma toy_deployment_created:
  "createDeployment toy_externals toy_config_clients toy_enabled_site toy_env_service w = Inr toy_deployment"
proof -
  have "svc_replicas (site_service_of toy_enabled_site ''shop'') = 0"
    by (simp add: site_service_of_def lookup_or_def toy_enabled_site_simps zero_service_def)
  moreover have "ex_sort toy_externals = toy_sort" by (simp add: toy_externals_def)
  ultimately show ?thesis
    by (simp add: createDeployment_def Let_def toy_config_load toy_replace toy_externals_simps toy_env_service_name
        toy_enabled_site_simps(1-3) toy_deployment_def toy_shop_labels_def)
qed

lemma toy_env_service_get: "cl_get (cc_service toy_config_clients) ''ns'' ''shop'' w = Inr toy_env_service"
  by (simp add: toy_config_clients_def static_client_def obj_key_def toy_env_service_def toy_service_def)

lemma toy_expected_deployments:
  "build_expected (service_deployment toy_externals toy_config_clients toy_enabled_site w)
     (go_range (ex_order toy_externals) 50 (site_services toy_enabled_site)) [] = Inr [(''shop'', toy_deployment)]"
  by (simp add: toy_externals_simps toy_enabled_site_simps go_range_id service_deployment_def toy_env_service_get
      toy_deployment_created)

lemma toy_deployment_listed:
  "cl_list (mem_client dp_meta) (st_namespace toy_enabled_site) [(labels_Site, st_name toy_enabled_site)] (toy_deployments 1) =
     Inr (toy_deployments 1)"
  "map dp_service (toy_deployments 1) = [''shop'']" "dp_replicas toy_deployment = Some 1"
  by (simp_all add: mem_client_def toy_deployments_def selects_def toy_deployment_def toy_enabled_site_simps toy_shop_labels_def
      dp_service_def label_of_def lookup_or_def)

theorem workload_health_exact_witness:
  "su_health (st_status (snd (fst (ensureDeploymentsAreUpToDate toy_externals toy_config_clients (mem_client dp_meta)
     toy_enabled_site (toy_deployments 1))))) = WorkloadHealthHealthy"
proof -
  have "distinct (map dp_service (toy_deployments 1))" unfolding toy_deployment_listed(2) by simp
  note health = workload_health_exact[OF toy_enabled_site_simps(4) toy_deployment_listed(1) this toy_expected_deployments]
  have "\<forall>d \<in> set (toy_deployments 1). \<forall>e. map_of [(''shop'', toy_deployment)] (dp_service d) = Some e \<longrightarrow>
      dp_replicas e = Some (ds_ready_replicas (dp_status d))"
    by (simp add: toy_deployments_def toy_deployment_listed(3))
  then show ?thesis unfolding health by simp
qed

theorem health_without_deployments_witness:
  "su_health (st_status (snd (fst (ensureDeploymentsAreUpToDate toy_externals toy_config_clients (mem_client dp_meta)
     toy_enabled_site [])))) = WorkloadHealthHealthy"
  by (rule health_without_deployments[OF toy_enabled_site_simps(4) _ toy_expected_deployments])
    (simp add: mem_client_def)

definition toy_routed_service :: service_config where
  "toy_routed_service = toy_env_service\<lparr>sc_service_spec := Some \<lparr>sv_selector = [], sv_rest = []\<rparr>\<rparr>"

definition toy_kube_service :: kube_service where
  "toy_kube_service =
     \<lparr>ks_meta = new_meta (MakeServiceName toy_md5 toy_enabled_site toy_routed_service) ''ns'' toy_shop_labels,
      ks_spec = \<lparr>sv_selector = toy_shop_labels, sv_rest = []\<rparr>\<rparr>"

lemma toy_kube_service_created:
  "createService toy_externals toy_config_clients toy_enabled_site toy_routed_service w = Inr toy_kube_service"
proof -
  have n: "sc_name toy_routed_service = ''shop''" "sc_service_spec toy_routed_service = Some \<lparr>sv_selector = [], sv_rest = []\<rparr>"
    by (simp_all add: toy_routed_service_def toy_env_service_def)
  have r: "ReplaceTemplateVariablesInServiceSpec (ex_service_codec toy_externals) (\<lambda>l ks. ks) l spec ts = Inr spec" for l spec ts
    by (simp add: ReplaceTemplateVariablesInServiceSpec_def replace_in_object_def toy_externals_def
        GetUnresolvedTemplatesFromString_def)
  show ?thesis
    by (simp add: createService_def Let_def toy_config_load n r toy_externals_simps toy_enabled_site_simps(1-3) toy_kube_service_def
        toy_shop_labels_def)
qed

theorem service_selects_own_pods_witness:
  "label_match (sv_selector (ks_spec toy_kube_service)) (dp_pod_labels toy_deployment)"
proof -
  have "sc_name toy_routed_service = sc_name toy_env_service" by (simp add: toy_routed_service_def)
  then show ?thesis using service_selects_own_pods[OF toy_kube_service_created toy_deployment_created] by simp
qed

definition toy_running :: "deployment list \<times> kube_service list \<times> kube_ingress list" where
  "toy_running = (toy_deployments 1, [toy_kube_service], [])"

theorem disabled_site_has_no_workloads_witness:
  "\<exists>c site' w'. EnsureNetworkingObjectsAreUpToDate toy_externals toy_config_clients (on_second (on_first (mem_client ks_meta)))
      (on_second (on_second (mem_client ki_meta))) toy_db_site toy_running = ((Inr c, site'), w') \<and> fst (snd w') = []"
proof -
  have off: "\<not> su_enabled (st_status toy_db_site)" by code_simp
  have stores: "kube_store dp_meta (on_first (mem_client dp_meta)) (fst :: _ \<times> kube_service list \<times> kube_ingress list \<Rightarrow> _)"
    "kube_store ks_meta (on_second (on_first (mem_client ks_meta))) (\<lambda>w :: deployment list \<times> _ \<times> kube_ingress list. fst (snd w))"
    "kube_store ki_meta (on_second (on_second (mem_client ki_meta))) (\<lambda>w :: deployment list \<times> kube_service list \<times> _. snd (snd w))"
    by (auto simp: kube_store_def on_first_def on_second_def mem_client_def)
  have keys: "distinct (map (obj_key dp_meta) (fst toy_running))" "distinct (map (obj_key ks_meta) (fst (snd toy_running)))"
    "distinct (map (obj_key ki_meta) (snd (snd toy_running)))"
    by (simp_all add: toy_running_def toy_deployments_def)
  have fins: "\<forall>d \<in> set (fst toy_running). om_finalizers (dp_meta d) = []"
    "\<forall>s \<in> set (fst (snd toy_running)). om_finalizers (ks_meta s) = []" "\<forall>i \<in> set (snd (snd toy_running)). om_finalizers (ki_meta i) = []"
    by (simp_all add: toy_running_def toy_deployments_def toy_deployment_def toy_kube_service_def)
  have gone: "of_others ks_meta toy_db_site (fst (snd toy_running)) = []"
    by (simp add: of_others_def toy_running_def toy_kube_service_def selects_def toy_shop_labels_def)
  show ?thesis
    by (insert disabled_site_has_no_workloads[OF off stores keys fins, of toy_externals toy_config_clients, THEN conjunct2, unfolded gone])
      (simp add: on_first_def on_second_def, blast)
qed

end
