(* ===== verification/Webhooks.thy ===== *)
theory Webhooks
  imports SiteTemplate KubernetesLists SiteController
begin

text \<open>
  \<^verbatim>\<open>handlers/webhook\<close>: the admission handlers. A response allows the request, replaces the object,
  denies with a message, or reports an error with an HTTP status. Decoding and encoding of the request
  are results that a handler is given. Listing with pages may not end; the handler of the sites is
  \<open>None\<close> then.
\<close>

datatype 'o admission_response =
    Allowed
  | Patched 'o
  | Denied string
  | Errored nat go_error

text \<open>The HTTP status codes 400, 422 and 500.\<close>

definition StatusBadRequest :: nat where "StatusBadRequest = 400"
definition StatusUnprocessableEntity :: nat where "StatusUnprocessableEntity = 422"
definition StatusInternalServerError :: nat where "StatusInternalServerError = 500"


section \<open>Sites\<close>

text \<open>The four paged lists of a namespace.\<close>

record paged_configs =
  pc_services :: "string \<Rightarrow> string \<Rightarrow> go_error + service_config page"
  pc_mysql :: "string \<Rightarrow> string \<Rightarrow> go_error + mysql_config page"
  pc_mongo :: "string \<Rightarrow> string \<Rightarrow> go_error + mongo_config page"
  pc_redis :: "string \<Rightarrow> string \<Rightarrow> go_error + redis_config page"

definition set_site_services :: "site_service gomap \<Rightarrow> staging_site \<Rightarrow> staging_site" where
  "set_site_services services site = site\<lparr>st_spec := (st_spec site)\<lparr>sp_services := services\<rparr>\<rparr>"

definition include_all_services :: "order \<Rightarrow> service_config gomap \<Rightarrow> staging_site \<Rightarrow> staging_site" where
  "include_all_services ord serviceConfigs site =
     (if sp_include_all (st_spec site)
      then set_site_services
             (fold (\<lambda>nc services. AList.update (sc_name (snd nc)) (lookup_or zero_service services (sc_name (snd nc))) services)
                (go_range ord 70 serviceConfigs) (site_services site)) site
      else site)"

definition default_service :: "service_config \<Rightarrow> site_service \<Rightarrow> site_service" where
  "default_service config s =
     s\<lparr>svc_image_tag := (if svc_image_tag s = [] then ''latest'' else svc_image_tag s),
       svc_init_source := (if svc_init_source s = [] then ''master'' else svc_init_source s),
       svc_mongo_env := (if svc_mongo_env s = [] then sc_default_mongo config else svc_mongo_env s),
       svc_mysql_env := (if svc_mysql_env s = [] then sc_default_mysql config else svc_mysql_env s),
       svc_redis_env := (if svc_redis_env s = [] then sc_default_redis config else svc_redis_env s)\<rparr>"

record used_names =
  un_mongo :: "bool gomap"
  un_mysql :: "bool gomap"
  un_redis :: "bool gomap"
  un_services :: "string list"

text \<open>
  The one-valued lookup of a missing environment yields a configuration without a name, which is what
  the source tests.
\<close>

definition invalid_environment :: "string \<Rightarrow> string \<Rightarrow> string \<Rightarrow> string" where
  "invalid_environment kind environment service =
     ''Invalid '' @ kind @ '' environment '' @ [CHR 0x27] @ environment @ [CHR 0x27] @ '' in service '' @
     [CHR 0x27] @ service @ [CHR 0x27]"

definition environment_name :: "('c \<Rightarrow> object_meta) \<Rightarrow> 'c gomap \<Rightarrow> string \<Rightarrow> string" where
  "environment_name meta configs name = (case map_of configs name of None \<Rightarrow> [] | Some c \<Rightarrow> om_name (meta c))"

fun check_services ::
  "service_config gomap \<Rightarrow> mysql_config gomap \<Rightarrow> mongo_config gomap \<Rightarrow> redis_config gomap \<Rightarrow>
   site_service gomap \<Rightarrow> site_service gomap \<Rightarrow> used_names \<Rightarrow> string + site_service gomap \<times> used_names" where
  "check_services cfgs mysqls mongos rediss [] services used = Inr (services, used)"
| "check_services cfgs mysqls mongos rediss (ns # nss) services used =
     (let name = fst ns; used = used\<lparr>un_services := un_services used @ [name]\<rparr>
      in case map_of cfgs name of
           None \<Rightarrow> Inl (''The service config '' @ [CHR 0x27] @ name @ [CHR 0x27] @ '' doesn'' @ [CHR 0x27] @ ''t exist'')
         | Some config \<Rightarrow>
             let s = default_service config (snd ns)
             in if svc_mongo_env s \<noteq> [] \<and> environment_name moc_meta mongos (svc_mongo_env s) = []
                then Inl (invalid_environment ''mongo'' (svc_mongo_env s) name)
                else let used = (if svc_mongo_env s = [] then used
                                 else used\<lparr>un_mongo := AList.update (svc_mongo_env s) True (un_mongo used)\<rparr>)
                in if svc_mysql_env s \<noteq> [] \<and> environment_name myc_meta mysqls (svc_mysql_env s) = []
                then Inl (invalid_environment ''mysql'' (svc_mysql_env s) name)
                else let used = (if svc_mysql_env s = [] then used
                                 else used\<lparr>un_mysql := AList.update (svc_mysql_env s) True (un_mysql used)\<rparr>)
                in if svc_redis_env s \<noteq> [] \<and> environment_name rec_meta rediss (svc_redis_env s) = []
                then Inl (invalid_environment ''redis'' (svc_redis_env s) name)
                else let used = (if svc_redis_env s = [] then used
                                 else used\<lparr>un_redis := AList.update (svc_redis_env s) True (un_redis used)\<rparr>)
                in check_services cfgs mysqls mongos rediss nss (AList.update name s services) used)"

definition updatePrefixedLabels :: "staging_site \<Rightarrow> string \<Rightarrow> string list \<Rightarrow> staging_site" where
  "updatePrefixedLabels site pre values =
     site\<lparr>st_meta := (st_meta site)\<lparr>om_labels :=
       fold (\<lambda>v labels. if v = [] then labels else AList.update (pre @ v) ''true'' labels) values
         (filter (\<lambda>kv. \<not> prefix pre (fst kv)) (om_labels (st_meta site)))\<rparr>\<rparr>"

definition label_site :: "order \<Rightarrow> used_names \<Rightarrow> staging_site \<Rightarrow> staging_site" where
  "label_site ord used site =
     (let site = updatePrefixedLabels site labels_MongoEnvironmentsPrefix (GetKeysFromStringBoolMap ord 72 (un_mongo used));
          site = updatePrefixedLabels site labels_MysqlEnvironmentsPrefix (GetKeysFromStringBoolMap ord 73 (un_mysql used));
          site = updatePrefixedLabels site labels_RedisEnvironmentsPrefix (GetKeysFromStringBoolMap ord 74 (un_redis used))
      in updatePrefixedLabels site labels_ServicesPrefix (un_services used))"

definition no_used_names :: used_names where
  "no_used_names = \<lparr>un_mongo = [], un_mysql = [], un_redis = [], un_services = []\<rparr>"

text \<open>The part of the handler after the lists; \<open>encode\<close> is the error of encoding, if any.\<close>

definition admit_site ::
  "order \<Rightarrow> (staging_site \<Rightarrow> go_error option) \<Rightarrow> service_config gomap \<Rightarrow> mysql_config gomap \<Rightarrow>
   mongo_config gomap \<Rightarrow> redis_config gomap \<Rightarrow> staging_site \<Rightarrow> staging_site admission_response" where
  "admit_site ord encode cfgs mysqls mongos rediss site =
     (let site = include_all_services ord cfgs site
      in if site_services site = [] then Denied ''There are no services defined in the site''
         else case check_services cfgs mysqls mongos rediss (go_range ord 71 (site_services site)) (site_services site)
                     no_used_names of
                Inl message \<Rightarrow> Denied message
              | Inr (services, used) \<Rightarrow>
                  let site = label_site ord used (set_site_services services site)
                  in case encode site of Some err \<Rightarrow> Errored StatusInternalServerError err | None \<Rightarrow> Patched site)"

definition on_list :: "(go_error + 'a) option \<Rightarrow> ('a \<Rightarrow> 'o admission_response option) \<Rightarrow> 'o admission_response option" where
  "on_list r k = (case r of None \<Rightarrow> None | Some (Inl err) \<Rightarrow> Some (Errored StatusInternalServerError err) | Some (Inr m) \<Rightarrow> k m)"

definition StagingsiteHandler_Handle ::
  "order \<Rightarrow> (staging_site \<Rightarrow> go_error option) \<Rightarrow> paged_configs \<Rightarrow> go_error + staging_site \<Rightarrow>
   staging_site admission_response option" where
  "StagingsiteHandler_Handle ord encode pages decoded =
     (case decoded of
        Inl err \<Rightarrow> Some (Errored StatusBadRequest err)
      | Inr site \<Rightarrow>
          let ns = st_namespace site
          in on_list (GetConfigsInNamespace (pc_services pages ns) sc_name) (\<lambda>cfgs.
             on_list (GetConfigsInNamespace (pc_mysql pages ns) (\<lambda>c. om_name (myc_meta c))) (\<lambda>mysqls.
             on_list (GetConfigsInNamespace (pc_mongo pages ns) (\<lambda>c. om_name (moc_meta c))) (\<lambda>mongos.
             on_list (GetConfigsInNamespace (pc_redis pages ns) (\<lambda>c. om_name (rec_meta c))) (\<lambda>rediss.
               Some (admit_site ord encode cfgs mysqls mongos rediss site))))))"


section \<open>Deletion of configurations\<close>

text \<open>
  The deletion handlers of the three environment types are one code over a label prefix and an index,
  the one of the services stops after the sites.
\<close>

definition sites_using ::
  "('w, staging_site) client \<Rightarrow> string \<Rightarrow> string \<Rightarrow> string \<Rightarrow> 'w \<Rightarrow> go_error + staging_site list" where
  "sites_using sites pre ns name w = cl_list sites ns [(pre @ name, ''true'')] w"

definition environment_delete ::
  "string \<Rightarrow> string \<Rightarrow> ('w, staging_site) client \<Rightarrow> ('w, service_config) client \<Rightarrow> string \<Rightarrow> string \<Rightarrow> 'w \<Rightarrow>
   unit admission_response" where
  "environment_delete pre index sites cfgs ns name w =
     (case sites_using sites pre ns name w of
        Inl err \<Rightarrow> Errored StatusInternalServerError err
      | Inr siteList \<Rightarrow>
          if siteList \<noteq> []
          then Denied (''There are sites using this environment: '' @ show_slice (map st_name siteList))
          else (case cl_list_field cfgs ns index name w of
                  Inl err \<Rightarrow> Errored StatusInternalServerError err
                | Inr serviceList \<Rightarrow>
                    if serviceList \<noteq> []
                    then Denied (''There are services using this environment as a default: '' @
                           show_slice (map sc_name serviceList))
                    else Allowed))"

definition MongoConfigDeleteHandler_Handle ::
  "('w, staging_site) client \<Rightarrow> ('w, service_config) client \<Rightarrow> string \<Rightarrow> string \<Rightarrow> 'w \<Rightarrow> unit admission_response" where
  "MongoConfigDeleteHandler_Handle = environment_delete labels_MongoEnvironmentsPrefix index_DefaultMongoEnvironment"

definition MysqlConfigDeleteHandler_Handle ::
  "('w, staging_site) client \<Rightarrow> ('w, service_config) client \<Rightarrow> string \<Rightarrow> string \<Rightarrow> 'w \<Rightarrow> unit admission_response" where
  "MysqlConfigDeleteHandler_Handle = environment_delete labels_MysqlEnvironmentsPrefix index_DefaultMysqlEnvironment"

definition RedisConfigDeleteHandler_Handle ::
  "('w, staging_site) client \<Rightarrow> ('w, service_config) client \<Rightarrow> string \<Rightarrow> string \<Rightarrow> 'w \<Rightarrow> unit admission_response" where
  "RedisConfigDeleteHandler_Handle = environment_delete labels_RedisEnvironmentsPrefix index_DefaultRedisEnvironment"

definition ServiceConfigDeleteHandler_Handle ::
  "('w, staging_site) client \<Rightarrow> string \<Rightarrow> string \<Rightarrow> 'w \<Rightarrow> unit admission_response" where
  "ServiceConfigDeleteHandler_Handle sites ns name w =
     (case sites_using sites labels_ServicesPrefix ns name w of
        Inl err \<Rightarrow> Errored StatusInternalServerError err
      | Inr siteList \<Rightarrow>
          if siteList \<noteq> [] then Denied (''There are sites using this service: '' @ show_slice (map st_name siteList))
          else Allowed)"


section \<open>Backups\<close>

definition BackupCreateOrUpdateHandler_Handle ::
  "set_ref \<Rightarrow> (backup \<Rightarrow> go_error option) \<Rightarrow> ('w, staging_site) client \<Rightarrow> go_error + backup \<Rightarrow> 'w \<Rightarrow>
   backup admission_response" where
  "BackupCreateOrUpdateHandler_Handle setref encode sites decoded w =
     (case decoded of
        Inl err \<Rightarrow> Errored StatusBadRequest err
      | Inr job \<Rightarrow>
          (case cl_get sites (om_namespace (bk_meta job)) (bk_site job) w of
             Inl err \<Rightarrow>
               if ignore_not_found err \<noteq> None then Errored StatusInternalServerError err
               else Denied (''Staging site with name '' @ bk_site job @ '' not found in namespace '' @ om_namespace (bk_meta job))
           | Inr site \<Rightarrow>
               if om_controller (bk_meta job) = None
               then (case setref (st_meta site) (bk_meta job) of
                       Inl err \<Rightarrow> Errored StatusInternalServerError err
                     | Inr meta \<Rightarrow>
                         (case encode (job\<lparr>bk_meta := meta\<rparr>) of
                            Some err \<Rightarrow> Errored StatusInternalServerError err
                          | None \<Rightarrow> Patched (job\<lparr>bk_meta := meta\<rparr>)))
               else Allowed))"


section \<open>Service configurations\<close>

text \<open>The sequence of replacements whose results are dropped and whose first error counts.\<close>

fun first_error :: "(go_error + 'a) list \<Rightarrow> go_error option" where
  "first_error [] = None"
| "first_error (Inl err # rs) = Some err"
| "first_error (Inr v # rs) = first_error rs"

definition in_spec :: "'a option \<Rightarrow> ('a \<Rightarrow> go_error + 'b) \<Rightarrow> go_error + unit" where
  "in_spec spec f = (case spec of None \<Rightarrow> Inr () | Some s \<Rightarrow> map_sum id (\<lambda>_. ()) (f s))"

definition validateTemplates :: "externals \<Rightarrow> service_config \<Rightarrow> site_template_handler \<Rightarrow> go_error option" where
  "validateTemplates x config handler =
     (let values = GetTemplateValues (ex_md5 x) (ex_order x) handler;
          pod = (\<lambda>spec. ReplaceTemplateVariablesInPodSpec (ex_pod_codec x) (ex_order x) 20 spec [values])
      in first_error
           ([in_spec (sc_db_init_pod_spec config) pod, in_spec (sc_migration_pod_spec config) pod,
             in_spec (sc_backup_pod_spec config) pod, in_spec (Some (sc_deployment_pod_spec config)) pod,
             in_spec (sc_service_spec config)
               (\<lambda>spec. ReplaceTemplateVariablesInServiceSpec (ex_service_codec x) (ex_order x) 20 spec [values]),
             in_spec (sc_ingress_spec config)
               (\<lambda>spec. ReplaceTemplateVariablesInIngressSpec (ex_ingress_codec x) (ex_order x) 20 spec
                  [values, if sc_service_spec config = None then [] else [(''ingress.serviceName'', ''dummy'')]])] @
            map (\<lambda>nv. case ReplaceTemplateVariablesInStringMap (ex_order x) 52 (snd nv) (fst nv @ '' configmap'') [values] of
                        (_, Some err) \<Rightarrow> Inl err | (_, None) \<Rightarrow> Inr ())
              (go_range (ex_order x) 75 (sc_config_maps config))))"

definition known_environment :: "string \<Rightarrow> string \<Rightarrow> 'c gomap \<Rightarrow> string option" where
  "known_environment kind name configs =
     (if name \<noteq> [] \<and> map_of configs name = None then Some (''Invalid '' @ kind @ '' environment: '' @ name) else None)"

definition ServiceConfigCreateOrUpdateHandler_Handle ::
  "externals \<Rightarrow> 'w config_clients \<Rightarrow> go_error + service_config \<Rightarrow> 'w \<Rightarrow> unit admission_response" where
  "ServiceConfigCreateOrUpdateHandler_Handle x cc decoded w =
     (case decoded of
        Inl err \<Rightarrow> Errored StatusBadRequest err
      | Inr config \<Rightarrow>
          let ns = om_namespace (sc_meta config) in
          case LoadServiceConfigs cc w (NewSite (GetDummySite (sc_name config) ns) config) of
            Inl err \<Rightarrow> Errored StatusInternalServerError err
          | Inr handler \<Rightarrow>
          (case LoadConfigs cc w handler of
            Inl err \<Rightarrow> Errored StatusInternalServerError err
          | Inr handler \<Rightarrow>
          (let handler = handler\<lparr>th_services := AList.update (sc_name config) config (th_services handler)\<rparr> in
          case cl_list_field (cc_service cc) ns index_ShortName (sc_short_name config) w of
            Inl err \<Rightarrow> Errored StatusInternalServerError err
          | Inr items \<Rightarrow>
          if length items > 1 \<or> length items = 1 \<and> sc_name (items ! 0) \<noteq> sc_name config
          then Errored StatusUnprocessableEntity
                 (PlainError (''the short name '' @ sc_short_name config @ '' is not unique in the namespace '' @ ns))
          else (case (known_environment ''mongo'' (sc_default_mongo config) (th_mongo handler),
                      known_environment ''mysql'' (sc_default_mysql config) (th_mysql handler),
                      known_environment ''redis'' (sc_default_redis config) (th_redis handler)) of
                  (Some message, _, _) \<Rightarrow> Denied message
                | (None, Some message, _) \<Rightarrow> Denied message
                | (None, None, Some message) \<Rightarrow> Denied message
                | (None, None, None) \<Rightarrow>
                    (case validateTemplates x config handler of
                       None \<Rightarrow> Allowed
                     | Some err \<Rightarrow> if IsControllerError err then Denied (error_string err)
                                   else Errored StatusInternalServerError err)))))"

end
