(* ===== verification/WebhookProperties.thy ===== *)
theory WebhookProperties
  imports Webhooks DbInitProperties
begin

text \<open>
  What the admission handlers promise together: a site is let in only with services that exist, it
  carries a label for everything it uses, and for as long as it is stored nothing it uses can be
  deleted.
\<close>

section \<open>Labels\<close>

lemma fold_labels:
  "map_of (fold (\<lambda>v labels. if v = [] then labels else AList.update (pre @ v) ''true'' labels) values m) k =
     (if \<exists>v \<in> set values. v \<noteq> [] \<and> k = pre @ v then Some ''true'' else map_of m k)"
  by (induction "values" arbitrary: m) (auto simp: gomap_simps)

lemma map_of_filter_prefix:
  "map_of (filter (\<lambda>kv. \<not> prefix pre (fst kv)) m) k = (if prefix pre k then None else map_of m k)"
  by (induction m) auto

lemma updatePrefixedLabels_lookup:
  "map_of (om_labels (st_meta (updatePrefixedLabels site pre values))) k =
     (if \<exists>v \<in> set values. v \<noteq> [] \<and> k = pre @ v then Some ''true''
      else if prefix pre k then None else map_of (om_labels (st_meta site)) k)"
  by (auto simp: updatePrefixedLabels_def fold_labels map_of_filter_prefix)

lemma updatePrefixedLabels_rest [simp]:
  "st_spec (updatePrefixedLabels site pre values) = st_spec site"
  "st_status (updatePrefixedLabels site pre values) = st_status site"
  "st_name (updatePrefixedLabels site pre values) = st_name site"
  "st_namespace (updatePrefixedLabels site pre values) = st_namespace site"
  by (simp_all add: updatePrefixedLabels_def)

text \<open>The four prefixes do not reach into each other.\<close>

definition label_prefixes :: "string list" where
  "label_prefixes =
     [labels_MongoEnvironmentsPrefix, labels_MysqlEnvironmentsPrefix, labels_RedisEnvironmentsPrefix,
      labels_ServicesPrefix]"

lemma prefixes_incomparable:
  "list_all (\<lambda>p. list_all (\<lambda>q. p = q \<or> \<not> prefix p q) label_prefixes) label_prefixes"
  by code_simp

lemma prefixes_apart:
  assumes "p \<in> set label_prefixes" "q \<in> set label_prefixes" "p \<noteq> q"
  shows "\<not> prefix p (q @ v)" "q @ v \<noteq> p @ u"
proof -
  have "\<not> prefix p q" "\<not> prefix q p"
    using prefixes_incomparable assms by (auto simp: list_all_iff)
  then show "\<not> prefix p (q @ v)" by (auto simp: prefix_append)
  then show "q @ v \<noteq> p @ u" by (metis prefixI)
qed

lemma prefixes_distinct: "distinct label_prefixes"
  by (simp add: label_prefixes_def labels_MongoEnvironmentsPrefix_def labels_MysqlEnvironmentsPrefix_def
      labels_RedisEnvironmentsPrefix_def labels_ServicesPrefix_def)

text \<open>Labels of several prefixes, as the handler sets them one after the other.\<close>

definition label_all :: "(string \<times> string list) list \<Rightarrow> staging_site \<Rightarrow> staging_site" where
  "label_all ps site = fold (\<lambda>pv site. updatePrefixedLabels site (fst pv) (snd pv)) ps site"

lemma label_all_other:
  assumes "set (map fst ps) \<subseteq> set label_prefixes" "p \<in> set label_prefixes" "p \<notin> set (map fst ps)"
  shows "map_of (om_labels (st_meta (label_all ps site))) (p @ v) = map_of (om_labels (st_meta site)) (p @ v)"
  using assms
proof (induction ps arbitrary: site)
  case (Cons a ps)
  then have "fst a \<noteq> p" "fst a \<in> set label_prefixes" by auto
  then have "map_of (om_labels (st_meta (updatePrefixedLabels site (fst a) (snd a)))) (p @ v) =
      map_of (om_labels (st_meta site)) (p @ v)"
    using prefixes_apart[of "fst a" p] Cons.prems(2) by (simp add: updatePrefixedLabels_lookup)
  with Cons show ?case by (simp add: label_all_def)
qed (simp add: label_all_def)

lemma label_all_own:
  assumes "set (map fst ps) \<subseteq> set label_prefixes" "distinct (map fst ps)" "(p, values) \<in> set ps"
  shows "map_of (om_labels (st_meta (label_all ps site))) (p @ v) =
           (if v \<noteq> [] \<and> v \<in> set values then Some ''true'' else None)"
  using assms
proof (induction ps arbitrary: site)
  case (Cons a ps)
  show ?case
  proof (cases "a = (p, values)")
    case True
    then have "map_of (om_labels (st_meta (label_all ps (updatePrefixedLabels site p values)))) (p @ v) =
        map_of (om_labels (st_meta (updatePrefixedLabels site p values))) (p @ v)"
      using Cons.prems by (intro label_all_other) auto
    with True show ?thesis by (auto simp: label_all_def updatePrefixedLabels_lookup)
  next
    case False
    with Cons show ?thesis by (simp add: label_all_def)
  qed
qed simp

lemma label_all_rest [simp]:
  "st_spec (label_all ps site) = st_spec site" "st_status (label_all ps site) = st_status site"
  "st_name (label_all ps site) = st_name site" "st_namespace (label_all ps site) = st_namespace site"
  by (induction ps arbitrary: site) (simp_all add: label_all_def)

lemma label_site_all:
  "label_site ord used =
     label_all [(labels_MongoEnvironmentsPrefix, GetKeysFromStringBoolMap ord 72 (un_mongo used)),
                (labels_MysqlEnvironmentsPrefix, GetKeysFromStringBoolMap ord 73 (un_mysql used)),
                (labels_RedisEnvironmentsPrefix, GetKeysFromStringBoolMap ord 74 (un_redis used)),
                (labels_ServicesPrefix, un_services used)]"
  by (rule ext) (simp add: label_site_def label_all_def Let_def)

lemma label_site_lookup:
  "map_of (om_labels (st_meta (label_site ord used site))) (labels_MongoEnvironmentsPrefix @ v) =
     (if v \<noteq> [] \<and> v \<in> set (GetKeysFromStringBoolMap ord 72 (un_mongo used)) then Some ''true'' else None)"
  "map_of (om_labels (st_meta (label_site ord used site))) (labels_MysqlEnvironmentsPrefix @ v) =
     (if v \<noteq> [] \<and> v \<in> set (GetKeysFromStringBoolMap ord 73 (un_mysql used)) then Some ''true'' else None)"
  "map_of (om_labels (st_meta (label_site ord used site))) (labels_RedisEnvironmentsPrefix @ v) =
     (if v \<noteq> [] \<and> v \<in> set (GetKeysFromStringBoolMap ord 74 (un_redis used)) then Some ''true'' else None)"
  "map_of (om_labels (st_meta (label_site ord used site))) (labels_ServicesPrefix @ v) =
     (if v \<noteq> [] \<and> v \<in> set (un_services used) then Some ''true'' else None)"
  unfolding label_site_all
  by (rule label_all_own; use prefixes_distinct in \<open>simp add: label_prefixes_def\<close>)+

lemma label_site_rest [simp]:
  "st_spec (label_site ord used site) = st_spec site" "st_status (label_site ord used site) = st_status site"
  "st_name (label_site ord used site) = st_name site"
  "st_namespace (label_site ord used site) = st_namespace site"
  by (simp_all add: label_site_all)

lemma label_site_meta:
  "(st_meta (label_site ord used site))\<lparr>om_labels := l\<rparr> = (st_meta site)\<lparr>om_labels := l\<rparr>"
  by (simp add: label_site_def updatePrefixedLabels_def Let_def)

lemma label_site_other:
  assumes "\<forall>p \<in> set label_prefixes. \<not> prefix p k"
  shows "map_of (om_labels (st_meta (label_site ord used site))) k = map_of (om_labels (st_meta site)) k"
proof -
  have "map_of (om_labels (st_meta (label_all ps site))) k = map_of (om_labels (st_meta site)) k"
    if "set (map fst ps) \<subseteq> set label_prefixes" for ps
    using that
  proof (induction ps arbitrary: site)
    case (Cons a ps)
    then have "\<not> prefix (fst a) k" using assms by simp
    then have "map_of (om_labels (st_meta (updatePrefixedLabels site (fst a) (snd a)))) k =
        map_of (om_labels (st_meta site)) k"
      by (auto simp: updatePrefixedLabels_lookup)
    with Cons show ?case by (simp add: label_all_def)
  qed (simp add: label_all_def)
  then show ?thesis unfolding label_site_all by (simp add: label_prefixes_def)
qed


section \<open>The loop over the services\<close>

text \<open>What the loop requires of a service, and what it notes of it.\<close>

definition environments_exist ::
  "mysql_config gomap \<Rightarrow> mongo_config gomap \<Rightarrow> redis_config gomap \<Rightarrow> site_service \<Rightarrow> bool" where
  "environments_exist mysqls mongos rediss s \<longleftrightarrow>
     (svc_mongo_env s \<noteq> [] \<longrightarrow> environment_name moc_meta mongos (svc_mongo_env s) \<noteq> []) \<and>
     (svc_mysql_env s \<noteq> [] \<longrightarrow> environment_name myc_meta mysqls (svc_mysql_env s) \<noteq> []) \<and>
     (svc_redis_env s \<noteq> [] \<longrightarrow> environment_name rec_meta rediss (svc_redis_env s) \<noteq> [])"

definition note_environment :: "string \<Rightarrow> bool gomap \<Rightarrow> bool gomap" where
  "note_environment v m = (if v = [] then m else AList.update v True m)"

definition note_service :: "string \<Rightarrow> site_service \<Rightarrow> used_names \<Rightarrow> used_names" where
  "note_service name s used =
     \<lparr>un_mongo = note_environment (svc_mongo_env s) (un_mongo used),
      un_mysql = note_environment (svc_mysql_env s) (un_mysql used),
      un_redis = note_environment (svc_redis_env s) (un_redis used),
      un_services = un_services used @ [name]\<rparr>"

lemma check_services_step:
  "check_services cfgs mysqls mongos rediss (ns # nss) services used = Inr r \<longleftrightarrow>
     (\<exists>config. map_of cfgs (fst ns) = Some config \<and>
        environments_exist mysqls mongos rediss (default_service config (snd ns)) \<and>
        check_services cfgs mysqls mongos rediss nss
          (AList.update (fst ns) (default_service config (snd ns)) services)
          (note_service (fst ns) (default_service config (snd ns)) used) = Inr r)"
  by (cases "map_of cfgs (fst ns)"; cases used)
    (simp_all add: Let_def environments_exist_def note_service_def note_environment_def)

text \<open>The service a name ends up with.\<close>

definition resolve :: "service_config gomap \<Rightarrow> string \<times> site_service \<Rightarrow> site_service" where
  "resolve cfgs ns = default_service (the (map_of cfgs (fst ns))) (snd ns)"

lemma check_services_Inr:
  assumes "check_services cfgs mysqls mongos rediss nss services used = Inr (services', used')"
  shows "services' = fold (\<lambda>ns. AList.update (fst ns) (resolve cfgs ns)) nss services"
    and "used' = fold (\<lambda>ns. note_service (fst ns) (resolve cfgs ns)) nss used"
    and "\<forall>ns \<in> set nss. map_of cfgs (fst ns) \<noteq> None \<and>
           environments_exist mysqls mongos rediss (resolve cfgs ns)"
  using assms
  by (induction nss arbitrary: services used; force simp: check_services_step resolve_def simp del: check_services.simps(2))+

lemma fold_update_lookup:
  assumes "wf_map nss"
  shows "map_of (fold (\<lambda>ns. AList.update (fst ns) (f ns)) nss m) k =
           (case map_of nss k of Some s \<Rightarrow> Some (f (k, s)) | None \<Rightarrow> map_of m k)"
  using assms
proof (induction nss arbitrary: m)
  case (Cons ns nss)
  then have "map_of nss (fst ns) = None" by (simp add: map_of_eq_None_iff)
  with Cons show ?case by (cases ns) (simp add: gomap_simps split: option.splits)
qed simp

lemma fold_update_wf: "wf_map m \<Longrightarrow> wf_map (fold (\<lambda>ns. AList.update (g ns) (f ns)) nss m)"
  by (induction nss arbitrary: m) simp_all

lemma note_environment_facts:
  "dom (map_of (note_environment v m)) = {x. x = v \<and> v \<noteq> []} \<union> dom (map_of m)"
  "wf_map m \<Longrightarrow> wf_map (note_environment v m)"
  by (auto simp: note_environment_def gomap_simps)

lemma fold_note_service:
  "un_services (fold (\<lambda>ns. note_service (fst ns) (f ns)) nss used) = un_services used @ map fst nss"
  "dom (map_of (un_mongo (fold (\<lambda>ns. note_service (fst ns) (f ns)) nss used))) =
     {v. v \<noteq> [] \<and> (\<exists>ns \<in> set nss. svc_mongo_env (f ns) = v)} \<union> dom (map_of (un_mongo used))"
  "dom (map_of (un_mysql (fold (\<lambda>ns. note_service (fst ns) (f ns)) nss used))) =
     {v. v \<noteq> [] \<and> (\<exists>ns \<in> set nss. svc_mysql_env (f ns) = v)} \<union> dom (map_of (un_mysql used))"
  "dom (map_of (un_redis (fold (\<lambda>ns. note_service (fst ns) (f ns)) nss used))) =
     {v. v \<noteq> [] \<and> (\<exists>ns \<in> set nss. svc_redis_env (f ns) = v)} \<union> dom (map_of (un_redis used))"
  by (induction nss arbitrary: used; auto simp: note_service_def note_environment_facts)+

lemma fold_note_service_wf:
  "wf_map (un_mongo used) \<Longrightarrow> wf_map (un_mongo (fold (\<lambda>ns. note_service (fst ns) (f ns)) nss used))"
  "wf_map (un_mysql used) \<Longrightarrow> wf_map (un_mysql (fold (\<lambda>ns. note_service (fst ns) (f ns)) nss used))"
  "wf_map (un_redis used) \<Longrightarrow> wf_map (un_redis (fold (\<lambda>ns. note_service (fst ns) (f ns)) nss used))"
  by (induction nss arbitrary: used; simp add: note_service_def note_environment_facts)+


section \<open>Admission\<close>

lemma include_all_services_facts:
  assumes "wf_map (site_services site)"
  shows "wf_map (site_services (include_all_services ord cfgs site))"
    "st_namespace (include_all_services ord cfgs site) = st_namespace site"
    "st_meta (include_all_services ord cfgs site) = st_meta site"
proof -
  have "wf_map (fold (\<lambda>nc services. AList.update (sc_name (snd nc))
      (lookup_or zero_service services (sc_name (snd nc))) services) ncs m)"
    if "wf_map m" for ncs :: "service_config gomap" and m
    using that by (induction ncs arbitrary: m) simp_all
  then show "wf_map (site_services (include_all_services ord cfgs site))"
    using assms by (simp add: include_all_services_def set_site_services_def)
qed (simp_all add: include_all_services_def set_site_services_def)

text \<open>The names the handler notes are those of the services it stores.\<close>

lemma resolved_services_set:
  assumes wf: "wf_map services" "wf_map services'"
    and look: "\<And>n. map_of services' n = map_option (\<lambda>s. resolve cfgs (n, s)) (map_of services n)"
  shows "set services' = (\<lambda>ns. (fst ns, resolve cfgs ns)) ` set services"
proof -
  have mem: "(n, s') \<in> set services' \<longleftrightarrow> (\<exists>s. (n, s) \<in> set services \<and> s' = resolve cfgs (n, s))" for n s'
  proof -
    have "(n, s') \<in> set services' \<longleftrightarrow> map_of services' n = Some s'" by (simp add: wf)
    also have "\<dots> \<longleftrightarrow> (\<exists>s. map_of services n = Some s \<and> s' = resolve cfgs (n, s))"
      by (cases "map_of services n") (auto simp: look)
    finally show ?thesis by (simp add: wf)
  qed
  show ?thesis
  proof (intro set_eqI iffI)
    fix x :: "string \<times> site_service"
    assume "x \<in> set services'"
    then obtain s where "(fst x, s) \<in> set services" "snd x = resolve cfgs (fst x, s)"
      using mem[of "fst x" "snd x"] by auto
    then show "x \<in> (\<lambda>ns. (fst ns, resolve cfgs ns)) ` set services"
      by (intro image_eqI[of _ _ "(fst x, s)"]) (simp_all add: prod_eq_iff)
  next
    fix x :: "string \<times> site_service"
    assume "x \<in> (\<lambda>ns. (fst ns, resolve cfgs ns)) ` set services"
    then show "x \<in> set services'" using mem by auto
  qed
qed

lemma admit_site_Patched:
  assumes "admit_site ord encode cfgs mysqls mongos rediss site0 = Patched site"
    and ord: "range_order ord" and wf: "wf_map (site_services site0)"
  defines "services \<equiv> site_services (include_all_services ord cfgs site0)"
  obtains used where
    "site = label_site ord used (set_site_services (site_services site) (include_all_services ord cfgs site0))"
    "services \<noteq> []" "wf_map (site_services site)"
    "\<forall>n. map_of (site_services site) n = map_option (\<lambda>s. resolve cfgs (n, s)) (map_of services n)"
    "\<forall>ns \<in> set services. map_of cfgs (fst ns) \<noteq> None \<and> environments_exist mysqls mongos rediss (resolve cfgs ns)"
    "set (un_services used) = fst ` set (site_services site)"
    "wf_map (un_mongo used)" "wf_map (un_mysql used)" "wf_map (un_redis used)"
    "dom (map_of (un_mongo used)) = {v. v \<noteq> [] \<and> (\<exists>s \<in> snd ` set (site_services site). svc_mongo_env s = v)}"
    "dom (map_of (un_mysql used)) = {v. v \<noteq> [] \<and> (\<exists>s \<in> snd ` set (site_services site). svc_mysql_env s = v)}"
    "dom (map_of (un_redis used)) = {v. v \<noteq> [] \<and> (\<exists>s \<in> snd ` set (site_services site). svc_redis_env s = v)}"
proof -
  let ?nss = "go_range ord 71 services"
  have wfs: "wf_map services" unfolding services_def by (rule include_all_services_facts(1)[OF wf])
  note nss = go_range_facts[OF ord wfs, of 71]
  obtain services' used where
    run: "check_services cfgs mysqls mongos rediss ?nss services no_used_names = Inr (services', used)"
    and site: "site = label_site ord used (set_site_services services' (include_all_services ord cfgs site0))"
    and ne: "services \<noteq> []"
    using assms(1) unfolding admit_site_def Let_def services_def[symmetric]
    by (auto split: if_splits sum.splits prod.splits option.splits)
  note loop = check_services_Inr[OF run]
  have ss: "site_services site = services'" by (simp add: site set_site_services_def)
  have wf': "wf_map services'" unfolding loop(1) by (rule fold_update_wf[OF wfs])
  have look: "map_of services' n = map_option (\<lambda>s. resolve cfgs (n, s)) (map_of services n)" for n
    unfolding loop(1) by (simp add: fold_update_lookup nss split: option.splits)
  note img = resolved_services_set[OF wfs wf' look]
  have keys: "fst ` set services' = fst ` set services"
    by (simp add: img image_image)
  have env: "(\<exists>ns \<in> set ?nss. get (resolve cfgs ns) = v) \<longleftrightarrow> (\<exists>s \<in> snd ` set services'. get s = v)"
    for get :: "site_service \<Rightarrow> string" and v
    by (simp add: img image_image nss)
  have first: "site = label_site ord used (set_site_services (site_services site) (include_all_services ord cfgs site0))"
    unfolding ss by (rule site)
  have doms: "dom (map_of (un_mongo used)) = {v. v \<noteq> [] \<and> (\<exists>s \<in> snd ` set services'. svc_mongo_env s = v)}"
    "dom (map_of (un_mysql used)) = {v. v \<noteq> [] \<and> (\<exists>s \<in> snd ` set services'. svc_mysql_env s = v)}"
    "dom (map_of (un_redis used)) = {v. v \<noteq> [] \<and> (\<exists>s \<in> snd ` set services'. svc_redis_env s = v)}"
    unfolding loop(2) fold_note_service env[of svc_mongo_env] env[of svc_mysql_env] env[of svc_redis_env]
    by (simp_all add: no_used_names_def)
  have wfu: "wf_map (un_mongo used)" "wf_map (un_mysql used)" "wf_map (un_redis used)"
    unfolding loop(2) by (rule fold_note_service_wf; simp add: no_used_names_def)+
  have names: "set (un_services used) = fst ` set services'"
    unfolding loop(2) fold_note_service keys by (simp add: no_used_names_def nss)
  have ok: "\<forall>ns \<in> set services. map_of cfgs (fst ns) \<noteq> None \<and> environments_exist mysqls mongos rediss (resolve cfgs ns)"
    using loop(3) by (simp add: nss)
  show thesis by (rule that[OF first ne _ _ ok _ wfu]) (simp_all add: ss wf' look names doms)
qed


section \<open>Sites that passed the handler\<close>

text \<open>
  The handler is registered for every create and update of a site with the failure policy
  \<^verbatim>\<open>fail\<close>, so a stored site is one that it returned.
\<close>

definition admitted :: "staging_site \<Rightarrow> bool" where
  "admitted site \<longleftrightarrow>
     (\<exists>ord encode pages site0. range_order ord \<and> wf_map (site_services site0) \<and>
        StagingsiteHandler_Handle ord encode pages (Inr site0) = Some (Patched site))"

lemma on_list_Patched:
  "on_list r k = Some (Patched x) \<longleftrightarrow> (\<exists>m. r = Some (Inr m) \<and> k m = Some (Patched x))"
  by (auto simp: on_list_def split: option.splits sum.splits)

lemma StagingsiteHandler_Patched:
  assumes "StagingsiteHandler_Handle ord encode pages (Inr site0) = Some (Patched site)"
  obtains cfgs mysqls mongos rediss where
    "GetConfigsInNamespace (pc_services pages (st_namespace site0)) sc_name = Some (Inr cfgs)"
    "GetConfigsInNamespace (pc_mysql pages (st_namespace site0)) (\<lambda>c. om_name (myc_meta c)) = Some (Inr mysqls)"
    "GetConfigsInNamespace (pc_mongo pages (st_namespace site0)) (\<lambda>c. om_name (moc_meta c)) = Some (Inr mongos)"
    "GetConfigsInNamespace (pc_redis pages (st_namespace site0)) (\<lambda>c. om_name (rec_meta c)) = Some (Inr rediss)"
    "admit_site ord encode cfgs mysqls mongos rediss site0 = Patched site"
  using assms by (auto simp: StagingsiteHandler_Handle_def Let_def on_list_Patched)

text \<open>Whether a service of the site has a value in a field, and the labels that say so.\<close>

definition uses :: "(site_service \<Rightarrow> string) \<Rightarrow> string \<Rightarrow> staging_site \<Rightarrow> bool" where
  "uses env v site \<longleftrightarrow> list_ex (\<lambda>ns. env (snd ns) = v) (site_services site)"

lemma uses_iff: "uses env v site \<longleftrightarrow> (\<exists>s \<in> snd ` set (site_services site). env s = v)"
  by (auto simp: uses_def list_ex_iff)

lemma admitted_labels:
  assumes "admitted site" "v \<noteq> []"
  shows "map_of (om_labels (st_meta site)) (labels_MongoEnvironmentsPrefix @ v) =
           (if uses svc_mongo_env v site then Some ''true'' else None)"
    and "map_of (om_labels (st_meta site)) (labels_MysqlEnvironmentsPrefix @ v) =
           (if uses svc_mysql_env v site then Some ''true'' else None)"
    and "map_of (om_labels (st_meta site)) (labels_RedisEnvironmentsPrefix @ v) =
           (if uses svc_redis_env v site then Some ''true'' else None)"
    and "map_of (om_labels (st_meta site)) (labels_ServicesPrefix @ v) =
           (if v \<in> fst ` set (site_services site) then Some ''true'' else None)"
proof -
  obtain ord encode pages site0 where ord: "range_order ord" and wf: "wf_map (site_services site0)"
    and run: "StagingsiteHandler_Handle ord encode pages (Inr site0) = Some (Patched site)"
    using assms(1) unfolding admitted_def by blast
  obtain cfgs mysqls mongos rediss where
    admit: "admit_site ord encode cfgs mysqls mongos rediss site0 = Patched site"
    using StagingsiteHandler_Patched[OF run] by metis
  obtain used where
    site: "site = label_site ord used (set_site_services (site_services site) (include_all_services ord cfgs site0))"
    and services: "set (un_services used) = fst ` set (site_services site)"
    and wfu: "wf_map (un_mongo used)" "wf_map (un_mysql used)" "wf_map (un_redis used)"
    and doms: "dom (map_of (un_mongo used)) = {v. v \<noteq> [] \<and> (\<exists>s \<in> snd ` set (site_services site). svc_mongo_env s = v)}"
      "dom (map_of (un_mysql used)) = {v. v \<noteq> [] \<and> (\<exists>s \<in> snd ` set (site_services site). svc_mysql_env s = v)}"
      "dom (map_of (un_redis used)) = {v. v \<noteq> [] \<and> (\<exists>s \<in> snd ` set (site_services site). svc_redis_env s = v)}"
    by (rule admit_site_Patched[OF admit ord wf])
  note look = label_site_lookup[where v = v and site = "set_site_services (site_services site)
      (include_all_services ord cfgs site0)" and ord = ord and used = used, folded site]
  note keys = set_GetKeys[OF ord]
  show "map_of (om_labels (st_meta site)) (labels_MongoEnvironmentsPrefix @ v) =
      (if uses svc_mongo_env v site then Some ''true'' else None)"
    unfolding look(1) keys[OF wfu(1)] doms(1) uses_iff using assms(2) by simp
  show "map_of (om_labels (st_meta site)) (labels_MysqlEnvironmentsPrefix @ v) =
      (if uses svc_mysql_env v site then Some ''true'' else None)"
    unfolding look(2) keys[OF wfu(2)] doms(2) uses_iff using assms(2) by simp
  show "map_of (om_labels (st_meta site)) (labels_RedisEnvironmentsPrefix @ v) =
      (if uses svc_redis_env v site then Some ''true'' else None)"
    unfolding look(3) keys[OF wfu(3)] doms(3) uses_iff using assms(2) by simp
  show "map_of (om_labels (st_meta site)) (labels_ServicesPrefix @ v) =
      (if v \<in> fst ` set (site_services site) then Some ''true'' else None)"
    unfolding look(4) services using assms(2) by simp
qed


section \<open>Deletion of what is in use\<close>

text \<open>The verdict on a deletion, given who uses the configuration and which services default to it.\<close>

definition deletion_verdict :: "staging_site list \<Rightarrow> service_config list \<Rightarrow> unit admission_response" where
  "deletion_verdict users defaults =
     (if users \<noteq> [] then Denied (''There are sites using this environment: '' @ show_slice (map st_name users))
      else if defaults \<noteq> []
      then Denied (''There are services using this environment as a default: '' @ show_slice (map sc_name defaults))
      else Allowed)"

text \<open>
  A kind of environment: the prefix of its labels, its index, the field of a service that names one
  and the default of a service configuration. The labels of the admitted sites and the registered
  index speak of these fields.
\<close>

locale environment_kind =
  fixes pre :: string and index :: string
    and env :: "site_service \<Rightarrow> string" and dflt :: "service_config \<Rightarrow> string"
  assumes labelled: "admitted site \<Longrightarrow> v \<noteq> [] \<Longrightarrow>
      map_of (om_labels (st_meta site)) (pre @ v) = (if uses env v site then Some ''true'' else None)"
    and indexed: "service_config_index index c = [dflt c]"
begin

lemma deletion_exact:
  assumes "kube_store st_meta sites objs" "indexed_store sc_meta service_config_index cfgs confs"
    and "\<forall>site \<in> set (objs w). admitted site" "name \<noteq> []"
  shows "environment_delete pre index sites cfgs ns name w =
           deletion_verdict (filter (\<lambda>s. st_namespace s = ns \<and> uses env name s) (objs w))
             (filter (\<lambda>c. om_namespace (sc_meta c) = ns \<and> dflt c = name) (confs w))"
proof -
  have "filter (selects st_meta ns [(pre @ name, ''true'')]) (objs w) =
      filter (\<lambda>s. st_namespace s = ns \<and> uses env name s) (objs w)"
    using assms(3,4) by (intro filter_cong) (simp_all add: selects_def labelled)
  moreover have "cl_list_field cfgs ns index name w =
      Inr (filter (\<lambda>c. om_namespace (sc_meta c) = ns \<and> dflt c = name) (confs w))"
    using assms(2) by (simp add: indexed_store_def indexed eq_commute[of name])
  ultimately show ?thesis
    by (simp add: environment_delete_def sites_using_def kube_storeD(1)[OF assms(1)] deletion_verdict_def)
qed

lemma used_protected:
  assumes "kube_store st_meta sites objs" "indexed_store sc_meta service_config_index cfgs confs"
    and "\<forall>site \<in> set (objs w). admitted site" "name \<noteq> []"
    and "site \<in> set (objs w)" "c \<in> set (confs w)" "om_namespace (sc_meta c) = st_namespace site"
    and "uses env name site \<or> dflt c = name"
  shows "\<exists>message. environment_delete pre index sites cfgs (st_namespace site) name w = Denied message"
proof -
  have "filter (\<lambda>s. st_namespace s = st_namespace site \<and> uses env name s) (objs w) \<noteq> [] \<or>
      filter (\<lambda>c. om_namespace (sc_meta c) = st_namespace site \<and> dflt c = name) (confs w) \<noteq> []"
    using assms(5-8) by (auto simp: filter_empty_conv)
  then show ?thesis unfolding deletion_exact[OF assms(1-4)] deletion_verdict_def by auto
qed

end

lemma service_config_index_simps [simp]:
  "service_config_index index_DefaultMongoEnvironment c = [sc_default_mongo c]"
  "service_config_index index_DefaultMysqlEnvironment c = [sc_default_mysql c]"
  "service_config_index index_DefaultRedisEnvironment c = [sc_default_redis c]"
  "service_config_index index_ShortName c = [sc_short_name c]"
  by (simp_all add: service_config_index_def index_DefaultMongoEnvironment_def
      index_DefaultMysqlEnvironment_def index_DefaultRedisEnvironment_def index_ShortName_def)

interpretation mongo_kind: environment_kind labels_MongoEnvironmentsPrefix index_DefaultMongoEnvironment
    svc_mongo_env sc_default_mongo
  by unfold_locales (simp_all add: admitted_labels)

interpretation mysql_kind: environment_kind labels_MysqlEnvironmentsPrefix index_DefaultMysqlEnvironment
    svc_mysql_env sc_default_mysql
  by unfold_locales (simp_all add: admitted_labels)

interpretation redis_kind: environment_kind labels_RedisEnvironmentsPrefix index_DefaultRedisEnvironment
    svc_redis_env sc_default_redis
  by unfold_locales (simp_all add: admitted_labels)


lemma ServiceConfigDeleteHandler_exact:
  assumes "kube_store st_meta sites objs" "\<forall>site \<in> set (objs w). admitted site" "name \<noteq> []"
  shows "ServiceConfigDeleteHandler_Handle sites ns name w =
           (let users = filter (\<lambda>s. st_namespace s = ns \<and> name \<in> fst ` set (site_services s)) (objs w)
            in if users = [] then Allowed
               else Denied (''There are sites using this service: '' @ show_slice (map st_name users)))"
proof -
  have "filter (selects st_meta ns [(labels_ServicesPrefix @ name, ''true'')]) (objs w) =
      filter (\<lambda>s. st_namespace s = ns \<and> name \<in> fst ` set (site_services s)) (objs w)"
    using assms(2,3) by (intro filter_cong) (simp_all add: selects_def admitted_labels)
  then show ?thesis
    by (simp add: ServiceConfigDeleteHandler_Handle_def sites_using_def kube_storeD(1)[OF assms(1)] Let_def)
qed

text \<open>
  C25. The deletion handlers decide on the fields of the sites and not on labels as such: over stored
  sites that passed the admission handler, a configuration can be deleted exactly when no site of the
  namespace uses it in a service and no service configuration has it as its default, and otherwise
  the message names all users.
\<close>

theorem deletion_decides_by_use:
  assumes "kube_store st_meta sites objs" "indexed_store sc_meta service_config_index cfgs confs"
    and "\<forall>site \<in> set (objs w). admitted site" "name \<noteq> []"
  shows "MongoConfigDeleteHandler_Handle sites cfgs ns name w =
           deletion_verdict (filter (\<lambda>s. st_namespace s = ns \<and> uses svc_mongo_env name s) (objs w))
             (filter (\<lambda>c. om_namespace (sc_meta c) = ns \<and> sc_default_mongo c = name) (confs w)) \<and>
         MysqlConfigDeleteHandler_Handle sites cfgs ns name w =
           deletion_verdict (filter (\<lambda>s. st_namespace s = ns \<and> uses svc_mysql_env name s) (objs w))
             (filter (\<lambda>c. om_namespace (sc_meta c) = ns \<and> sc_default_mysql c = name) (confs w)) \<and>
         RedisConfigDeleteHandler_Handle sites cfgs ns name w =
           deletion_verdict (filter (\<lambda>s. st_namespace s = ns \<and> uses svc_redis_env name s) (objs w))
             (filter (\<lambda>c. om_namespace (sc_meta c) = ns \<and> sc_default_redis c = name) (confs w)) \<and>
         ServiceConfigDeleteHandler_Handle sites ns name w =
           (let users = filter (\<lambda>s. st_namespace s = ns \<and> name \<in> fst ` set (site_services s)) (objs w)
            in if users = [] then Allowed
               else Denied (''There are sites using this service: '' @ show_slice (map st_name users)))"
  unfolding MongoConfigDeleteHandler_Handle_def MysqlConfigDeleteHandler_Handle_def
    RedisConfigDeleteHandler_Handle_def
  by (intro conjI mongo_kind.deletion_exact[OF assms] mysql_kind.deletion_exact[OF assms]
      redis_kind.deletion_exact[OF assms] ServiceConfigDeleteHandler_exact[OF assms(1,3,4)])

lemma effective_environment:
  "GetMongoConfigForService site c \<noteq> [] \<Longrightarrow>
     uses svc_mongo_env (GetMongoConfigForService site c) site \<or> sc_default_mongo c = GetMongoConfigForService site c"
  "GetMysqlConfigForService site c \<noteq> [] \<Longrightarrow>
     uses svc_mysql_env (GetMysqlConfigForService site c) site \<or> sc_default_mysql c = GetMysqlConfigForService site c"
  "GetRedisConfigForService site c \<noteq> [] \<Longrightarrow>
     uses svc_redis_env (GetRedisConfigForService site c) site \<or> sc_default_redis c = GetRedisConfigForService site c"
  by (auto simp: GetMongoConfigForService_def GetMysqlConfigForService_def GetRedisConfigForService_def
      site_service_of_def lookup_or_def zero_service_def uses_def list_ex_iff
      dest!: map_of_SomeD intro: rev_bexI split: option.splits if_splits)

text \<open>
  C5. An environment that the database handlers would use for a service of a stored site, be it named by
  the site or the current default of the service, cannot be deleted.
\<close>

theorem used_environments_protected:
  assumes "kube_store st_meta sites objs" "indexed_store sc_meta service_config_index cfgs confs"
    and "\<forall>site \<in> set (objs w). admitted site"
    and "site \<in> set (objs w)" "c \<in> set (confs w)" "om_namespace (sc_meta c) = st_namespace site"
  shows "(GetMongoConfigForService site c = [] \<or>
            (\<exists>m. MongoConfigDeleteHandler_Handle sites cfgs (st_namespace site) (GetMongoConfigForService site c) w = Denied m)) \<and>
         (GetMysqlConfigForService site c = [] \<or>
            (\<exists>m. MysqlConfigDeleteHandler_Handle sites cfgs (st_namespace site) (GetMysqlConfigForService site c) w = Denied m)) \<and>
         (GetRedisConfigForService site c = [] \<or>
            (\<exists>m. RedisConfigDeleteHandler_Handle sites cfgs (st_namespace site) (GetRedisConfigForService site c) w = Denied m))"
  unfolding MongoConfigDeleteHandler_Handle_def MysqlConfigDeleteHandler_Handle_def
    RedisConfigDeleteHandler_Handle_def
  using mongo_kind.used_protected[where objs = objs, OF assms(1-3) _ assms(4-6) effective_environment(1)]
    mysql_kind.used_protected[where objs = objs, OF assms(1-3) _ assms(4-6) effective_environment(2)]
    redis_kind.used_protected[where objs = objs, OF assms(1-3) _ assms(4-6) effective_environment(3)]
  by blast



section \<open>What admission does to a site\<close>

lemma include_all_lookup:
  assumes "\<And>k c. map_of cfgs k = Some c \<Longrightarrow> sc_name c = k" "wf_map cfgs" "range_order ord"
  shows "map_of (site_services (include_all_services ord cfgs site)) n =
           (if sp_include_all (st_spec site) \<and> map_of cfgs n \<noteq> None
            then Some (lookup_or zero_service (site_services site) n) else map_of (site_services site) n)"
proof -
  have fold: "map_of (fold (\<lambda>nc services. AList.update (sc_name (snd nc))
        (lookup_or zero_service services (sc_name (snd nc))) services) ncs m) n =
      (if n \<in> sc_name ` snd ` set ncs then Some (lookup_or zero_service m n) else map_of m n)"
    for ncs :: "service_config gomap" and m
    by (induction ncs arbitrary: m) (auto simp: gomap_simps lookup_or_def)
  have "n \<in> sc_name ` snd ` set (go_range ord 70 cfgs) \<longleftrightarrow> map_of cfgs n \<noteq> None"
  proof
    assume "n \<in> sc_name ` snd ` set (go_range ord 70 cfgs)"
    then obtain k c where kc: "(k, c) \<in> set cfgs" "n = sc_name c"
      by (auto simp: go_range_facts[OF assms(3,2)])
    then have "map_of cfgs k = Some c" using assms(2) by simp
    moreover have "n = k" using assms(1)[OF calculation] kc(2) by simp
    ultimately show "map_of cfgs n \<noteq> None" by simp
  next
    assume "map_of cfgs n \<noteq> None"
    then obtain c where c: "map_of cfgs n = Some c" by auto
    then have "(n, c) \<in> set (go_range ord 70 cfgs)" "n = sc_name c"
      using assms(1)[OF c] map_of_SomeD[OF c] by (simp_all add: go_range_facts[OF assms(3,2)])
    then show "n \<in> sc_name ` snd ` set (go_range ord 70 cfgs)" by force
  qed
  then show ?thesis by (simp add: include_all_services_def set_site_services_def fold)
qed

text \<open>
  The specification of admission: a site keeps the services it names, gets all others when it asks
  for that, and every service gets the defaults of its configuration.
\<close>

definition admitted_service :: "service_config gomap \<Rightarrow> staging_site \<Rightarrow> string \<Rightarrow> site_service option" where
  "admitted_service cfgs site n =
     (case (map_of cfgs n, map_of (site_services site) n) of
        (None, _) \<Rightarrow> None
      | (Some c, Some s) \<Rightarrow> Some (default_service c s)
      | (Some c, None) \<Rightarrow> if sp_include_all (st_spec site) then Some (default_service c zero_service) else None)"

lemma default_service_complete:
  "svc_image_tag (default_service c s) \<noteq> []" "svc_init_source (default_service c s) \<noteq> []"
  by (simp_all add: default_service_def)

lemma admitted_service_lookup:
  assumes cfgs: "wf_map cfgs" "\<And>k c. map_of cfgs k = Some c \<Longrightarrow> sc_name c = k" and ord: "range_order ord"
    and look: "map_of services n =
      map_option (\<lambda>s. resolve cfgs (n, s)) (map_of (site_services (include_all_services ord cfgs site0)) n)"
    and known: "map_of (site_services (include_all_services ord cfgs site0)) n \<noteq> None \<longrightarrow> map_of cfgs n \<noteq> None"
  shows "map_of services n = admitted_service cfgs site0 n"
proof -
  let ?site = "include_all_services ord cfgs site0"
  have all: "map_of (site_services ?site) n =
      (if sp_include_all (st_spec site0) \<and> map_of cfgs n \<noteq> None
       then Some (lookup_or zero_service (site_services site0) n) else map_of (site_services site0) n)"
    by (rule include_all_lookup[OF _ cfgs(1) ord]) (rule cfgs(2))
  show ?thesis
  proof (cases "map_of cfgs n")
    case None
    then have "map_of (site_services ?site) n = None" using known by (cases "map_of (site_services ?site) n") auto
    then show ?thesis by (simp add: look admitted_service_def None)
  next
    case (Some c)
    then show ?thesis
      by (cases "map_of (site_services site0) n") (simp_all add: look all admitted_service_def resolve_def lookup_or_def)
  qed
qed

lemma admission_spec:
  assumes "StagingsiteHandler_Handle ord encode pages (Inr site0) = Some (Patched site)"
    and "range_order ord" "wf_map (site_services site0)"
  obtains cfgs mysqls mongos rediss where
    "GetConfigsInNamespace (pc_services pages (st_namespace site0)) sc_name = Some (Inr cfgs)"
    "GetConfigsInNamespace (pc_mysql pages (st_namespace site0)) (\<lambda>c. om_name (myc_meta c)) = Some (Inr mysqls)"
    "GetConfigsInNamespace (pc_mongo pages (st_namespace site0)) (\<lambda>c. om_name (moc_meta c)) = Some (Inr mongos)"
    "GetConfigsInNamespace (pc_redis pages (st_namespace site0)) (\<lambda>c. om_name (rec_meta c)) = Some (Inr rediss)"
    "site_services site \<noteq> []"
    "map_of (site_services site) = admitted_service cfgs site0"
    "(\<forall>n s. map_of (site_services site) n = Some s \<longrightarrow>
        map_of cfgs n \<noteq> None \<and> svc_image_tag s \<noteq> [] \<and> svc_init_source s \<noteq> [] \<and>
environments_exist mysqls mongos rediss s)"
    "st_spec site = (st_spec site0)\<lparr>sp_services := site_services site\<rparr>"
    "st_status site = st_status site0"
    "st_namespace site = st_namespace site0"
    "(st_meta site)\<lparr>om_labels := om_labels (st_meta site0)\<rparr> = st_meta site0"
    "(\<forall>k. (\<forall>p \<in> set label_prefixes. \<not> prefix p k) \<longrightarrow>
        map_of (om_labels (st_meta site)) k = map_of (om_labels (st_meta site0)) k)"
proof -
  obtain cfgs mysqls mongos rediss where
    lists: "GetConfigsInNamespace (pc_services pages (st_namespace site0)) sc_name = Some (Inr cfgs)"
      "GetConfigsInNamespace (pc_mysql pages (st_namespace site0)) (\<lambda>c. om_name (myc_meta c)) = Some (Inr mysqls)"
      "GetConfigsInNamespace (pc_mongo pages (st_namespace site0)) (\<lambda>c. om_name (moc_meta c)) = Some (Inr mongos)"
      "GetConfigsInNamespace (pc_redis pages (st_namespace site0)) (\<lambda>c. om_name (rec_meta c)) = Some (Inr rediss)"
    and admit: "admit_site ord encode cfgs mysqls mongos rediss site0 = Patched site"
    using assms(1) by (rule StagingsiteHandler_Patched)
  let ?site = "include_all_services ord cfgs site0"
  obtain used where
    site: "site = label_site ord used (set_site_services (site_services site) ?site)"
    and ne: "site_services ?site \<noteq> []"
    and look': "\<forall>n. map_of (site_services site) n = map_option (\<lambda>s. resolve cfgs (n, s)) (map_of (site_services ?site) n)"
    and ok: "\<forall>ns \<in> set (site_services ?site). map_of cfgs (fst ns) \<noteq> None \<and>
        environments_exist mysqls mongos rediss (resolve cfgs ns)"
    by (rule admit_site_Patched[OF admit assms(2,3)])
  note look = look'[rule_format]
  have keys: "sc_name c = k" if "map_of cfgs k = Some c" for k c
    by (rule GetConfigsInNamespace_keyed(2)[OF lists(1) that])
  have known: "map_of cfgs n \<noteq> None \<and> environments_exist mysqls mongos rediss (resolve cfgs (n, s))"
    if "map_of (site_services ?site) n = Some s" for n s
    using ok map_of_SomeD[OF that] by fastforce
  have services: "map_of (site_services site) n = admitted_service cfgs site0 n" for n
    by (rule admitted_service_lookup[OF GetConfigsInNamespace_keyed(1)[OF lists(1)] keys assms(2) look]) (use known[of n] in auto)
  have each: "map_of cfgs n \<noteq> None \<and> svc_image_tag s \<noteq> [] \<and> svc_init_source s \<noteq> [] \<and>
      environments_exist mysqls mongos rediss s"
    if "map_of (site_services site) n = Some s" for n s
    using that known[of n] unfolding look by (auto simp: resolve_def default_service_complete)
  have spec: "st_spec site = (st_spec site0)\<lparr>sp_services := site_services site\<rparr>" "st_status site = st_status site0"
    "st_namespace site = st_namespace site0"
    by (subst site, simp add: set_site_services_def include_all_services_def)+
  have meta: "(st_meta site)\<lparr>om_labels := om_labels (st_meta site0)\<rparr> = st_meta site0"
    by (subst site) (simp add: label_site_meta set_site_services_def include_all_services_facts(3)[OF assms(3)])
  have labels: "map_of (om_labels (st_meta site)) k = map_of (om_labels (st_meta site0)) k"
    if "\<forall>p \<in> set label_prefixes. \<not> prefix p k" for k
    by (subst site) (simp add: label_site_other[OF that] set_site_services_def include_all_services_facts(3)[OF assms(3)])
  have "site_services site \<noteq> []"
  proof
    assume "site_services site = []"
    then have "map_of (site_services ?site) n = None" for n using look[of n] by simp
    then show False using ne by (metis alist_empty_iff ext)
  qed
  then show thesis by (intro that[OF lists]) (use services each spec meta labels in \<open>simp_all add: fun_eq_iff\<close>)
qed

text \<open>
  C15. A site that the handler lets in has at least one service, and its services are exactly those of the
  specification: each has a configuration, a tag and a source, and names only environments that exist.
  Under the four prefixes it carries exactly the labels of the environments and services that it
  uses. The labels outside the prefixes, all other metadata, the rest of the spec and the status stay
  as they were.
\<close>

theorem admitted_site_as_specified:
  assumes "StagingsiteHandler_Handle ord encode pages (Inr site0) = Some (Patched site)"
    and "range_order ord" "wf_map (site_services site0)"
  shows "\<exists>cfgs mysqls mongos rediss.
     GetConfigsInNamespace (pc_services pages (st_namespace site0)) sc_name = Some (Inr cfgs) \<and>
     GetConfigsInNamespace (pc_mysql pages (st_namespace site0)) (\<lambda>c. om_name (myc_meta c)) = Some (Inr mysqls) \<and>
     GetConfigsInNamespace (pc_mongo pages (st_namespace site0)) (\<lambda>c. om_name (moc_meta c)) = Some (Inr mongos) \<and>
     GetConfigsInNamespace (pc_redis pages (st_namespace site0)) (\<lambda>c. om_name (rec_meta c)) = Some (Inr rediss) \<and>
     site_services site \<noteq> [] \<and> map_of (site_services site) = admitted_service cfgs site0 \<and>
     (\<forall>n s. map_of (site_services site) n = Some s \<longrightarrow>
        map_of cfgs n \<noteq> None \<and> svc_image_tag s \<noteq> [] \<and> svc_init_source s \<noteq> [] \<and>
        environments_exist mysqls mongos rediss s) \<and>
     st_spec site = (st_spec site0)\<lparr>sp_services := site_services site\<rparr> \<and> st_status site = st_status site0 \<and>
     (st_meta site)\<lparr>om_labels := om_labels (st_meta site0)\<rparr> = st_meta site0 \<and>
     (\<forall>v. v \<noteq> [] \<longrightarrow>
        map_of (om_labels (st_meta site)) (labels_MongoEnvironmentsPrefix @ v) =
          (if uses svc_mongo_env v site then Some ''true'' else None) \<and>
        map_of (om_labels (st_meta site)) (labels_MysqlEnvironmentsPrefix @ v) =
          (if uses svc_mysql_env v site then Some ''true'' else None) \<and>
        map_of (om_labels (st_meta site)) (labels_RedisEnvironmentsPrefix @ v) =
          (if uses svc_redis_env v site then Some ''true'' else None) \<and>
        map_of (om_labels (st_meta site)) (labels_ServicesPrefix @ v) =
          (if v \<in> fst ` set (site_services site) then Some ''true'' else None)) \<and>
     (\<forall>k. (\<forall>p \<in> set label_prefixes. \<not> prefix p k) \<longrightarrow>
        map_of (om_labels (st_meta site)) k = map_of (om_labels (st_meta site0)) k)"
proof -
  have "admitted site" unfolding admitted_def using assms by blast
  note used = admitted_labels[OF this]
  show ?thesis
    by (rule admission_spec[OF assms]) (intro exI conjI allI impI; (assumption | rule used | blast))
qed


section \<open>Admission again\<close>

lemma default_service_again [simp]: "default_service c (default_service c s) = default_service c s"
  by (simp add: default_service_def)

lemma check_services_succeeds:
  assumes "\<forall>ns \<in> set nss. map_of cfgs (fst ns) \<noteq> None \<and> environments_exist mysqls mongos rediss (resolve cfgs ns)"
  shows "\<exists>r. check_services cfgs mysqls mongos rediss nss services used = Inr r"
  using assms
proof (induction nss arbitrary: services used)
  case (Cons ns nss)
  then show ?case by (auto simp: check_services_step resolve_def simp del: check_services.simps(2))
qed simp

lemma admit_site_succeeds:
  assumes "range_order ord" "wf_map (site_services site)" "\<And>s. encode s = None"
    and "site_services (include_all_services ord cfgs site) \<noteq> []"
    and "\<And>n s. map_of (site_services (include_all_services ord cfgs site)) n = Some s \<Longrightarrow>
           map_of cfgs n \<noteq> None \<and> environments_exist mysqls mongos rediss (resolve cfgs (n, s))"
  shows "\<exists>site'. admit_site ord encode cfgs mysqls mongos rediss site = Patched site'"
proof -
  let ?services = "site_services (include_all_services ord cfgs site)"
  have wf: "wf_map ?services" by (rule include_all_services_facts(1)[OF assms(2)])
  have "\<forall>ns \<in> set (go_range ord 71 ?services).
      map_of cfgs (fst ns) \<noteq> None \<and> environments_exist mysqls mongos rediss (resolve cfgs ns)"
    using assms(5) wf by (auto simp: go_range_facts[OF assms(1) wf])
  from check_services_succeeds[OF this]
  obtain r where "check_services cfgs mysqls mongos rediss (go_range ord 71 ?services) ?services no_used_names = Inr r"
    by blast
  then show ?thesis using assms(3,4) by (cases r) (simp add: admit_site_def Let_def)
qed

lemma label_site_empty:
  "p \<in> set label_prefixes \<Longrightarrow> map_of (om_labels (st_meta (label_site ord used site))) p = None"
  using label_site_lookup[where v = "[]" and ord = ord and used = used and site = site]
  by (auto simp: label_prefixes_def)

lemma admitted_label_cases:
  assumes "admitted a" "admitted b" "\<And>v. uses svc_mongo_env v a = uses svc_mongo_env v b"
    "\<And>v. uses svc_mysql_env v a = uses svc_mysql_env v b" "\<And>v. uses svc_redis_env v a = uses svc_redis_env v b"
    "fst ` set (site_services a) = fst ` set (site_services b)" "p \<in> set label_prefixes" "v \<noteq> []"
  shows "map_of (om_labels (st_meta a)) (p @ v) = map_of (om_labels (st_meta b)) (p @ v)"
  using assms by (auto simp: label_prefixes_def admitted_labels)


lemma admitted_bare_label:
  assumes "admitted site" "p \<in> set label_prefixes"
  shows "map_of (om_labels (st_meta site)) p = None"
proof -
  obtain ord encode pages site0 where ord: "range_order ord" and wf: "wf_map (site_services site0)"
    and run: "StagingsiteHandler_Handle ord encode pages (Inr site0) = Some (Patched site)"
    using assms(1) unfolding admitted_def by blast
  obtain cfgs mysqls mongos rediss where
    admit: "admit_site ord encode cfgs mysqls mongos rediss site0 = Patched site"
    using StagingsiteHandler_Patched[OF run] by metis
  obtain used where "site = label_site ord used (set_site_services (site_services site) (include_all_services ord cfgs site0))"
    by (rule admit_site_Patched[OF admit ord wf])
  then show ?thesis using label_site_empty[OF assms(2)] by metis
qed

lemma same_labels:
  assumes "admitted a" "admitted b" "map_of (site_services a) = map_of (site_services b)"
    "wf_map (site_services a)" "wf_map (site_services b)"
    "\<And>k. (\<forall>p \<in> set label_prefixes. \<not> prefix p k) \<Longrightarrow>
       map_of (om_labels (st_meta a)) k = map_of (om_labels (st_meta b)) k"
  shows "map_of (om_labels (st_meta a)) = map_of (om_labels (st_meta b))"
proof
  fix k
  have sets: "set (site_services a) = set (site_services b)"
    using map_of_inject_set[OF assms(4,5)] assms(3) by blast
  show "map_of (om_labels (st_meta a)) k = map_of (om_labels (st_meta b)) k"
  proof (cases "\<forall>p \<in> set label_prefixes. \<not> prefix p k")
    case False
    then obtain p v where p: "p \<in> set label_prefixes" and k: "k = p @ v" by (auto simp: prefix_def)
    show ?thesis
    proof (cases "v = []")
      case True
      with k p assms(1,2) show ?thesis by (simp add: admitted_bare_label)
    next
      case False
      show ?thesis unfolding k
        by (rule admitted_label_cases[OF assms(1,2) _ _ _ _ p False]) (simp_all add: uses_iff sets)
    qed
  qed (rule assms(6))
qed

lemma admitted_wf:
  assumes "admitted site" shows "wf_map (site_services site)"
proof -
  obtain ord encode pages site0 where ord: "range_order ord" and wf: "wf_map (site_services site0)"
    and run: "StagingsiteHandler_Handle ord encode pages (Inr site0) = Some (Patched site)"
    using assms(1) unfolding admitted_def by blast
  obtain cfgs mysqls mongos rediss where
    admit: "admit_site ord encode cfgs mysqls mongos rediss site0 = Patched site"
    using StagingsiteHandler_Patched[OF run] by metis
  show ?thesis by (rule admit_site_Patched[OF admit ord wf])
qed

lemma admitted_service_again:
  assumes "map_of (site_services site) = admitted_service cfgs site0"
    "sp_include_all (st_spec site) = sp_include_all (st_spec site0)"
  shows "admitted_service cfgs site = map_of (site_services site)"
  by (rule ext) (simp add: admitted_service_def assms split: option.splits)

text \<open>
  The specification of an admitted site, for the lemma that the handler lets it in again: the
  services are those of the first admission, each with a configuration and existing environments.
\<close>

lemma readmitted:
  assumes lists: "GetConfigsInNamespace (pc_services pages (st_namespace site)) sc_name = Some (Inr cfgs)"
      "GetConfigsInNamespace (pc_mysql pages (st_namespace site)) (\<lambda>c. om_name (myc_meta c)) = Some (Inr mysqls)"
      "GetConfigsInNamespace (pc_mongo pages (st_namespace site)) (\<lambda>c. om_name (moc_meta c)) = Some (Inr mongos)"
      "GetConfigsInNamespace (pc_redis pages (st_namespace site)) (\<lambda>c. om_name (rec_meta c)) = Some (Inr rediss)"
    and ne: "site_services site \<noteq> []"
    and services: "map_of (site_services site) = admitted_service cfgs site0"
    and each: "\<forall>n s. map_of (site_services site) n = Some s \<longrightarrow> map_of cfgs n \<noteq> None \<and> environments_exist mysqls mongos rediss s"
    and inc: "sp_include_all (st_spec site) = sp_include_all (st_spec site0)"
    and wf: "wf_map (site_services site)" and ord: "range_order ord" and encode: "\<And>s. encode s = None"
  shows "\<exists>site'. StagingsiteHandler_Handle ord encode pages (Inr site) = Some (Patched site')"
proof -
  have keys: "sc_name c = k" if "map_of cfgs k = Some c" for k c
    by (rule GetConfigsInNamespace_keyed(2)[OF lists(1) that])
  have all: "map_of (site_services (include_all_services ord cfgs site)) n =
      (if sp_include_all (st_spec site) \<and> map_of cfgs n \<noteq> None
       then Some (lookup_or zero_service (site_services site) n) else map_of (site_services site) n)" for n
    by (rule include_all_lookup[OF _ GetConfigsInNamespace_keyed(1)[OF lists(1)] ord]) (rule keys)
  have same: "map_of (site_services (include_all_services ord cfgs site)) n = map_of (site_services site) n" for n
    unfolding all using inc
    by (auto simp: services admitted_service_def lookup_or_def split: option.splits)
  have fixed: "resolve cfgs (n, s) = s" if "map_of (site_services site) n = Some s" for n s
    using that by (auto simp: services admitted_service_def resolve_def split: option.splits if_splits)
  have ok: "map_of cfgs n \<noteq> None \<and> environments_exist mysqls mongos rediss (resolve cfgs (n, s))"
    if "map_of (site_services (include_all_services ord cfgs site)) n = Some s" for n s
  proof -
    have s: "map_of (site_services site) n = Some s" using that by (simp only: same)
    then show ?thesis using each fixed[OF s] by simp
  qed
  have some: "site_services (include_all_services ord cfgs site) \<noteq> []"
    using same ne by (metis alist_empty_iff ext)
  have "\<exists>site'. admit_site ord encode cfgs mysqls mongos rediss site = Patched site'"
    by (rule admit_site_succeeds[OF ord wf _ some]) (rule encode ok; assumption?)+
  then show ?thesis by (auto simp: StagingsiteHandler_Handle_def lists on_list_def)
qed

text \<open>
  C16. Admission is idempotent, as Kubernetes requires of a mutating webhook: when the object that the
  handler returned comes back while the configurations are the same, it is let in again with the same
  services and the same labels, whatever orders the two runs visit the maps in.
\<close>

theorem admission_idempotent:
  assumes "StagingsiteHandler_Handle ord encode pages (Inr site0) = Some (Patched site)"
    and "range_order ord" "wf_map (site_services site0)" "range_order ord'" "\<And>s. encode s = None"
  shows "\<exists>site'. StagingsiteHandler_Handle ord' encode pages (Inr site) = Some (Patched site') \<and>
           map_of (site_services site') = map_of (site_services site) \<and>
           map_of (om_labels (st_meta site')) = map_of (om_labels (st_meta site)) \<and>
           st_spec site' = (st_spec site)\<lparr>sp_services := site_services site'\<rparr> \<and> st_status site' = st_status site"
proof -
  obtain cfgs mysqls mongos rediss where
    lists: "GetConfigsInNamespace (pc_services pages (st_namespace site0)) sc_name = Some (Inr cfgs)"
      "GetConfigsInNamespace (pc_mysql pages (st_namespace site0)) (\<lambda>c. om_name (myc_meta c)) = Some (Inr mysqls)"
      "GetConfigsInNamespace (pc_mongo pages (st_namespace site0)) (\<lambda>c. om_name (moc_meta c)) = Some (Inr mongos)"
      "GetConfigsInNamespace (pc_redis pages (st_namespace site0)) (\<lambda>c. om_name (rec_meta c)) = Some (Inr rediss)"
    and ne: "site_services site \<noteq> []"
    and services: "map_of (site_services site) = admitted_service cfgs site0"
    and each: "\<forall>n s. map_of (site_services site) n = Some s \<longrightarrow>
        map_of cfgs n \<noteq> None \<and> svc_image_tag s \<noteq> [] \<and> svc_init_source s \<noteq> [] \<and>
        environments_exist mysqls mongos rediss s"
    and spec: "st_spec site = (st_spec site0)\<lparr>sp_services := site_services site\<rparr>"
    and ns: "st_namespace site = st_namespace site0"
    by (rule admission_spec[OF assms(1-3)])
  have adm: "admitted site" unfolding admitted_def using assms(1-3) by blast
  note wf = admitted_wf[OF adm]
  have inc: "sp_include_all (st_spec site) = sp_include_all (st_spec site0)" by (subst spec) simp
  have each': "\<forall>n s. map_of (site_services site) n = Some s \<longrightarrow> map_of cfgs n \<noteq> None \<and> environments_exist mysqls mongos rediss s"
    using each by blast
  obtain site' where run: "StagingsiteHandler_Handle ord' encode pages (Inr site) = Some (Patched site')"
    using readmitted[where encode = encode, OF lists[folded ns] ne services each' inc wf assms(4,5)] by blast
  obtain cfgs' where cfgs': "GetConfigsInNamespace (pc_services pages (st_namespace site)) sc_name = Some (Inr cfgs')"
    and services': "map_of (site_services site') = admitted_service cfgs' site"
    and rest: "st_spec site' = (st_spec site)\<lparr>sp_services := site_services site'\<rparr>" "st_status site' = st_status site"
    and other: "\<forall>k. (\<forall>p \<in> set label_prefixes. \<not> prefix p k) \<longrightarrow>
        map_of (om_labels (st_meta site')) k = map_of (om_labels (st_meta site)) k"
    by (rule admission_spec[OF run assms(4) wf])
  have "cfgs' = cfgs" using cfgs' lists(1) by (simp add: ns)
  then have s: "map_of (site_services site') = map_of (site_services site)"
    using services' admitted_service_again[OF services inc] by simp
  have adm': "admitted site'" unfolding admitted_def using run assms(4) wf by blast
  have "map_of (om_labels (st_meta site')) = map_of (om_labels (st_meta site))"
    by (rule same_labels[OF adm' adm s admitted_wf[OF adm'] wf]) (use other in blast)
  with run s rest show ?thesis by blast
qed



section \<open>A concrete admission\<close>

definition toy_page :: "'o list \<Rightarrow> go_error + 'o page" where
  "toy_page xs = Inr \<lparr>pg_items = xs, pg_remaining = None, pg_continue = []\<rparr>"

definition toy_environment :: mysql_config where
  "toy_environment =
     \<lparr>myc_meta = new_meta ''my1'' ''ns'' [], myc_host = ''h'', myc_username = ''u'', myc_password = ''p'', myc_port = 3306\<rparr>"

definition toy_paged :: paged_configs where
  "toy_paged =
     \<lparr>pc_services = \<lambda>ns token. toy_page [toy_service ''shop'' ''sh''],
      pc_mysql = \<lambda>ns token. toy_page [toy_environment],
      pc_mongo = \<lambda>ns token. toy_page [], pc_redis = \<lambda>ns token. toy_page []\<rparr>"

definition toy_labelled_site :: staging_site where
  "toy_labelled_site =
     (let site = toy_site ''s'' ''db'';
          service = zero_service\<lparr>svc_image_tag := ''latest'', svc_replicas := 1, svc_init_source := ''master'',
            svc_mysql_env := ''my1''\<rparr>
      in set_site_services [(''shop'', service)]
           (site\<lparr>st_meta := (st_meta site)\<lparr>om_labels :=
              [(labels_MysqlEnvironmentsPrefix @ ''my1'', ''true''), (labels_ServicesPrefix @ ''shop'', ''true'')]\<rparr>\<rparr>))"

lemma toy_page_list:
  "GetConfigsInNamespace (\<lambda>token. toy_page xs) name = Some (Inr (add_items name xs []))"
  unfolding GetConfigsInNamespace_def by (subst fetch_pages.simps) (simp add: toy_page_def more_pages_def)

lemma toy_admission:
  "StagingsiteHandler_Handle (\<lambda>l ks. ks) (\<lambda>s. None) toy_paged (Inr (toy_site ''s'' ''db'')) =
     Some (Patched toy_labelled_site)"
proof -
  have "admit_site (\<lambda>l ks. ks) (\<lambda>s. None) (add_items sc_name [toy_service ''shop'' ''sh''] [])
      (add_items (\<lambda>c. om_name (myc_meta c)) [toy_environment] []) [] [] (toy_site ''s'' ''db'') =
    Patched toy_labelled_site"
    by code_simp
  then show ?thesis
    by (simp add: StagingsiteHandler_Handle_def toy_paged_def toy_page_list on_list_def add_items_def[where items = "[]"])
qed

lemma toy_wf: "wf_map (site_services (toy_site n d))"
  by (simp add: toy_site_def GetDummySite_def)

lemma toy_admitted: "admitted toy_labelled_site"
  unfolding admitted_def using toy_admission toy_wf range_order_id by blast


definition toy_indexed_configs :: "('w, service_config) client" where
  "toy_indexed_configs = (static_client sc_meta [])
     \<lparr>cl_list_field := \<lambda>ns idx v w. Inr (filter (\<lambda>x. om_namespace (sc_meta x) = ns \<and> v \<in> set (service_config_index idx x))
        [toy_service ''shop'' ''sh''])\<rparr>"

lemma toy_indexed: "indexed_store sc_meta service_config_index toy_indexed_configs (\<lambda>w. [toy_service ''shop'' ''sh''])"
  by (simp add: indexed_store_def toy_indexed_configs_def)

lemma toy_labelled_services:
  "site_services toy_labelled_site =
     [(''shop'', zero_service\<lparr>svc_image_tag := ''latest'', svc_replicas := 1, svc_init_source := ''master'',
         svc_mysql_env := ''my1''\<rparr>)]"
  "st_namespace toy_labelled_site = ''ns''" "st_name toy_labelled_site = ''s''"
  by (simp_all add: toy_labelled_site_def set_site_services_def Let_def)

theorem deletion_decides_by_use_witness:
  "MysqlConfigDeleteHandler_Handle (mem_client st_meta) toy_indexed_configs ''ns'' ''my1'' [toy_labelled_site] =
     Denied (''There are sites using this environment: '' @ show_slice [''s'']) \<and>
   MongoConfigDeleteHandler_Handle (mem_client st_meta) toy_indexed_configs ''ns'' ''my1'' [toy_labelled_site] = Allowed"
  using deletion_decides_by_use[OF mem_client_store toy_indexed, of "[toy_labelled_site]" "''my1''" "''ns''"]
  by (simp add: toy_admitted deletion_verdict_def uses_def toy_labelled_services toy_service_def zero_service_def)

theorem used_environments_protected_witness:
  "\<exists>m. MysqlConfigDeleteHandler_Handle (mem_client st_meta) toy_indexed_configs ''ns'' ''my1'' [toy_labelled_site] = Denied m"
proof -
  have "GetMysqlConfigForService toy_labelled_site (toy_service ''shop'' ''sh'') = ''my1''"
    by (simp add: GetMysqlConfigForService_def site_service_of_def lookup_or_def toy_labelled_services toy_service_def)
  then show ?thesis
    using used_environments_protected[OF mem_client_store toy_indexed, of "[toy_labelled_site]" toy_labelled_site
        "toy_service ''shop'' ''sh''"]
    by (simp add: toy_admitted toy_labelled_services toy_service_def)
qed

theorem admitted_site_as_specified_witness:
  "\<exists>cfgs. map_of (site_services toy_labelled_site) = admitted_service cfgs (toy_site ''s'' ''db'')"
  using admitted_site_as_specified[OF toy_admission range_order_id toy_wf] by blast

theorem admission_idempotent_witness:
  "\<exists>site'. StagingsiteHandler_Handle (\<lambda>l ks. rev ks) (\<lambda>s. None) toy_paged (Inr toy_labelled_site) = Some (Patched site') \<and>
     map_of (om_labels (st_meta site')) = map_of (om_labels (st_meta toy_labelled_site))"
  using admission_idempotent[OF toy_admission range_order_id toy_wf range_order_rev refl] by blast



section \<open>Short names\<close>

definition short_key :: "service_config \<Rightarrow> string \<times> string" where
  "short_key c = (om_namespace (sc_meta c), sc_short_name c)"

text \<open>Keys and short names are unique, the latter within a namespace.\<close>

definition short_names_unique :: "service_config list \<Rightarrow> bool" where
  "short_names_unique cs \<longleftrightarrow> distinct (map (obj_key sc_meta) cs) \<and> distinct (map short_key cs)"

text \<open>What the API server does with an allowed create or update.\<close>

definition upsert :: "service_config \<Rightarrow> service_config list \<Rightarrow> service_config list" where
  "upsert c cs =
     (if obj_key sc_meta c \<in> obj_key sc_meta ` set cs
      then map (\<lambda>y. if obj_key sc_meta y = obj_key sc_meta c then c else y) cs else cs @ [c])"

lemma taken_short_name_refused:
  assumes items: "cl_list_field (cc_service cc) (om_namespace (sc_meta config)) index_ShortName
      (sc_short_name config) w = Inr items"
    and bad: "length items > 1 \<or> length items = 1 \<and> sc_name (items ! 0) \<noteq> sc_name config"
  shows "ServiceConfigCreateOrUpdateHandler_Handle x cc (Inr config) w \<noteq> Allowed"
  unfolding ServiceConfigCreateOrUpdateHandler_Handle_def Let_def sum.case items if_P[OF bad]
  by (cases "LoadServiceConfigs cc w
      (NewSite (GetDummySite (sc_name config) (om_namespace (sc_meta config))) config)"; simp only: sum.case)
    (simp, split sum.split, simp)

lemma Allowed_short_name:
  assumes "ServiceConfigCreateOrUpdateHandler_Handle x cc (Inr config) w = Allowed"
    and "indexed_store sc_meta service_config_index (cc_service cc) confs"
    and "c \<in> set (confs w)" "short_key c = short_key config"
  shows "obj_key sc_meta c = obj_key sc_meta config"
proof -
  let ?items = "filter (\<lambda>c. om_namespace (sc_meta c) = om_namespace (sc_meta config) \<and>
      sc_short_name config \<in> set (service_config_index index_ShortName c)) (confs w)"
  have good: "\<not> (length ?items > 1 \<or> length ?items = 1 \<and> sc_name (?items ! 0) \<noteq> sc_name config)"
  proof
    assume bad: "length ?items > 1 \<or> length ?items = 1 \<and> sc_name (?items ! 0) \<noteq> sc_name config"
    have items: "cl_list_field (cc_service cc) (om_namespace (sc_meta config)) index_ShortName (sc_short_name config) w = Inr ?items"
      using assms(2) by (simp only: indexed_store_def)
    show False using taken_short_name_refused[OF items bad] assms(1) by contradiction
  qed
  have single: "y = xs ! 0" if "length xs = 1" "y \<in> set xs" for xs :: "service_config list" and y
    using that by (cases xs) auto
  have c: "c \<in> set ?items" using assms(3,4) by (simp add: short_key_def)
  have one: "length ?items = 1" using good length_pos_if_in_set[OF c] by linarith
  have "c = ?items ! 0" by (rule single[OF one c])
  moreover have "sc_name (?items ! 0) = sc_name config" using good one by blast
  ultimately have name: "sc_name c = sc_name config" by (simp only:)
  then show ?thesis using name assms(4) by (simp add: obj_key_def short_key_def)
qed

lemma distinct_map_replace:
  assumes "distinct (map f xs)"
    and "\<And>y z. y \<in> set xs \<Longrightarrow> z \<in> set xs \<Longrightarrow> P y \<Longrightarrow> P z \<Longrightarrow> y = z"
    and "\<And>z. z \<in> set xs \<Longrightarrow> \<not> P z \<Longrightarrow> f a \<noteq> f z"
  shows "distinct (map (\<lambda>y. f (if P y then a else y)) xs)"
proof -
  have "inj_on (\<lambda>y. f (if P y then a else y)) (set xs)"
  proof (rule inj_onI)
    fix y z assume yz: "y \<in> set xs" "z \<in> set xs" "f (if P y then a else y) = f (if P z then a else z)"
    show "y = z"
    proof (cases "P y = P z")
      case True
      then show ?thesis using yz assms(2)[of y z] assms(1) by (cases "P y") (auto simp: distinct_map dest: inj_onD)
    next
      case False
      then show ?thesis using yz assms(3)[of y] assms(3)[of z] by (cases "P y") auto
    qed
  qed
  then show ?thesis using assms(1) by (simp add: distinct_map)
qed

text \<open>
  C17. The short names of the service configurations of a namespace stay unique: the handler allows a
  create or an update only when no other configuration has the short name, so storing what it allowed
  keeps the invariant. The database and user names of a site are built from the short names.
\<close>

theorem short_names_stay_unique:
  assumes "ServiceConfigCreateOrUpdateHandler_Handle x cc (Inr config) w = Allowed"
    and "indexed_store sc_meta service_config_index (cc_service cc) confs"
    and "short_names_unique (confs w)"
  shows "short_names_unique (upsert config (confs w))"
proof -
  note other = Allowed_short_name[OF assms(1,2)]
  have keys: "distinct (map (obj_key sc_meta) (confs w))" "distinct (map short_key (confs w))"
    using assms(3) by (simp_all add: short_names_unique_def)
  show ?thesis
  proof (cases "obj_key sc_meta config \<in> obj_key sc_meta ` set (confs w)")
    case False
    then have "short_key config \<notin> short_key ` set (confs w)" using other by (force simp: image_iff)
    then show ?thesis using False keys by (simp add: upsert_def short_names_unique_def)
  next
    case True
    let ?P = "\<lambda>y. obj_key sc_meta y = obj_key sc_meta config"
    have inj: "y = z" if "y \<in> set (confs w)" "z \<in> set (confs w)" "?P y" "?P z" for y z
      using keys(1) that by (metis distinct_map inj_onD)
    have "map (obj_key sc_meta) (upsert config (confs w)) = map (obj_key sc_meta) (confs w)"
      using True by (simp add: upsert_def)
    moreover have "distinct (map (\<lambda>y. short_key (if ?P y then config else y)) (confs w))"
      by (rule distinct_map_replace[OF keys(2)]) (use inj other in metis)+
    ultimately show ?thesis using True keys(1)
      by (simp only: short_names_unique_def) (simp add: upsert_def comp_def)
  qed
qed

lemma replace_entries_empty [simp]: "replace_entries nvs [] = []"
  by (induction nvs) simp_all

lemma replaced_empty [simp]: "ReplaceTemplateVariablesInString ord l [] ts = []"
  by (induction ts arbitrary: l) simp_all

definition toy_new_config :: service_config where
  "toy_new_config = toy_service ''blog'' ''bl''"

definition toy_webhook_clients :: "'w config_clients" where
  "toy_webhook_clients = \<lparr>cc_service = toy_indexed_configs, cc_mysql = static_client myc_meta [toy_environment],
     cc_mongo = static_client moc_meta [], cc_redis = static_client rec_meta []\<rparr>"

lemma toy_templates: "validateTemplates toy_externals toy_new_config handler = None"
  by (simp add: validateTemplates_def in_spec_def replace_spec_defs replace_in_object_def toy_externals_def
      toy_new_config_def toy_service_def GetUnresolvedTemplatesFromString_def Let_def)

lemma toy_new_config_fields:
  "sc_meta toy_new_config = new_meta ''blog'' ''ns'' []" "sc_short_name toy_new_config = ''bl''"
  "sc_default_mongo toy_new_config = []" "sc_default_mysql toy_new_config = ''my1''"
  "sc_default_redis toy_new_config = []"
  by (simp_all add: toy_new_config_def toy_service_def)

lemma toy_allowed: "ServiceConfigCreateOrUpdateHandler_Handle toy_externals toy_webhook_clients (Inr toy_new_config) w = Allowed"
  by (simp add: ServiceConfigCreateOrUpdateHandler_Handle_def LoadServiceConfigs_def LoadConfigs_def NewSite_def
      ListMongoConfigsInNamespace_def ListMysqlConfigsInNamespace_def ListRedisConfigsInNamespace_def by_name_def
      toy_webhook_clients_def toy_indexed_configs_def static_client_def selects_def toy_environment_def
      GetDummySite_def known_environment_def toy_templates
      toy_new_config_fields toy_service_def Let_def)

theorem short_names_stay_unique_witness:
  "short_names_unique (upsert toy_new_config [toy_service ''shop'' ''sh''])"
  using short_names_stay_unique[OF toy_allowed, of "\<lambda>w. [toy_service ''shop'' ''sh'']" undefined] toy_indexed
  by (simp add: toy_webhook_clients_def short_names_unique_def)
end
