(* ===== verification/DatabaseProvisioning.thy ===== *)
theory DatabaseProvisioning
  imports TaskControllerProperties
begin

text \<open>
  The task handler of the site controller and the MySQL task controller together, over an API
  server and a MySQL server. The work queue of the controller is an arbitrary list of requests:
  resources in any order, repeated, and requests for resources that are gone. Two turns for a
  resource are enough, one to put the finalizer on it and one to set up the database, and the
  handler then finds the databases of the site created and ready.
\<close>

section \<open>Turns of the controller\<close>

text \<open>The requests that the controller works off, one after the other, with their results.\<close>

fun work_off :: "('w, mysql_config) database_reconciler \<Rightarrow> ('w, mysql_config) client \<Rightarrow>
  ('w, mysql_database) client \<Rightarrow> (string \<times> string) list \<Rightarrow> 'w \<Rightarrow> reconcile_result list \<times> 'w" where
  "work_off rec cfgs dbs [] w = ([], w)"
| "work_off rec cfgs dbs (req # reqs) w =
     (case Mysql_doReconcile rec cfgs dbs (fst req) (snd req) w of
        (r, w') \<Rightarrow> map_prod (Cons r) id (work_off rec cfgs dbs reqs w'))"

text \<open>What a turn makes of a resource.\<close>

definition claimed :: "user_database \<Rightarrow> bool" where
  "claimed d \<longleftrightarrow> MysqlFinalizerName \<in> set (om_finalizers (db_meta d))"

definition claim :: "user_database \<Rightarrow> user_database" where
  "claim d = set_finalizers (om_finalizers (db_meta d) @ [MysqlFinalizerName]) d"

definition turn :: "user_database \<Rightarrow> user_database" where
  "turn d = (if claimed d then d\<lparr>db_state := TaskComplete\<rparr> else claim d)"

text \<open>
  The cluster: an API server that serves the stored resources, reports the others as not found
  and accepts the writes; a MySQL server on whose state the statements have their documented
  effect; and for every resource a configuration that leads to that server.
\<close>

definition mysql_cluster ::
  "'w mysql_server \<Rightarrow> ('w, mysql_database) client \<Rightarrow> ('w \<Rightarrow> mysql_database list) \<Rightarrow> ('w \<Rightarrow> mysql_state) \<Rightarrow> bool" where
  "mysql_cluster srv dbs objs view \<longleftrightarrow>
     database_store dbs objs view \<and> (\<forall>t. keeps_objects objs (my_exec srv t)) \<and>
     mysql_user_laws srv view \<and> mysql_database_laws srv view \<and>
     (\<forall>k w. k \<notin> obj_key db_meta ` set (objs w) \<longrightarrow> (\<exists>m. cl_get dbs (fst k) (snd k) w = Inl (NotFound m)))"

definition served ::
  "'w mysql_server \<Rightarrow> ('w, mysql_config) client \<Rightarrow> ('w \<Rightarrow> mysql_state) \<Rightarrow> mysql_database \<Rightarrow> bool" where
  "served srv cfgs view d \<longleftrightarrow> om_deletion (db_meta d) = None \<and> plain_spec (db_spec d) \<and>
     (\<exists>config. (\<forall>w. cl_get cfgs (om_namespace (db_meta d)) (ec_environment (ud_environment (db_spec d))) w = Inr config) \<and>
        mysql_login_law srv view (myc_host config) (myc_port config) \<and>
        my_open srv (dataSourceName (myc_username config) (myc_password config) (myc_host config) (myc_port config)) = None)"

definition plain_grants :: "mysql_state \<Rightarrow> bool" where
  "plain_grants s \<longleftrightarrow> (\<forall>g \<in> ms_grants s. plain_name (snd g))"

definition healthy ::
  "'w mysql_server \<Rightarrow> ('w, mysql_config) client \<Rightarrow> ('w \<Rightarrow> mysql_database list) \<Rightarrow> ('w \<Rightarrow> mysql_state) \<Rightarrow>
   'w \<Rightarrow> bool" where
  "healthy srv cfgs objs view w \<longleftrightarrow> distinct (map (obj_key db_meta) (objs w)) \<and>
     list_all (served srv cfgs view) (objs w) \<and> plain_grants (view w)"

definition establish :: "user_database \<Rightarrow> mysql_state \<Rightarrow> mysql_state" where
  "establish d = mysql_established (ud_username (db_spec d)) (ud_password (db_spec d)) (db_name d)"

lemma claim_simps [simp]:
  "db_spec (claim d) = db_spec d" "obj_key db_meta (claim d) = obj_key db_meta d" "claimed (claim d)"
  "om_namespace (db_meta (claim d)) = om_namespace (db_meta d)" "om_labels (db_meta (claim d)) = om_labels (db_meta d)"
  "om_name (db_meta (claim d)) = om_name (db_meta d)" "om_deletion (db_meta (claim d)) = om_deletion (db_meta d)"
  by (simp_all add: claim_def claimed_def set_finalizers_def obj_key_def)

lemma turn_simps [simp]:
  "db_spec (turn d) = db_spec d" "obj_key db_meta (turn d) = obj_key db_meta d" "claimed (turn d)"
  "om_namespace (db_meta (turn d)) = om_namespace (db_meta d)" "om_labels (db_meta (turn d)) = om_labels (db_meta d)"
  "om_name (db_meta (turn d)) = om_name (db_meta d)" "om_deletion (db_meta (turn d)) = om_deletion (db_meta d)"
  by (simp_all add: turn_def obj_key_def) (simp add: claimed_def)

lemma claimed_state [simp]: "claimed (d\<lparr>db_state := s\<rparr>) = claimed d"
  by (simp add: claimed_def)

lemma turn_claimed: "claimed d \<Longrightarrow> turn d = d\<lparr>db_state := TaskComplete\<rparr>"
  by (simp add: turn_def)

lemma turns_keep [simp]:
  "db_spec ((turn ^^ n) d) = db_spec d" "obj_key db_meta ((turn ^^ n) d) = obj_key db_meta d"
  "om_namespace (db_meta ((turn ^^ n) d)) = om_namespace (db_meta d)"
  "om_name (db_meta ((turn ^^ n) d)) = om_name (db_meta d)"
  "om_labels (db_meta ((turn ^^ n) d)) = om_labels (db_meta d)"
  by (induction n) simp_all

lemma two_turns: "db_state ((turn ^^ Suc (Suc n)) d) = TaskComplete"
  by (simp add: turn_def)

lemma served_turn [simp]: "served srv cfgs view (turn d) = served srv cfgs view d"
  by (simp add: served_def)

lemma plain_grants_establish: "plain_spec (db_spec d) \<Longrightarrow> plain_grants s \<Longrightarrow> plain_grants (establish d s)"
  by (auto simp: plain_grants_def establish_def mysql_established_def plain_spec_def)

lemma put_turn:
  assumes "distinct (map (obj_key db_meta) xs)" "d \<in> set xs"
  shows "put_object (turn d) xs = map (\<lambda>x. if obj_key db_meta x = obj_key db_meta d then turn x else x) xs"
  unfolding put_object_def by (rule map_cong[OF refl]) (use same_key_same[OF assms(1) _ assms(2)] in auto)

section \<open>One turn\<close>

text \<open>A turn succeeds; a claimed resource has its database set up, another one is claimed.\<close>

lemma turn_taken:
  assumes c: "mysql_cluster srv dbs objs view" and h: "healthy srv cfgs objs view w" and d: "d \<in> set (objs w)"
  obtains r w' where
    "Mysql_doReconcile (DefaultMysqlReconciler (\<lambda>dsn. srv)) cfgs dbs (om_namespace (db_meta d)) (om_name (db_meta d)) w = ((r, None), w')"
    "objs w' = put_object (turn d) (objs w)" "view w' = (if claimed d then establish d (view w) else view w)"
proof -
  have api: "database_store dbs objs view" and exec: "\<And>t. keeps_objects objs (my_exec srv t)"
    and laws: "mysql_user_laws srv view" "mysql_database_laws srv view"
    using c by (simp_all add: mysql_cluster_def)
  have dist: "distinct (map (obj_key db_meta) (objs w))" and s: "served srv cfgs view d" and g: "plain_grants (view w)"
    using h d by (auto simp: healthy_def list_all_iff)
  obtain config where live: "om_deletion (db_meta d) = None" "plain_spec (db_spec d)"
    and config: "cl_get cfgs (om_namespace (db_meta d)) (ec_environment (ud_environment (db_spec d))) w = Inr config"
      "mysql_login_law srv view (myc_host config) (myc_port config)"
      "my_open srv (dataSourceName (myc_username config) (myc_password config) (myc_host config) (myc_port config)) = None"
    using s unfolding served_def by blast
  have run: "Mysql_doReconcile (DefaultMysqlReconciler (\<lambda>dsn. srv)) cfgs dbs (om_namespace (db_meta d)) (om_name (db_meta d)) w =
      Database_handle MysqlFinalizerName (DefaultMysqlReconciler (\<lambda>dsn. srv)) dbs d config w"
    using database_storeD(1)[OF api dist d] config(1) by (simp add: Mysql_doReconcile_def)
  show thesis
  proof (cases "claimed d")
    case True
    have grants: "\<forall>e. (ud_username (db_spec d), e) \<in> ms_grants (view w) \<longrightarrow> plain_name e"
      using g by (auto simp: plain_grants_def)
    obtain w' where "Database_handle MysqlFinalizerName (DefaultMysqlReconciler (\<lambda>dsn. srv)) dbs d config w = ((no_requeue, None), w')"
      "objs w' = put_object (d\<lparr>db_state := TaskComplete\<rparr>) (objs w)"
      "view w' = mysql_established (ud_username (db_spec d)) (ud_password (db_spec d)) (db_name d) (view w)"
      by (rule provision_second_pass[OF api exec laws config(2,3) d dist live(1) True[unfolded claimed_def] live(2) grants])
    then show thesis using True by (intro that[of no_requeue w']) (simp_all add: run turn_claimed establish_def)
  next
    case False
    obtain w' where w': "cl_update dbs (claim d) w = (Inr (claim d), w')" "objs w' = put_object (claim d) (objs w)" "view w' = view w"
      using database_storeD(2)[OF api, of "claim d" w] d by auto
    have "Database_handle MysqlFinalizerName (DefaultMysqlReconciler (\<lambda>dsn. srv)) dbs d config w = ((requeue_now, None), w')"
      using w'(1) False live(1) by (simp add: Database_handle_def SliceContainsString_set claimed_def claim_def)
    then show thesis using w'(2,3) False by (intro that[of requeue_now w']) (simp_all add: run turn_def)
  qed
qed

definition after_turn :: "string \<times> string \<Rightarrow> user_database \<Rightarrow> user_database" where
  "after_turn k x = (if obj_key db_meta x = k then turn x else x)"

lemma after_turn_simps [simp]:
  "db_spec (after_turn k d) = db_spec d" "obj_key db_meta (after_turn k d) = obj_key db_meta d"
  "served srv cfgs view (after_turn k d) = served srv cfgs view d"
  by (simp_all add: after_turn_def)

text \<open>A request, whether its resource is there or not.\<close>

lemma request_served:
  assumes c: "mysql_cluster srv dbs objs view" and h: "healthy srv cfgs objs view w"
  obtains r w' where
    "Mysql_doReconcile (DefaultMysqlReconciler (\<lambda>dsn. srv)) cfgs dbs (fst k) (snd k) w = ((r, None), w')"
    "objs w' = map (after_turn k) (objs w)" "healthy srv cfgs objs view w'"
    "view w' = view w \<and> (\<forall>d \<in> set (objs w). obj_key db_meta d = k \<longrightarrow> \<not> claimed d) \<or>
     (\<exists>d \<in> set (objs w). obj_key db_meta d = k \<and> claimed d \<and> view w' = establish d (view w))"
proof (cases "k \<in> obj_key db_meta ` set (objs w)")
  case True
  then obtain d where d: "d \<in> set (objs w)" "obj_key db_meta d = k" by auto
  have k: "fst k = om_namespace (db_meta d)" "snd k = om_name (db_meta d)" using d(2) by (auto simp: obj_key_def)
  have dist: "distinct (map (obj_key db_meta) (objs w))" and s: "served srv cfgs view d"
    using h d(1) by (auto simp: healthy_def list_all_iff)
  obtain r w' where w': "Mysql_doReconcile (DefaultMysqlReconciler (\<lambda>dsn. srv)) cfgs dbs (fst k) (snd k) w = ((r, None), w')"
    "objs w' = put_object (turn d) (objs w)" "view w' = (if claimed d then establish d (view w) else view w)"
    unfolding k by (rule turn_taken[OF c h d(1)])
  have o: "objs w' = map (after_turn k) (objs w)"
    unfolding w'(2) put_turn[OF dist d(1)] d(2) after_turn_def by (rule refl)
  have "plain_grants (view w')"
    using h s w'(3) plain_grants_establish[of d "view w"] by (simp add: healthy_def served_def)
  then have "healthy srv cfgs objs view w'"
    using h by (simp add: healthy_def o list_all_iff comp_def)
  moreover have "view w' = view w \<and> (\<forall>e \<in> set (objs w). obj_key db_meta e = k \<longrightarrow> \<not> claimed e) \<or>
     (\<exists>e \<in> set (objs w). obj_key db_meta e = k \<and> claimed e \<and> view w' = establish e (view w))"
  proof (cases "claimed d")
    case True
    then have "view w' = establish d (view w)" using w'(3) by (simp only: if_True)
    with True d show ?thesis by blast
  next
    case False
    then have "view w' = view w" using w'(3) by (simp only: if_False)
    moreover have "e = d" if "e \<in> set (objs w)" "obj_key db_meta e = k" for e
      using same_key_same[OF dist that(1) d(1)] that(2) d(2) by (simp only:)
    ultimately show ?thesis using False by blast
  qed
  ultimately show thesis by (intro that[OF w'(1) o])
next
  case False
  then obtain m where "cl_get dbs (fst k) (snd k) w = Inl (NotFound m)" using c unfolding mysql_cluster_def by blast
  then have "Mysql_doReconcile (DefaultMysqlReconciler (\<lambda>dsn. srv)) cfgs dbs (fst k) (snd k) w = ((no_requeue, None), w)"
    by (simp add: Mysql_doReconcile_def)
  moreover have "map (after_turn k) (objs w) = objs w" using False by (intro map_idI) (auto simp: after_turn_def)
  moreover have "\<forall>d \<in> set (objs w). obj_key db_meta d = k \<longrightarrow> \<not> claimed d" using False by blast
  ultimately show thesis using h by (intro that[of no_requeue w]) simp_all
qed


section \<open>Any schedule\<close>

definition after_turns :: "(string \<times> string) list \<Rightarrow> user_database \<Rightarrow> user_database" where
  "after_turns ks x = (turn ^^ count_list ks (obj_key db_meta x)) x"

lemma after_turns_Nil [simp]: "after_turns [] = (\<lambda>x. x)"
  by (simp add: after_turns_def fun_eq_iff)

lemma after_turns_simps [simp]:
  "after_turns ks (after_turn k x) = after_turns (k # ks) x"
  "db_spec (after_turns ks x) = db_spec x" "obj_key db_meta (after_turns ks x) = obj_key db_meta x"
  by (simp_all add: after_turns_def after_turn_def funpow_swap1)

lemma after_turns_complete:
  assumes "2 \<le> count_list ks (obj_key db_meta x)"
  shows "db_state (after_turns ks x) = TaskComplete"
proof -
  obtain n where "count_list ks (obj_key db_meta x) = Suc (Suc n)" using assms by (metis add_2_eq_Suc le_Suc_ex)
  then show ?thesis using two_turns by (simp only: after_turns_def)
qed

text \<open>Whatever the schedule, no turn fails, and a resource is changed by its own turns only.\<close>

lemma schedule_served:
  assumes "mysql_cluster srv dbs objs view" "healthy srv cfgs objs view w"
  shows "\<exists>rs w'. work_off (DefaultMysqlReconciler (\<lambda>dsn. srv)) cfgs dbs ks w = (rs, w') \<and> (\<forall>r \<in> set rs. snd r = None) \<and>
    objs w' = map (after_turns ks) (objs w) \<and> healthy srv cfgs objs view w'"
  using assms(2)
proof (induction ks arbitrary: w)
  case (Cons k ks)
  obtain r w1 where w1: "Mysql_doReconcile (DefaultMysqlReconciler (\<lambda>dsn. srv)) cfgs dbs (fst k) (snd k) w = ((r, None), w1)"
    "objs w1 = map (after_turn k) (objs w)" "healthy srv cfgs objs view w1"
    by (rule request_served[OF assms(1) Cons.prems])
  from Cons.IH[OF w1(3)] show ?case
  proof (elim exE conjE, goal_cases)
    case (1 rs w')
    have "objs w' = map (after_turns (k # ks)) (objs w)" by (simp add: 1(3) w1(2))
    then show ?case using 1 w1(1) by (intro exI[of _ "(r, None) # rs"] exI[of _ w']) simp
  qed
qed simp

text \<open>
  The server: a resource whose user belongs to no other resource has its user, database and
  right set up for good by its second turn.
\<close>

definition established :: "user_database \<Rightarrow> mysql_state \<Rightarrow> bool" where
  "established d s \<longleftrightarrow> ms_users s (ud_username (db_spec d)) = Some (ud_password (db_spec d)) \<and>
     db_name d \<in> ms_dbs s \<and> (\<forall>e. (ud_username (db_spec d), e) \<in> ms_grants s \<longleftrightarrow> e = db_name d)"

definition own_user :: "user_database \<Rightarrow> user_database list \<Rightarrow> bool" where
  "own_user d xs \<longleftrightarrow> list_all (\<lambda>e. ud_username (db_spec e) = ud_username (db_spec d) \<longrightarrow> e = d) xs"

lemma establish_established: "established d (establish d s)"
  by (auto simp: established_def establish_def mysql_established_def)

lemma establish_other:
  "ud_username (db_spec e) \<noteq> ud_username (db_spec d) \<Longrightarrow> established d s \<Longrightarrow> established d (establish e s)"
  by (auto simp: established_def establish_def mysql_established_def)

lemma established_spec: "db_spec d = db_spec e \<Longrightarrow> established d s = established e s"
  by (simp add: established_def)

lemma own_user_turn: "own_user d xs \<Longrightarrow> own_user (after_turn k d) (map (after_turn k) xs)"
  by (auto simp: own_user_def list_all_iff)

text \<open>The turns that a resource still needs.\<close>

definition turns_left :: "user_database \<Rightarrow> mysql_state \<Rightarrow> nat" where
  "turns_left d s = (if established d s then 0 else if claimed d then 1 else 2)"

lemma turns_left_request:
  assumes "d \<in> set xs" "own_user d xs"
    and "s' = s \<and> (\<forall>e \<in> set xs. obj_key db_meta e = k \<longrightarrow> \<not> claimed e) \<or>
      (\<exists>e \<in> set xs. obj_key db_meta e = k \<and> claimed e \<and> s' = establish e s)"
    and "distinct (map (obj_key db_meta) xs)"
  shows "turns_left (after_turn k d) s' \<le> turns_left d s - (if obj_key db_meta d = k then 1 else 0)"
  using assms(3)
proof (elim disjE conjE bexE)
  assume "s' = s" "\<forall>e \<in> set xs. obj_key db_meta e = k \<longrightarrow> \<not> claimed e"
  then show ?thesis
    using assms(1) established_spec[of "after_turn k d" d s] by (auto simp: turns_left_def after_turn_def)
next
  fix e assume e: "e \<in> set xs" "obj_key db_meta e = k" "claimed e" "s' = establish e s"
  show ?thesis
  proof (cases "e = d")
    case True
    then have "established (after_turn k d) s'"
      using e(4) establish_established[of d s] established_spec[of "after_turn k d" d] by simp
    then show ?thesis by (simp add: turns_left_def)
  next
    case False
    then have "obj_key db_meta d \<noteq> k" using same_key_same[OF assms(4,1) e(1)] e(2) by auto
    moreover have "ud_username (db_spec e) \<noteq> ud_username (db_spec d)"
      using assms(2) e(1) False unfolding own_user_def list_all_iff by blast
    then have "established d s \<Longrightarrow> established d s'" using establish_other[of e d s] e(4) by simp
    ultimately show ?thesis by (simp add: turns_left_def after_turn_def)
  qed
qed

lemma schedule_establishes:
  assumes c: "mysql_cluster srv dbs objs view" and h: "healthy srv cfgs objs view w"
    and d: "d \<in> set (objs w)" "own_user d (objs w)" "turns_left d (view w) \<le> count_list ks (obj_key db_meta d)"
    and run: "work_off (DefaultMysqlReconciler (\<lambda>dsn. srv)) cfgs dbs ks w = (rs, w')"
  shows "established d (view w')"
  using h d run
proof (induction ks arbitrary: w d rs)
  case Nil
  then show ?case by (simp add: turns_left_def split: if_splits)
next
  case (Cons k ks)
  obtain r w1 where w1: "Mysql_doReconcile (DefaultMysqlReconciler (\<lambda>dsn. srv)) cfgs dbs (fst k) (snd k) w = ((r, None), w1)"
    "objs w1 = map (after_turn k) (objs w)" "healthy srv cfgs objs view w1"
    and server: "view w1 = view w \<and> (\<forall>d \<in> set (objs w). obj_key db_meta d = k \<longrightarrow> \<not> claimed d) \<or>
     (\<exists>d \<in> set (objs w). obj_key db_meta d = k \<and> claimed d \<and> view w1 = establish d (view w))"
    by (rule request_served[OF c Cons.prems(1)])
  have "distinct (map (obj_key db_meta) (objs w))" using Cons.prems(1) by (simp add: healthy_def)
  from turns_left_request[OF Cons.prems(2,3) server this]
  have "turns_left (after_turn k d) (view w1) \<le> count_list ks (obj_key db_meta (after_turn k d))"
    using Cons.prems(4) by (simp split: if_splits)
  moreover obtain rs' where "work_off (DefaultMysqlReconciler (\<lambda>dsn. srv)) cfgs dbs ks w1 = (rs', w')"
    using Cons.prems(5) w1(1) by (cases "work_off (DefaultMysqlReconciler (\<lambda>dsn. srv)) cfgs dbs ks w1") simp
  ultimately have "established (after_turn k d) (view w')"
    using Cons.IH[OF w1(3)] w1(2) Cons.prems(2) own_user_turn[OF Cons.prems(3)] by simp
  then show ?case using established_spec[of "after_turn k d" d] by simp
qed


section \<open>From the site to its databases\<close>

text \<open>Writes of resources do not reach the MySQL server.\<close>

definition apart :: "('w, mysql_database) client \<Rightarrow> ('w \<Rightarrow> mysql_state) \<Rightarrow> bool" where
  "apart dbs view \<longleftrightarrow>
     (\<forall>d. keeps_objects view (cl_delete dbs d) \<and> keeps_objects view (cl_create dbs d) \<and> keeps_objects view (cl_update dbs d))"

lemma apart_loop:
  assumes "write_all f m w = (r, w')" "\<forall>d. keeps_objects view (f d)"
  shows "view w' = view w"
  by (rule write_all_invariant[OF assms(1), of "\<lambda>v. view v = view w"]) (use assms(2) keeps_objectsD in \<open>metis+\<close>)

lemma apart_pass:
  assumes "apart dbs view"
    and "run_loops [write_all (cl_delete dbs) D, write_all (cl_create dbs) C, write_all (cl_update dbs) U] w = (None, w')"
  shows "view w' = view w"
proof -
  obtain w1 where 1: "write_all (cl_delete dbs) D w = (None, w1)"
    using assms(2) by (cases "write_all (cl_delete dbs) D w") (auto split: option.splits)
  obtain w2 where 2: "write_all (cl_create dbs) C w1 = (None, w2)"
    using assms(2) 1 by (cases "write_all (cl_create dbs) C w1") (auto split: option.splits)
  have 3: "write_all (cl_update dbs) U w2 = (None, w')" using assms(2) 1 2 by (auto split: prod.splits option.splits)
  show ?thesis using apart_loop[OF 1, of view] apart_loop[OF 2, of view] apart_loop[OF 3, of view] assms(1) by (simp add: apart_def)
qed

text \<open>A pass of the handler leaves a healthy cluster.\<close>

lemma served_update:
  assumes "served srv cfgs view x" "served srv cfgs view e"
  shows "served srv cfgs view (MysqlDatabase_UpdateFromExpected x e)"
  using assms by (simp add: served_def MysqlDatabase_UpdateFromExpected_def)

lemma healthy_after_pass:
  assumes r: "mysql.ready ns sel E (objs w)" and pm: "mysql.plan_maps ns sel E (objs w) D C U"
    and o: "objs w1 = mysql.after_pass ns sel E (objs w) D C U"
    and s: "list_all (served srv cfgs view) (objs w @ map snd E)" "plain_grants (view w)" "view w1 = view w"
  shows "healthy srv cfgs objs view w1"
proof -
  have all: "\<forall>x \<in> set (objs w) \<union> snd ` set E. served srv cfgs view x" using s(1) by (auto simp: list_all_iff)
  have "served srv cfgs view z" if "z \<in> set (objs w1)" for z
    using mysql.after_pass_members[OF r pm that[unfolded o]]
  proof (elim disjE bexE conjE)
    fix x e assume "x \<in> set (objs w)" "e \<in> snd ` set E" "z = MysqlDatabase_UpdateFromExpected x e"
    then show ?thesis using served_update[of srv cfgs view x e] all by blast
  qed (use all in blast)
  then show ?thesis
    using mysql.after_pass_names[OF r pm] s(2,3) by (simp add: healthy_def o list_all_iff)
qed

text \<open>Turns do not change what the handler compares.\<close>

lemma in_sync_turns:
  assumes "mysql.in_sync E (filter (selects db_meta ns sel) xs)"
  shows "mysql.in_sync E (filter (selects db_meta ns sel) (map (after_turns ks) xs))"
proof -
  have k: "db_service (after_turns ks x) = db_service x" "selects db_meta ns sel (after_turns ks x) = selects db_meta ns sel x"
    "MysqlDatabase_Matches (after_turns ks x) e = MysqlDatabase_Matches x e" for x e
    by (simp_all add: db_service_def selects_def MysqlDatabase_Matches_def after_turns_def obj_key_def)
  have "(selects db_meta ns sel \<circ> after_turns ks) = selects db_meta ns sel" "db_service \<circ> after_turns ks = db_service"
    by (simp_all add: fun_eq_iff k)
  then show ?thesis
    using assms by (simp add: mysql.in_sync_def filter_map image_image k)
qed

lemma own_user_turns:
  assumes "own_user (after_turns ks d) (map (after_turns ks) xs)" "d \<in> set xs" "distinct (map (obj_key db_meta) xs)"
  shows "own_user d xs"
  unfolding own_user_def list_all_iff
proof (intro ballI impI)
  fix e assume e: "e \<in> set xs" "ud_username (db_spec e) = ud_username (db_spec d)"
  then have "after_turns ks e = after_turns ks d" using assms(1) by (simp add: own_user_def list_all_iff)
  then have "obj_key db_meta e = obj_key db_meta d" by (metis after_turns_simps(3))
  then show "e = d" by (rule same_key_same[OF assms(3) e(1) assms(2)])
qed

text \<open>After a schedule that gives every database of the site two turns.\<close>

lemma provisioned_after_schedule:
  assumes store: "kube_store db_meta dbs objs" and c: "mysql_cluster srv dbs objs view"
    and h: "healthy srv cfgs objs view w"
    and turns: "\<forall>d \<in> set (objs w). selects db_meta (st_namespace site) [(labels_Site, st_name site)] d \<longrightarrow>
      2 \<le> count_list ks (obj_key db_meta d)"
    and run: "work_off (DefaultMysqlReconciler (\<lambda>dsn. srv)) cfgs dbs ks w = (rs, w')"
  shows "Mysql_EnsureDatabasesAreReady dbs site w' = Inr True"
    and "\<forall>d \<in> set (objs w'). selects db_meta (st_namespace site) [(labels_Site, st_name site)] d \<and> own_user d (objs w') \<longrightarrow>
      established d (view w')"
proof -
  let ?sel = "selects db_meta (st_namespace site) [(labels_Site, st_name site)]"
  have o: "objs w' = map (after_turns ks) (objs w)" using schedule_served[OF c h, of ks] run by auto
  have sel: "?sel (after_turns ks x) = ?sel x" for x by (simp add: selects_def after_turns_def)
  have "db_state d = TaskComplete" if d: "d \<in> set (objs w')" "?sel d" for d
  proof -
    obtain x where x: "x \<in> set (objs w)" "d = after_turns ks x" using d(1) o by auto
    then show ?thesis using d(2) turns after_turns_complete[of ks x] sel by simp
  qed
  then show "Mysql_EnsureDatabasesAreReady dbs site w' = Inr True"
    by (simp add: Mysql_EnsureDatabasesAreReady_def kube_storeD(1)[OF store] ready_loop_True)
  show "\<forall>d \<in> set (objs w'). ?sel d \<and> own_user d (objs w') \<longrightarrow> established d (view w')"
  proof (intro ballI impI)
    fix d assume d: "d \<in> set (objs w')" "?sel d \<and> own_user d (objs w')"
    obtain x where x: "x \<in> set (objs w)" "d = after_turns ks x" using d(1) o by auto
    have "distinct (map (obj_key db_meta) (objs w))" using h by (simp add: healthy_def)
    with own_user_turns[of ks x "objs w"] have own: "own_user x (objs w)" using d(2) x o by simp
    have "turns_left x (view w) \<le> count_list ks (obj_key db_meta x)"
      using turns x d(2) sel by (auto simp: turns_left_def)
    then have "established x (view w')" by (rule schedule_establishes[OF c h x(1) own _ run])
    then show "established d (view w')" using x(2) established_spec[of d x] by simp
  qed
qed



text \<open>The names that the operator makes up need no quoting.\<close>

lemma plain_name_db_char: "list_all db_char s \<Longrightarrow> s \<noteq> [] \<Longrightarrow> plain_name s"
  by (auto simp: plain_name_def list_all_iff db_char_def char_class_defs)

lemma populated_plain:
  assumes "digest_ok md5" "crd_value n (sp_password (st_spec site))"
    and "MysqlDatabase_PopulateFomSite md5 site (Some config) env = Inr d"
  shows "plain_spec (db_spec d)"
  using assms database_identifiers[OF assms(1), of site config]
  by (auto simp: plain_spec_def crd_value_def task_populate_defs intro: plain_name_db_char)

text \<open>Every resource twice, for the witness.\<close>

definition twice :: "user_database list \<Rightarrow> (string \<times> string) list" where
  "twice xs = concat (map (\<lambda>d. [obj_key db_meta d, obj_key db_meta d]) xs)"

lemma count_twice: "d \<in> set xs \<Longrightarrow> 2 \<le> count_list (twice xs) (obj_key db_meta d)"
  by (induction xs) (auto simp: twice_def)

definition toy_my1 :: mysql_config where
  "toy_my1 = toy_mysql_config\<lparr>myc_meta := new_meta ''my1'' ''ns'' []\<rparr>"

lemma toy_cluster: "mysql_cluster (beside toy_server) (on_first (mem_client db_meta)) fst (toy_view \<circ> snd)"
  unfolding mysql_cluster_def
proof (intro conjI allI impI)
  fix k and w :: "user_database list \<times> toy_world"
  assume "k \<notin> obj_key db_meta ` set (fst w)"
  then have "find (\<lambda>y. obj_key db_meta y = k) (fst w) = None" by (auto simp: find_None_iff)
  then show "\<exists>m. cl_get (on_first (mem_client db_meta)) (fst k) (snd k) w = Inl (NotFound m)"
    by (simp add: on_first_def mem_client_def)
qed (intro mem_database_store beside_keeps beside_laws toy_user_laws toy_database_laws)+

lemma toy_apart: "apart (on_first (mem_client db_meta)) (toy_view \<circ> snd)"
  by (simp add: apart_def keeps_objects_def on_first_def)

lemma toy_on_first_store: "kube_store db_meta (on_first (mem_client db_meta)) fst"
  by (auto simp: kube_store_def on_first_def mem_client_def)

lemma toy_mysql_served:
  "served (beside toy_server) (static_client myc_meta [toy_my1]) (toy_view \<circ> snd) toy_mysql"
proof -
  have "plain_spec (db_spec toy_mysql)"
    unfolding toy_mysql_def
    by (rule populated_plain[OF digest_ok_toy, where n = 32 and site = toy_db_site and config = "toy_service ''shop'' ''sh''" and env = "''my1''"])
      (simp_all add: task_populate_defs crd_value_def toy_db_site_def toy_site_def GetDummySite_def db_char_def char_class_defs)
  moreover have "om_deletion (db_meta toy_mysql) = None" "ec_environment (ud_environment (db_spec toy_mysql)) = ''my1''"
    by (simp_all add: toy_mysql_def task_populate_defs)
  moreover have "\<forall>w. cl_get (static_client myc_meta [toy_my1]) ''ns'' ''my1'' w = Inr toy_my1"
    by (simp add: static_client_def toy_my1_def obj_key_def)
  moreover have "my_open (beside toy_server) dsn = None" for dsn by (simp add: beside_def)
  ultimately show ?thesis
    unfolding served_def toy_mysql_facts(1)
    by (intro conjI exI[of _ toy_my1] beside_laws(3)[OF toy_login_law]) (simp_all only: simp_thms)
qed


end
