(* ===== verification/NetworkingProperties.thy ===== *)
theory NetworkingProperties
  imports WorkloadProperties DatabaseProvisioning
begin

text \<open>
  The services and ingresses of an enabled site converge in one pass of
  \<^verbatim>\<open>EnsureNetworkingObjectsAreUpToDate\<close>, and the next pass leaves everything alone.
\<close>

section \<open>The networking status does not reach the expected objects\<close>

text \<open>The site as the handler leaves it.\<close>

definition networked :: "bool \<Rightarrow> staging_site \<Rightarrow> staging_site" where
  "networked b site = site\<lparr>st_status := (st_status site)\<lparr>su_networking := b\<rparr>\<rparr>"

lemma networked_simps [simp]:
  "st_meta (networked b site) = st_meta site" "st_spec (networked b site) = st_spec site"
  "su_services (st_status (networked b site)) = su_services (st_status site)"
  "su_enabled (st_status (networked b site)) = su_enabled (st_status site)"
  "su_networking (st_status (networked b site)) = b"
  "networked c (networked b site) = networked c site"
  "site_service_of (networked b site) = site_service_of site"
  by (simp_all add: networked_def site_service_of_def fun_eq_iff)

lemma GetTemplateValues_networked:
  "GetTemplateValues md5 ord (h\<lparr>th_site := networked b (th_site h)\<rparr>) = GetTemplateValues md5 ord h"
proof -
  have "service_values md5 ord (h\<lparr>th_site := networked b (th_site h)\<rparr>) = service_values md5 ord h"
    by (intro ext) (simp add: service_values_def Let_def getCommonDatabaseConfigTemplateValues_def MakeServiceUrl_def)
  moreover have "own_values md5 ord (h\<lparr>th_site := networked b (th_site h)\<rparr>) = own_values md5 ord h"
    by (simp add: own_values_def Let_def getCommonDatabaseConfigTemplateValues_def MakeConfigmapName_def)
  ultimately show ?thesis by (simp add: GetTemplateValues_def)
qed

lemma LoadConfigs_site: "LoadConfigs cc w h = Inr h' \<Longrightarrow> th_site h' = th_site h"
  by (auto simp: LoadConfigs_def LoadServiceConfigs_def Let_def split: sum.splits)

lemma NewSite_networked: "NewSite (networked b site) c = (NewSite site c)\<lparr>th_site := networked b site\<rparr>"
  by (simp add: NewSite_def)

lemma LoadConfigs_networked:
  "LoadConfigs cc w (NewSite (networked b site) c) =
     map_sum id (\<lambda>h. h\<lparr>th_site := networked b (th_site h)\<rparr>) (LoadConfigs cc w (NewSite site c))"
  by (simp add: LoadConfigs_def LoadServiceConfigs_def Let_def NewSite_networked NewSite_def split: sum.splits)

lemma createService_networked: "createService x cc (networked b site) c w = createService x cc site c w"
  unfolding createService_def LoadConfigs_networked
  by (cases "LoadConfigs cc w (NewSite site c)") (simp_all add: GetTemplateValues_networked MakeServiceName_def Let_def cong: option.case_cong sum.case_cong)

lemma createIngress_networked: "createIngress x cc (networked b site) c w = createIngress x cc site c w"
  unfolding createIngress_def LoadConfigs_networked
  by (cases "LoadConfigs cc w (NewSite site c)")
    (simp_all add: GetTemplateValues_networked MakeServiceName_def MakeIngressName_def
       cong: option.case_cong sum.case_cong)

lemma expected_networked:
  "service_service x cc (networked b site) = service_service x cc site"
  "service_ingress x cc (networked b site) = service_ingress x cc site"
  unfolding fun_eq_iff service_service_def service_ingress_def createService_networked createIngress_networked by simp_all

lemma expected_static:
  assumes "static_configs cc"
  shows "service_service x cc site w = service_service x cc site w'"
    "service_ingress x cc site w = service_ingress x cc site w'"
proof -
  note load = static_configsD(2)[OF assms, of w _ w'] and get = static_configsD(1)[OF assms, of _ _ w w']
  have created: "createService x cc site c w = createService x cc site c w'"
    "createIngress x cc site c w = createIngress x cc site c w'" for c
    unfolding createService_def createIngress_def load by (rule refl)+
  show "service_service x cc site w = service_service x cc site w'"
    "service_ingress x cc site w = service_ingress x cc site w'"
    unfolding fun_eq_iff service_service_def service_ingress_def get created by simp_all
qed


section \<open>One pass\<close>

text \<open>
  What a pass of one kind leaves: one object for each expected one and no other, each of them
  either an old object, unchanged, or the expected one.
\<close>

definition settled ::
  "('o \<Rightarrow> object_meta) \<Rightarrow> ('o \<Rightarrow> string) \<Rightarrow> staging_site \<Rightarrow> 'o gomap \<Rightarrow> 'o list \<Rightarrow> 'o list \<Rightarrow> bool" where
  "settled meta key site E old new \<longleftrightarrow>
     (let mine = filter (selects meta (st_namespace site) [(labels_Site, st_name site)]) new
      in distinct (map key mine) \<and> key ` set mine = dom (map_of E) \<and> set new \<subseteq> set old \<union> snd ` set E)"

lemma services_pass:
  assumes store: "kube_store ks_meta svcs objs" and ord: "range_order (ex_order x)"
    and on: "su_enabled (st_status site)"
    and E: "build_expected (service_service x cc site w) (go_range (ex_order x) 50 (site_services site)) [] = Inr E"
    and r: "kservice.ready (st_namespace site) [(labels_Site, st_name site)] E (objs w)"
  obtains w' where "ensureServicesAreUpToDate x cc svcs site w = (Inr True, w')"
    "settled ks_meta ks_service site E (objs w) (objs w')"
    "\<exists>D C. run_loops [write_all (cl_delete svcs) D, write_all (cl_create svcs) C] w = (None, w')"
proof -
  let ?p = "kservice.plan_of (st_namespace site) [(labels_Site, st_name site)] E (objs w)"
  have none: "to_update ?p = []" unfolding kservice.plan_of_def by (simp add: no_update_when_all_match)
  obtain w' where w': "run_loops [write_all (cl_delete svcs) (go_range (ex_order x) 60 (to_delete ?p)),
       write_all (cl_create svcs) (go_range (ex_order x) 62 (to_create ?p))] w = (None, w')"
      and sync: "kservice.in_sync E (filter (selects ks_meta (st_namespace site) [(labels_Site, st_name site)]) (objs w'))"
      and sub: "set (objs w') \<subseteq> set (objs w) \<union> snd ` set E"
    by (rule kservice.pass_without_updates[OF r ord store none])
  have "ensureServicesAreUpToDate x cc svcs site w = (Inr True, w')"
    using w' by (simp add: ensureServicesAreUpToDate_def kube_storeD(1)[OF store] on E kservice.plan_of_def)
  moreover have "settled ks_meta ks_service site E (objs w) (objs w')"
    using sync sub by (simp add: settled_def Let_def kservice.in_sync_def)
  ultimately show ?thesis using w' that by blast
qed

lemma ingresses_pass:
  assumes store: "kube_store ki_meta ings objs" and ord: "range_order (ex_order x)"
    and on: "su_enabled (st_status site)"
    and E: "build_expected (service_ingress x cc site w) (go_range (ex_order x) 50 (site_services site)) [] = Inr E"
    and r: "kingress.ready (st_namespace site) [(labels_Site, st_name site)] E (objs w)"
  obtains w' where "ensureIngressesAreUpToDate x cc ings site w = (Inr True, w')"
    "settled ki_meta ki_service site E (objs w) (objs w')"
    "\<exists>D C. run_loops [write_all (cl_delete ings) D, write_all (cl_create ings) C] w = (None, w')"
proof -
  let ?p = "kingress.plan_of (st_namespace site) [(labels_Site, st_name site)] E (objs w)"
  have none: "to_update ?p = []" unfolding kingress.plan_of_def by (simp add: no_update_when_all_match)
  obtain w' where w': "run_loops [write_all (cl_delete ings) (go_range (ex_order x) 60 (to_delete ?p)),
       write_all (cl_create ings) (go_range (ex_order x) 62 (to_create ?p))] w = (None, w')"
      and sync: "kingress.in_sync E (filter (selects ki_meta (st_namespace site) [(labels_Site, st_name site)]) (objs w'))"
      and sub: "set (objs w') \<subseteq> set (objs w) \<union> snd ` set E"
    by (rule kingress.pass_without_updates[OF r ord store none])
  have "ensureIngressesAreUpToDate x cc ings site w = (Inr True, w')"
    using w' by (simp add: ensureIngressesAreUpToDate_def kube_storeD(1)[OF store] on E kingress.plan_of_def)
  moreover have "settled ki_meta ki_service site E (objs w) (objs w')"
    using sync sub by (simp add: settled_def Let_def kingress.in_sync_def)
  ultimately show ?thesis using w' that by blast
qed

text \<open>A settled collection gives a pass nothing to do.\<close>

lemma services_settled:
  assumes store: "kube_store ks_meta svcs objs" and ord: "range_order (ex_order x)"
    and on: "su_enabled (st_status site)" and wf: "wf_map E"
    and E: "build_expected (service_service x cc site w) (go_range (ex_order x) 50 (site_services site)) [] = Inr E"
    and s: "settled ks_meta ks_service site E old (objs w)"
  shows "ensureServicesAreUpToDate x cc svcs site w = (Inr True, w)"
proof -
  have "plan_empty (classify ks_service (\<lambda>s e. True) (\<lambda>s e. s)
      (filter (selects ks_meta (st_namespace site) [(labels_Site, st_name site)]) (objs w)) (start_plan E))"
    using s kservice.plan_empty_iff[OF _ wf] by (simp add: settled_def Let_def kservice.in_sync_def)
  then show ?thesis
    using ord by (simp add: ensureServicesAreUpToDate_def kube_storeD(1)[OF store] on E plan_empty_def)
qed

lemma ingresses_settled:
  assumes store: "kube_store ki_meta ings objs" and ord: "range_order (ex_order x)"
    and on: "su_enabled (st_status site)" and wf: "wf_map E"
    and E: "build_expected (service_ingress x cc site w) (go_range (ex_order x) 50 (site_services site)) [] = Inr E"
    and s: "settled ki_meta ki_service site E old (objs w)"
  shows "ensureIngressesAreUpToDate x cc ings site w = (Inr True, w)"
proof -
  have "plan_empty (classify ki_service (\<lambda>s e. True) (\<lambda>s e. s)
      (filter (selects ki_meta (st_namespace site) [(labels_Site, st_name site)]) (objs w)) (start_plan E))"
    using s kingress.plan_empty_iff[OF _ wf] by (simp add: settled_def Let_def kingress.in_sync_def)
  then show ?thesis
    using ord by (simp add: ensureIngressesAreUpToDate_def kube_storeD(1)[OF store] on E plan_empty_def)
qed


text \<open>The writes of one kind leave the objects of the other kind alone.\<close>

lemma two_loops_keep:
  assumes "\<forall>d. keeps_objects view (cl_delete cl d) \<and> keeps_objects view (cl_create cl d)"
    and "run_loops [write_all (cl_delete cl) D, write_all (cl_create cl) C] w = (None, w')"
  shows "view w' = view w"
proof -
  obtain w1 where 1: "write_all (cl_delete cl) D w = (None, w1)"
    using assms(2) by (cases "write_all (cl_delete cl) D w") (auto split: option.splits)
  have 2: "write_all (cl_create cl) C w1 = (None, w')"
    using assms(2) 1 by (auto split: prod.splits option.splits)
  from apart_loop[OF 1, of view] apart_loop[OF 2, of view] assms(1) show ?thesis by simp
qed

text \<open>
  C23. The networking of an enabled site converges in one pass: over a working API server, one pass
  of \<^verbatim>\<open>EnsureNetworkingObjectsAreUpToDate\<close> returns without an error, records the networking as
  complete, and leaves exactly one service (ingress) for each service of the site whose
  configuration has a service (ingress) spec, the ones that were there unchanged and the missing
  ones as expected; the next pass, on the site with its new status, writes nothing and reports no
  change.
\<close>

theorem networking_converges:
  assumes ks: "kube_store ks_meta svcs sobjs" and ki: "kube_store ki_meta ings iobjs"
    and apart: "\<forall>s. keeps_objects iobjs (cl_delete svcs s) \<and> keeps_objects iobjs (cl_create svcs s)"
      "\<forall>i. keeps_objects sobjs (cl_delete ings i) \<and> keeps_objects sobjs (cl_create ings i)"
    and ord: "range_order (ex_order x)" and cfgs: "static_configs cc" and on: "su_enabled (st_status site)"
    and S: "build_expected (service_service x cc site w) (go_range (ex_order x) 50 (site_services site)) [] = Inr S"
    and I: "build_expected (service_ingress x cc site w) (go_range (ex_order x) 50 (site_services site)) [] = Inr I"
    and rS: "kservice.ready (st_namespace site) [(labels_Site, st_name site)] S (sobjs w)"
    and rI: "kingress.ready (st_namespace site) [(labels_Site, st_name site)] I (iobjs w)"
  shows "\<exists>w'. EnsureNetworkingObjectsAreUpToDate x cc svcs ings site w =
             ((Inr (\<not> su_networking (st_status site)), networked True site), w') \<and>
           settled ks_meta ks_service site S (sobjs w) (sobjs w') \<and>
           settled ki_meta ki_service site I (iobjs w) (iobjs w') \<and>
           EnsureNetworkingObjectsAreUpToDate x cc svcs ings (networked True site) w' =
             ((Inr False, networked True site), w')"
proof -
  obtain w1 where s1: "ensureServicesAreUpToDate x cc svcs site w = (Inr True, w1)"
      "settled ks_meta ks_service site S (sobjs w) (sobjs w1)" and l1: "iobjs w1 = iobjs w"
    using services_pass[OF ks ord on S rS] two_loops_keep[OF apart(1)] by metis
  note st = expected_static[OF cfgs]
  have I1: "build_expected (service_ingress x cc site w1) (go_range (ex_order x) 50 (site_services site)) [] = Inr I"
    using I st(2)[of x site w1 w] by simp
  have rI1: "kingress.ready (st_namespace site) [(labels_Site, st_name site)] I (iobjs w1)" using rI l1 by simp
  obtain w' where s2: "ensureIngressesAreUpToDate x cc ings site w1 = (Inr True, w')"
      "settled ki_meta ki_service site I (iobjs w1) (iobjs w')" and l2: "sobjs w' = sobjs w1"
    using ingresses_pass[OF ki ord on I1 rI1] two_loops_keep[OF apart(2)] by metis
  let ?site = "networked True site"
  have on': "su_enabled (st_status ?site)" using on by simp
  have S': "build_expected (service_service x cc ?site w') (go_range (ex_order x) 50 (site_services ?site)) [] = Inr S"
    using S st(1)[of x site w' w] by (simp add: expected_networked)
  have I': "build_expected (service_ingress x cc ?site w') (go_range (ex_order x) 50 (site_services ?site)) [] = Inr I"
    using I st(2)[of x site w' w] by (simp add: expected_networked)
  have "ensureServicesAreUpToDate x cc svcs ?site w' = (Inr True, w')"
    by (rule services_settled[OF ks ord on' kservice.readyD(3)[OF rS] S', of "sobjs w"])
      (use s1(2) l2 in \<open>simp add: settled_def\<close>)
  moreover have "ensureIngressesAreUpToDate x cc ings ?site w' = (Inr True, w')"
    by (rule ingresses_settled[OF ki ord on' kingress.readyD(3)[OF rI] I', of "iobjs w1"])
      (use s2(2) in \<open>simp add: settled_def\<close>)
  ultimately have "EnsureNetworkingObjectsAreUpToDate x cc svcs ings ?site w' = ((Inr False, ?site), w')"
    by (simp add: EnsureNetworkingObjectsAreUpToDate_def networked_def)
  moreover have "EnsureNetworkingObjectsAreUpToDate x cc svcs ings site w =
      ((Inr (\<not> su_networking (st_status site)), ?site), w')"
    by (simp add: EnsureNetworkingObjectsAreUpToDate_def s1(1) s2(1) networked_def)
  ultimately show ?thesis using s1(2) s2(2) l1 l2 by auto
qed

definition toy_routed_clients :: "'w config_clients" where
  "toy_routed_clients = toy_config_clients\<lparr>cc_service := static_client sc_meta [toy_routed_service]\<rparr>"

lemma toy_routed_static: "static_configs toy_routed_clients"
  by (simp add: static_configs_def toy_routed_clients_def toy_config_clients_def static_client_def)

lemma toy_routed_simps:
  "sc_name toy_routed_service = ''shop''" "sc_service_spec toy_routed_service = Some \<lparr>sv_selector = [], sv_rest = []\<rparr>"
  "sc_ingress_spec toy_routed_service = None" "om_namespace (sc_meta toy_routed_service) = ''ns''"
  by (simp_all add: toy_routed_service_def toy_env_service_def toy_service_def)

lemma toy_routed_get: "cl_get (cc_service toy_routed_clients) ''ns'' ''shop'' w = Inr toy_routed_service"
  by (simp add: toy_routed_clients_def static_client_def obj_key_def toy_routed_simps)

lemma toy_routed_load: "\<exists>h'. LoadConfigs toy_routed_clients w h = Inr h'"
  by (simp add: LoadConfigs_def LoadServiceConfigs_def ListMongoConfigsInNamespace_def Let_def
      ListMysqlConfigsInNamespace_def ListRedisConfigsInNamespace_def toy_routed_clients_def toy_config_clients_def
      static_client_def)

lemma toy_routed_created:
  "createService toy_externals toy_routed_clients toy_enabled_site toy_routed_service w = Inr toy_kube_service"
proof -
  have r: "ReplaceTemplateVariablesInServiceSpec (ex_service_codec toy_externals) (\<lambda>l ks. ks) l spec ts = Inr spec" for l spec ts
    by (simp add: ReplaceTemplateVariablesInServiceSpec_def replace_in_object_def toy_externals_def
        GetUnresolvedTemplatesFromString_def)
  obtain h where h: "LoadConfigs toy_routed_clients w (NewSite toy_enabled_site toy_routed_service) = Inr h"
    by (rule exE[OF toy_routed_load])
  show ?thesis
    unfolding createService_def h sum.case toy_routed_simps option.case
    by (simp add: Let_def r toy_externals_simps toy_enabled_site_simps(1-3) toy_kube_service_def toy_shop_labels_def)
qed

lemma toy_routed_expected:
  "build_expected (service_service toy_externals toy_routed_clients toy_enabled_site w)
     (go_range (ex_order toy_externals) 50 (site_services toy_enabled_site)) [] = Inr [(''shop'', toy_kube_service)]"
  "build_expected (service_ingress toy_externals toy_routed_clients toy_enabled_site w)
     (go_range (ex_order toy_externals) 50 (site_services toy_enabled_site)) [] = Inr []"
  by (simp_all add: toy_externals_simps toy_enabled_site_simps go_range_id service_service_def service_ingress_def
      toy_routed_get toy_routed_created toy_routed_simps)

text \<open>No service yet, and an ingress of a service that the site no longer has.\<close>

definition toy_old_ingress :: kube_ingress where
  "toy_old_ingress =
     \<lparr>ki_meta = new_meta ''old'' ''ns'' [(labels_Site, ''my-site''), (labels_Service, ''old'')], ki_spec = \<lparr>ig_rest = []\<rparr>\<rparr>"


lemma toy_routed_stores:
  "kube_store ks_meta (on_first (mem_client ks_meta)) (fst :: _ \<times> kube_ingress list \<Rightarrow> _)"
  "kube_store ki_meta (on_second (mem_client ki_meta)) (snd :: kube_service list \<times> _ \<Rightarrow> _)"
  by (auto simp: kube_store_def on_first_def on_second_def mem_client_def)

lemma toy_routed_apart:
  "\<forall>s. keeps_objects snd (cl_delete (on_first (mem_client ks_meta)) s) \<and>
       keeps_objects snd (cl_create (on_first (mem_client ks_meta)) s)"
  "\<forall>i. keeps_objects fst (cl_delete (on_second (mem_client ki_meta)) i) \<and>
       keeps_objects fst (cl_create (on_second (mem_client ki_meta)) i)"
  by (simp_all add: keeps_objects_def on_first_def on_second_def)

lemma toy_routed_ready:
  "kservice.ready (st_namespace toy_enabled_site) [(labels_Site, st_name toy_enabled_site)] [(''shop'', toy_kube_service)] []"
  "kingress.ready (st_namespace toy_enabled_site) [(labels_Site, st_name toy_enabled_site)] [] [toy_old_ingress]"
  by (simp_all add: kservice.ready_def kingress.ready_def selects_def ks_service_def label_of_def lookup_or_def
      toy_kube_service_def toy_old_ingress_def toy_shop_labels_def toy_enabled_site_simps)

theorem networking_converges_witness:
  "\<exists>w'. EnsureNetworkingObjectsAreUpToDate toy_externals toy_routed_clients (on_first (mem_client ks_meta))
           (on_second (mem_client ki_meta)) toy_enabled_site ([], [toy_old_ingress]) =
         ((Inr True, networked True toy_enabled_site), w') \<and>
       EnsureNetworkingObjectsAreUpToDate toy_externals toy_routed_clients (on_first (mem_client ks_meta))
           (on_second (mem_client ki_meta)) (networked True toy_enabled_site) w' =
         ((Inr False, networked True toy_enabled_site), w')"
proof -
  have o: "range_order (ex_order toy_externals)" by (simp add: toy_externals_def)
  have n: "su_networking (st_status toy_enabled_site) = False" by code_simp
  have r: "kservice.ready (st_namespace toy_enabled_site) [(labels_Site, st_name toy_enabled_site)] [(''shop'', toy_kube_service)]
      (fst ([], [toy_old_ingress]))"
    "kingress.ready (st_namespace toy_enabled_site) [(labels_Site, st_name toy_enabled_site)] []
      (snd ([], [toy_old_ingress]))"
    using toy_routed_ready by simp_all
  show ?thesis
    by (insert networking_converges[OF toy_routed_stores toy_routed_apart o toy_routed_static toy_enabled_site_simps(4)
        toy_routed_expected r, unfolded n not_False_eq_True])
      (elim exE conjE, intro exI conjI, assumption+)
qed

end
