(* ===== verification/JobProgress.thy ===== *)
theory JobProgress
  imports DbMigrationProperties
begin

text \<open>
  The init and the migration controller watch a batch job in the same way. The locale
  \<open>watched_job\<close> is the contract of one reconcile of a running job; from it follows that a job
  does not run for ever: whatever the clock and the cluster do after the deadline, six reconciles
  that can list the batch jobs are enough to end it.
\<close>

section \<open>The contract of a reconcile of a running job\<close>

locale watched_job =
  fixes step :: "time \<Rightarrow> 'w \<Rightarrow> 'j \<Rightarrow> 'j" and live :: "'j \<Rightarrow> bool" and state :: "'j \<Rightarrow> job_state"
    and misses :: "'j \<Rightarrow> 32 word" and deadline :: "'j \<Rightarrow> time option" and owned :: "'j \<Rightarrow> 'w \<Rightarrow> go_error + batch_job list"
  assumes final_stays: "live j \<Longrightarrow> JobState_IsFinal (state j) \<Longrightarrow> step now w j = j"
    and unlisted: "live j \<Longrightarrow> state j = JobRunning \<Longrightarrow> owned j w = Inl err \<Longrightarrow> step now w j = j"
    and missing: "live j \<Longrightarrow> state j = JobRunning \<Longrightarrow> owned j w = Inr items \<Longrightarrow> length items \<noteq> 1 \<Longrightarrow>
        misses (step now w j) = misses j + 1 \<and>
        state (step now w j) = (if misses j + 1 > DbInitMaxJobFailedLoadLimit then JobFailed else JobRunning)"
    and found: "live j \<Longrightarrow> state j = JobRunning \<Longrightarrow> deadline j = Some d \<Longrightarrow> owned j w = Inr [bj] \<Longrightarrow>
        state (step now w j) =
          (case finished_state (bj_conditions bj) of Some s \<Rightarrow> s | None \<Rightarrow> if now > d then JobFailed else JobRunning)"
    and live_step: "live j \<Longrightarrow> state j = JobRunning \<Longrightarrow> live (step now w j)"
    and deadline_step: "live j \<Longrightarrow> state j = JobRunning \<Longrightarrow> deadline (step now w j) = deadline j"
    and owned_step: "live j \<Longrightarrow> state j = JobRunning \<Longrightarrow> owned (step now w j) = owned j"
begin

text \<open>The reconciles of a job, each at its own time and in its own world.\<close>

definition run :: "(time \<times> 'w) list \<Rightarrow> 'j \<Rightarrow> 'j" where
  "run = fold (\<lambda>e. step (fst e) (snd e))"

lemma run_simps [simp]: "run [] j = j" "run (e # es) j = run es (step (fst e) (snd e) j)"
  by (simp_all add: run_def)

lemma run_final: "live j \<Longrightarrow> JobState_IsFinal (state j) \<Longrightarrow> run es j = j"
  by (induction es) (simp_all add: final_stays)

lemma found_overdue:
  assumes "live j" "state j = JobRunning" "deadline j = Some d" "owned j w = Inr [bj]" "d < now"
  shows "JobState_IsFinal (state (step now w j))"
proof (cases "finished_state (bj_conditions bj)")
  case (Some s)
  then show ?thesis using found[OF assms(1-4)] finished_state_Some[OF Some] by auto
qed (use found[OF assms(1-4)] assms(5) in simp)

text \<open>
  The number of listings that a running job can still take; it goes down with every miss, and
  a listing that finds the batch job ends the job.
\<close>

definition patience :: "'j \<Rightarrow> nat" where
  "patience j = max 1 (6 - unat (misses j))"

lemma missing_patience:
  assumes "live j" "state j = JobRunning" "owned j w = Inr items" "length items \<noteq> 1" "misses j \<noteq> - 1"
  shows "JobState_IsFinal (state (step now w j)) \<or>
    state (step now w j) = JobRunning \<and> misses (step now w j) \<noteq> - 1 \<and> patience j = Suc (patience (step now w j))"
proof -
  have u: "unat (misses j + 1) = unat (misses j) + 1"
    using unatSuc[of "misses j"] assms(5) by (simp add: add_eq_0_iff add.commute)
  have lim: "DbInitMaxJobFailedLoadLimit < misses j + 1 \<longleftrightarrow> 5 < unat (misses j) + 1"
    unfolding word_less_nat_alt u by (simp add: DbInitMaxJobFailedLoadLimit_def)
  note m = missing[OF assms(1-4), of now]
  show ?thesis
  proof (cases "5 < unat (misses j) + 1")
    case True
    then show ?thesis using m lim by simp
  next
    case False
    have top: "unat (- 1 :: 32 word) = 4294967295"
      by (transfer, simp add: take_bit_minus_one_eq_mask mask_eq_exp_minus_1)
    have "misses j + 1 \<noteq> - 1"
    proof
      assume eq: "misses j + 1 = - 1"
      show False using u[unfolded eq] top False by simp
    qed
    then show ?thesis using m lim False u by (simp add: patience_def)
  qed
qed

lemma ends_after_deadline:
  assumes "live j" "state j = JobRunning" "deadline j = Some d" "misses j \<noteq> - 1"
    and "\<forall>e \<in> set es. d < fst e"
    and "patience j \<le> length (filter (\<lambda>e. \<exists>items. owned j (snd e) = Inr items) es)"
  shows "JobState_IsFinal (state (run es j))"
  using assms
proof (induction es arbitrary: j)
  case Nil
  then show ?case by (simp add: patience_def)
next
  case (Cons e es)
  let ?j = "step (fst e) (snd e) j"
  note live = live_step[OF Cons.prems(1,2), of "fst e" "snd e"]
  note owned = owned_step[OF Cons.prems(1,2), of "fst e" "snd e"]
  note dl = deadline_step[OF Cons.prems(1,2), of "fst e" "snd e"]
  have final: ?case if "JobState_IsFinal (state ?j)" using run_final[OF live that] that by simp
  show ?case
  proof (cases "owned j (snd e)")
    case (Inl err)
    then have "?j = j" by (rule unlisted[OF Cons.prems(1,2)])
    then show ?thesis using Cons.IH[OF Cons.prems(1-4)] Cons.prems(5,6) Inl by simp
  next
    case (Inr items)
    show ?thesis
    proof (cases "length items = 1")
      case True
      then obtain bj where "items = [bj]" by (cases items) auto
      then have "owned j (snd e) = Inr [bj]" using Inr by simp
      from found_overdue[OF Cons.prems(1-3) this] show ?thesis using final Cons.prems(5) by simp
    next
      case False
      from missing_patience[OF Cons.prems(1,2) Inr False Cons.prems(4), of "fst e"] show ?thesis
      proof (elim disjE conjE)
        assume "state ?j = JobRunning" "misses ?j \<noteq> - 1" "patience j = Suc (patience ?j)"
        then show ?thesis using Cons.IH[of ?j] live dl owned Cons.prems(3,5,6) Inr by simp
      qed (rule final)
    qed
  qed
qed

end


section \<open>The two controllers\<close>

lemma dbinit_next_running:
  assumes "dit_deadline (di_status j) \<noteq> None" "dit_state (di_status j) = JobRunning"
  shows "dbinit_next x config cl now w j =
    (case DbInit_processRunningJob (jc_batch cl) now j w of Inl err \<Rightarrow> j | Inr (changed, j') \<Rightarrow> j')"
  using assms by (auto simp: dbinit_next_def DbInit_handle_def on_handled_def split: sum.split)

lemma dbinit_next_final:
  "dit_deadline (di_status j) \<noteq> None \<Longrightarrow> JobState_IsFinal (dit_state (di_status j)) \<Longrightarrow> dbinit_next x config cl now w j = j"
  by (cases "dit_state (di_status j)") (auto simp: dbinit_next_def DbInit_handle_def)

lemma dbinit_running_keeps:
  assumes "DbInit_processRunningJob batch now j w = Inr (changed, j')"
  shows "dit_deadline (di_status j') = dit_deadline (di_status j)" "di_meta j' = di_meta j"
  using assms by (auto simp: DbInit_processRunningJob_def Let_def split: sum.splits if_splits option.splits)

interpretation init_watch: watched_job "dbinit_next x config cl" "\<lambda>j. dit_deadline (di_status j) \<noteq> None"
    "\<lambda>j. dit_state (di_status j)" "\<lambda>j. dit_not_found (di_status j)" "\<lambda>j. dit_deadline (di_status j)"
    "\<lambda>j. getOwnedInitJobs (jc_batch cl) j" for x config and cl :: "'w job_clients"
proof unfold_locales
  fix j :: db_init_job and now w err
  assume live: "dit_deadline (di_status j) \<noteq> None" and running: "dit_state (di_status j) = JobRunning"
  note step = dbinit_next_running[OF live running, of x config cl]
  show "getOwnedInitJobs (jc_batch cl) j w = Inl err \<Longrightarrow> dbinit_next x config cl now w j = j"
    by (simp add: step DbInit_processRunningJob_def)
  show "dit_deadline (di_status (dbinit_next x config cl now w j)) \<noteq> None"
    "dit_deadline (di_status (dbinit_next x config cl now w j)) = dit_deadline (di_status j)"
    "getOwnedInitJobs (jc_batch cl) (dbinit_next x config cl now w j) = getOwnedInitJobs (jc_batch cl) j"
    using live
    by (auto simp: step getOwnedInitJobs_def dbinit_selector_def fun_eq_iff dest: dbinit_running_keeps split: sum.split)
next
  fix j :: db_init_job and now w items
  assume live: "dit_deadline (di_status j) \<noteq> None" and running: "dit_state (di_status j) = JobRunning"
    and "getOwnedInitJobs (jc_batch cl) j w = Inr items" "length items \<noteq> 1"
  then show "dit_not_found (di_status (dbinit_next x config cl now w j)) = dit_not_found (di_status j) + 1 \<and>
      dit_state (di_status (dbinit_next x config cl now w j)) =
        (if DbInitMaxJobFailedLoadLimit < dit_not_found (di_status j) + 1 then JobFailed else JobRunning)"
    by (simp add: dbinit_next_running[OF live running] DbInit_processRunningJob_def Let_def)
qed (simp_all add: dbinit_next_final dbinit_running_outcome)

lemma migration_next_running:
  assumes "dms_image_tag (dm_spec j) = dmt_last_tag (dm_status j)" "dmt_state (dm_status j) = JobRunning"
  shows "migration_next x config cl now w j =
    (case DbMigration_processRunningJob (jc_batch cl) now j w of Inl err \<Rightarrow> j | Inr (changed, j') \<Rightarrow> j')"
  using assms by (auto simp: migration_next_def DbMigration_handle_def on_handled_def split: sum.split)

lemma migration_next_final:
  "dms_image_tag (dm_spec j) = dmt_last_tag (dm_status j) \<Longrightarrow> JobState_IsFinal (dmt_state (dm_status j)) \<Longrightarrow>
   migration_next x config cl now w j = j"
  by (cases "dmt_state (dm_status j)") (auto simp: migration_next_def DbMigration_handle_def)

lemma migration_running_keeps:
  assumes "DbMigration_processRunningJob batch now j w = Inr (changed, j')"
  shows "dmt_deadline (dm_status j') = dmt_deadline (dm_status j)" "dm_meta j' = dm_meta j" "dm_spec j' = dm_spec j"
    "dmt_last_tag (dm_status j') = dmt_last_tag (dm_status j)"
  using assms by (auto simp: DbMigration_processRunningJob_def Let_def split: sum.splits if_splits option.splits)

lemma migration_next_keeps:
  assumes "dms_image_tag (dm_spec j) = dmt_last_tag (dm_status j)" "dmt_state (dm_status j) = JobRunning"
    and "j' = migration_next x config cl now w j"
  shows "dmt_deadline (dm_status j') = dmt_deadline (dm_status j) \<and> dm_meta j' = dm_meta j \<and> dm_spec j' = dm_spec j \<and>
    dmt_last_tag (dm_status j') = dmt_last_tag (dm_status j)"
proof (cases "DbMigration_processRunningJob (jc_batch cl) now j w")
  case (Inr p)
  then have "DbMigration_processRunningJob (jc_batch cl) now j w = Inr (fst p, j')"
    using assms by (simp add: migration_next_running split: prod.split)
  from migration_running_keeps[OF this] show ?thesis by simp
qed (use assms in \<open>simp add: migration_next_running\<close>)

definition migration_live :: "db_migration_job \<Rightarrow> bool" where
  "migration_live j \<longleftrightarrow> dms_image_tag (dm_spec j) = dmt_last_tag (dm_status j) \<and> dmt_deadline (dm_status j) \<noteq> None"

interpretation migration_watch: watched_job "migration_next x config cl" migration_live
    "\<lambda>j. dmt_state (dm_status j)" "\<lambda>j. dmt_not_found (dm_status j)" "\<lambda>j. dmt_deadline (dm_status j)"
    "\<lambda>j. getOwnedMigrationJobs (jc_batch cl) j" for x config and cl :: "'w job_clients"
proof unfold_locales
  fix j :: db_migration_job and now w err
  assume live: "migration_live j" and running: "dmt_state (dm_status j) = JobRunning"
  note step = migration_next_running[OF conjunct1[OF live[unfolded migration_live_def]] running, of x config cl]
  show "getOwnedMigrationJobs (jc_batch cl) j w = Inl err \<Longrightarrow> migration_next x config cl now w j = j"
    by (simp add: step DbMigration_processRunningJob_def)
  show "migration_live (migration_next x config cl now w j)"
    "dmt_deadline (dm_status (migration_next x config cl now w j)) = dmt_deadline (dm_status j)"
    "getOwnedMigrationJobs (jc_batch cl) (migration_next x config cl now w j) = getOwnedMigrationJobs (jc_batch cl) j"
    using live migration_next_keeps[OF conjunct1[OF live[unfolded migration_live_def]] running refl, of x config cl now w]
    by (simp_all add: migration_live_def getOwnedMigrationJobs_def migration_selector_def fun_eq_iff)
  show "length items \<noteq> 1 \<Longrightarrow> getOwnedMigrationJobs (jc_batch cl) j w = Inr items \<Longrightarrow>
      dmt_not_found (dm_status (migration_next x config cl now w j)) = dmt_not_found (dm_status j) + 1 \<and>
      dmt_state (dm_status (migration_next x config cl now w j)) =
        (if DbInitMaxJobFailedLoadLimit < dmt_not_found (dm_status j) + 1 then JobFailed else JobRunning)" for items
    using running by (simp add: step DbMigration_processRunningJob_def Let_def)
  show "getOwnedMigrationJobs (jc_batch cl) j w = Inr [bj] \<Longrightarrow> dmt_deadline (dm_status j) = Some d \<Longrightarrow>
      dmt_state (dm_status (migration_next x config cl now w j)) =
        (case finished_state (bj_conditions bj) of Some s \<Rightarrow> s | None \<Rightarrow> if d < now then JobFailed else JobRunning)" for bj d
    using running by (simp add: step DbMigration_processRunningJob_def Let_def split: option.split)
qed (simp add: migration_live_def migration_next_final)


section \<open>No job runs for ever\<close>

text \<open>
  C9. An init job ends. Take any running init job that the controller itself brought there. From
  its deadline on, let the clock and the cluster be any at every reconcile, and let listing the
  batch jobs fail as often as it likes: with the sixth listing that succeeds, at the latest, the
  job is Complete or Failed, and stays so. Every status that the controller writes is taken to be
  saved.
\<close>

theorem dbinit_ends_after_deadline:
  assumes "fresh_init job0" "(dbinit_step x config cl)\<^sup>*\<^sup>* job0 job"
    and "dit_state (di_status job) = JobRunning" "dit_deadline (di_status job) = Some d"
    and "\<forall>e \<in> set es. d < fst e"
    and "6 \<le> length (filter (\<lambda>e. \<exists>items. getOwnedInitJobs (jc_batch cl) job (snd e) = Inr items) es)"
  shows "JobState_IsFinal (dit_state (di_status (fold (\<lambda>e. dbinit_next x config cl (fst e) (snd e)) es job)))"
proof -
  have "dbinit_ok (di_status job)"
    using reachable_ok[OF assms(2)] assms(1) by (auto simp: fresh_init_def dbinit_ok_def)
  then have "dit_not_found (di_status job) \<le> 6" by (simp add: dbinit_ok_def)
  moreover have "\<not> (- 1 :: 32 word) \<le> 6" by (transfer, simp add: take_bit_minus_one_eq_mask mask_eq_exp_minus_1)
  ultimately have m: "dit_not_found (di_status job) \<noteq> - 1" by metis
  have "init_watch.patience job \<le> length (filter (\<lambda>e. \<exists>items. getOwnedInitJobs (jc_batch cl) job (snd e) = Inr items) es)"
    using assms(6) by (simp add: init_watch.patience_def)
  from init_watch.ends_after_deadline[OF _ assms(3,4) m assms(5) this] assms(4)
  show ?thesis by (simp add: init_watch.run_def)
qed

text \<open>
  The same for a migration job, for as long as its tag is not changed, which would restart it,
  and unless its count of misses, which restarts do not reset, is the greatest of its type.
\<close>

theorem migration_ends_after_deadline:
  assumes "dms_image_tag (dm_spec job) = dmt_last_tag (dm_status job)"
    and "dmt_state (dm_status job) = JobRunning" "dmt_deadline (dm_status job) = Some d" "dmt_not_found (dm_status job) \<noteq> - 1"
    and "\<forall>e \<in> set es. d < fst e"
    and "6 \<le> length (filter (\<lambda>e. \<exists>items. getOwnedMigrationJobs (jc_batch cl) job (snd e) = Inr items) es)"
  shows "JobState_IsFinal (dmt_state (dm_status (fold (\<lambda>e. migration_next x config cl (fst e) (snd e)) es job)))"
proof -
  have "migration_watch.patience job \<le>
      length (filter (\<lambda>e. \<exists>items. getOwnedMigrationJobs (jc_batch cl) job (snd e) = Inr items) es)"
    using assms(6) by (simp add: migration_watch.patience_def)
  from migration_watch.ends_after_deadline[OF _ assms(2-5) this] assms(1,3)
  show ?thesis by (simp add: migration_watch.run_def migration_live_def)
qed

lemma toy_running_reached:
  "(dbinit_step toy_externals defaultCtrlConfig toy_init_clients)\<^sup>*\<^sup>* toy_init_job (set_init_state JobRunning toy_initialised)"
proof -
  have "DbInit_handle toy_externals defaultCtrlConfig toy_init_clients 0 toy_init_job [] =
      ((True, toy_initialised, requeue_now, None), [])"
    by (simp add: DbInit_handle_def toy_initialised_def)
  then have first: "dbinit_step toy_externals defaultCtrlConfig toy_init_clients toy_init_job toy_initialised"
    by (rule dbinit_step.intros)
  obtain w where w: "DbInit_createJobIfNeeded toy_externals defaultCtrlConfig toy_init_clients toy_initialised [] =
      (Inr (True, set_init_state JobRunning toy_initialised), w)"
    using toy_init_created by (metis prod.collapse)
  have "dit_state (di_status toy_initialised) = JobPending" "dit_deadline (di_status toy_initialised) \<noteq> None"
    by (simp_all add: toy_initialised_def)
  then have "DbInit_handle toy_externals defaultCtrlConfig toy_init_clients 0 toy_initialised [] =
      ((True, set_init_state JobRunning toy_initialised, no_requeue, None), w)"
    using w by (simp add: DbInit_handle_def on_handled_def)
  then have "dbinit_step toy_externals defaultCtrlConfig toy_init_clients toy_initialised (set_init_state JobRunning toy_initialised)"
    by (rule dbinit_step.intros)
  with first show ?thesis by (meson converse_rtranclp_into_rtranclp r_into_rtranclp)
qed

theorem dbinit_ends_after_deadline_witness:
  "JobState_IsFinal (dit_state (di_status (fold (\<lambda>e. dbinit_next toy_externals defaultCtrlConfig toy_init_clients (fst e) (snd e))
     (replicate 6 (600000000001, [])) (set_init_state JobRunning toy_initialised))))"
proof (rule dbinit_ends_after_deadline[OF _ toy_running_reached, where d = 600000000000])
  have "\<exists>items. getOwnedInitJobs (jc_batch toy_init_clients) j ([] :: batch_job list) = Inr items" for j
    by (simp add: getOwnedInitJobs_def toy_init_clients_def toy_clients_def mem_client_def)
  then show "6 \<le> length (filter (\<lambda>e. \<exists>items. getOwnedInitJobs (jc_batch toy_init_clients)
      (set_init_state JobRunning toy_initialised) (snd e) = Inr items) (replicate 6 (600000000001, [])))"
    by simp
qed (simp_all add: fresh_init_def set_init_state_def toy_initialised_def deadline_after_def time_add_def)

theorem migration_ends_after_deadline_witness:
  "JobState_IsFinal (dmt_state (dm_status (fold (\<lambda>e. migration_next toy_externals defaultCtrlConfig toy_clients (fst e) (snd e))
     (replicate 6 (600000000001, [])) (set_migration_state JobRunning (toy_pending_migration ''v1'')))))"
proof (rule migration_ends_after_deadline[where d = 600000000000])
  have "\<exists>items. getOwnedMigrationJobs (jc_batch toy_clients) j ([] :: batch_job list) = Inr items" for j
    by (simp add: getOwnedMigrationJobs_def toy_clients_def mem_client_def)
  then show "6 \<le> length (filter (\<lambda>e. \<exists>items. getOwnedMigrationJobs (jc_batch toy_clients)
      (set_migration_state JobRunning (toy_pending_migration ''v1'')) (snd e) = Inr items) (replicate 6 (600000000001, [])))"
    by simp
qed (simp_all add: set_migration_state_def toy_pending_migration_def toy_fresh_migration_def deadline_after_def time_add_def)

end
