(* ===== verification/SiteFixpoint.thy ===== *)
theory SiteFixpoint
  imports SiteStages
begin

text \<open>
  A site for which there is nothing left to do: the reconcile call of the site controller runs
  through all its stages, finds every object as it should be, writes nothing, and asks to be
  called again when the next thing is due.
\<close>

section \<open>Nothing to do\<close>

definition complete_status :: "site_status \<Rightarrow> bool" where
  "complete_status s \<longleftrightarrow> su_state s = StateComplete \<and> su_db_created s \<and> su_db_initialised s \<and> su_db_migrated s \<and>
     su_configs s \<and> su_networking s \<and> su_workloads s"

text \<open>Each handler reports completion and leaves the world as it is.\<close>

definition databases_settled :: "externals \<Rightarrow> 'w site_clients \<Rightarrow> staging_site \<Rightarrow> 'w \<Rightarrow> bool" where
  "databases_settled x cl site w \<longleftrightarrow>
     Mysql_EnsureDatabasesAreCreated (ex_md5 x) (ex_set_ref x) (ex_order x) (cc_service (sk_configs cl)) (sk_mysql cl) site w =
       (Inr True, w) \<and>
     Mongo_EnsureDatabasesAreCreated (ex_md5 x) (ex_set_ref x) (ex_order x) (cc_service (sk_configs cl)) (sk_mongo cl) site w =
       (Inr True, w) \<and>
     Redis_EnsureDatabasesAreCreated (ex_md5 x) (ex_set_ref x) (ex_order x) (cc_service (sk_configs cl)) (cc_redis (sk_configs cl))
       (sk_redis cl) site w = (Inr True, site, w) \<and>
     databases_ready cl site w"

definition jobs_settled :: "externals \<Rightarrow> 'w site_clients \<Rightarrow> staging_site \<Rightarrow> 'w \<Rightarrow> bool" where
  "jobs_settled x cl site w \<longleftrightarrow>
     DbInit_EnsureJobsAreCreated (ex_md5 x) (ex_set_ref x) (ex_order x) (cc_service (sk_configs cl)) (sk_inits cl) site w =
       (Inr True, w) \<and> init_jobs_done cl site w \<and>
     DbMigration_EnsureJobsAreCreated (ex_md5 x) (ex_set_ref x) (ex_order x) (cc_service (sk_configs cl)) (sk_migrations cl) site w =
       (Inr True, w) \<and> migrations_done cl site w"

definition objects_settled :: "externals \<Rightarrow> 'w site_clients \<Rightarrow> staging_site \<Rightarrow> 'w \<Rightarrow> bool" where
  "objects_settled x cl site w \<longleftrightarrow>
     ensureConfigmapsAreUpToDate x (sk_configs cl) (sk_config_maps cl) site w = (Inr True, w) \<and>
     ensureDeploymentsAreUpToDate x (sk_configs cl) (sk_deployments cl) site w = ((Inr True, site), w) \<and>
     ensureServicesAreUpToDate x (sk_configs cl) (sk_services cl) site w = (Inr True, w) \<and>
     ensureIngressesAreUpToDate x (sk_configs cl) (sk_ingresses cl) site w = (Inr True, w)"

section \<open>The stages, one by one\<close>

lemma on_status_same: "f (st_status site) = st_status site \<Longrightarrow> on_status f site = site"
  by (simp add: on_status_def)

lemma all_in_ready:
  "all_in dbs site w (\<lambda>d. db_state d = TaskComplete) \<Longrightarrow> Mysql_EnsureDatabasesAreReady dbs site w = Inr True"
  "all_in dbs site w (\<lambda>d. db_state d = TaskComplete) \<Longrightarrow> Mongo_EnsureDatabasesAreReady dbs site w = Inr True"
  "all_in rds site w (\<lambda>d. rd_state d = TaskComplete) \<Longrightarrow> Redis_EnsureDatabasesAreReady rds site w = Inr True"
  by (auto simp: Mysql_EnsureDatabasesAreReady_def Mongo_EnsureDatabasesAreReady_def Redis_EnsureDatabasesAreReady_def
      all_in_def ready_loop_True)

lemma all_in_jobs:
  "all_in ijs site w (\<lambda>j. dit_state (di_status j) = JobComplete) \<Longrightarrow> DbInit_EnsureJobsAreComplete ijs site w = Inr True"
  "all_in mjs site w (\<lambda>j. dmt_state (dm_status j) = JobComplete) \<Longrightarrow> DbMigration_EnsureJobsAreComplete mjs site w = Inr True"
  by (auto simp: DbInit_EnsureJobsAreComplete_def DbMigration_EnsureJobsAreComplete_def all_in_def jobs_loop_True)

lemma run_handlers_settled:
  assumes "\<And>h. h \<in> set hs \<Longrightarrow> h site w = (Inr True, site, w)"
  shows "run_handlers hs site w = (None, site, w)"
  using assms
proof (induction hs)
  case (Cons h hs)
  have "on_status (\<lambda>s. s\<lparr>su_db_created := su_db_created s \<and> True\<rparr>) site = site" by (rule on_status_same) simp
  moreover have "h site w = (Inr True, site, w)" "run_handlers hs site w = (None, site, w)" using Cons by simp_all
  ultimately show ?case by (simp add: on_status_def)
qed simp

lemma database_stage_settled:
  assumes "databases_settled x cl site w" "su_db_created (st_status site)" "su_db_initialised (st_status site)"
  shows "ensureDatabasesAreCreated x cl site w = ((Inr False, site), w)"
proof -
  have same: "on_status (\<lambda>s. s\<lparr>su_db_created := True\<rparr>) site = site" "on_status (\<lambda>s. s\<lparr>su_db_initialised := True\<rparr>) site = site"
    using assms(2,3) by (simp_all add: on_status_same)
  have "run_handlers (created_handlers x cl) site w = (None, site, w)"
    by (rule run_handlers_settled) (use assms(1) in \<open>auto simp: created_handlers_def Let_def databases_settled_def\<close>)
  moreover have "run_handlers (ready_handlers cl) site w = (None, site, w)"
    by (rule run_handlers_settled)
      (use assms(1) in \<open>auto simp: ready_handlers_def databases_settled_def databases_ready_def all_in_ready\<close>)
  ultimately show ?thesis by (simp add: ensureDatabasesAreCreated_def same assms(2) Let_def)
qed

lemma job_stages_settled:
  assumes "jobs_settled x cl site w" "su_db_initialised (st_status site)" "su_db_migrated (st_status site)"
  shows "ensureDatabasesAreInitialised x cl site w = ((Inr False, site), w)"
    and "ensureDatabaseMigrationJobsAreCreated x cl site w = ((Inr False, site), w)"
proof -
  have same: "on_status (\<lambda>s. s\<lparr>su_db_initialised := True\<rparr>) site = site" "on_status (\<lambda>s. s\<lparr>su_db_migrated := True\<rparr>) site = site"
    "on_status (\<lambda>s. s\<lparr>su_db_initialised := su_db_initialised s \<and> True\<rparr>) site = site"
    "on_status (\<lambda>s. s\<lparr>su_db_migrated := su_db_migrated s \<and> True\<rparr>) site = site"
    using assms(2,3) by (simp_all add: on_status_same)
  show "ensureDatabasesAreInitialised x cl site w = ((Inr False, site), w)"
    "ensureDatabaseMigrationJobsAreCreated x cl site w = ((Inr False, site), w)"
    using assms
    by (simp_all only: ensureDatabasesAreInitialised_def ensureDatabaseMigrationJobsAreCreated_def jobs_settled_def Let_def
        same prod.case sum.case init_jobs_done_def migrations_done_def all_in_jobs) simp_all
qed

lemma object_stages_settled:
  assumes "objects_settled x cl site w" "su_configs (st_status site)" "su_workloads (st_status site)" "su_networking (st_status site)"
  shows "ensureConfigsAreUpToDate x cl site w = ((Inr False, site), w)"
    and "ensureWorkloadObjectsAreUpToDate x cl site w = ((Inr False, site), w)"
    and "ensureNetworkingObjectsAreUpToDate x cl site w = ((Inr False, site), w)"
  using assms
  by (simp_all add: objects_settled_def ensureConfigsAreUpToDate_def EnsureConfigsAreUpToDate_def
      ensureWorkloadObjectsAreUpToDate_def EnsureWorkloadObjectsAreUpToDate_def
      ensureNetworkingObjectsAreUpToDate_def EnsureNetworkingObjectsAreUpToDate_def Let_def)

lemma stages_settled:
  assumes status: "complete_status (st_status site)" and backup: "\<not> overdue (su_next_backup (st_status site)) (en_clock e 4)"
    and settled: "databases_settled (en_x e) cl site w" "jobs_settled (en_x e) cl site w" "objects_settled (en_x e) cl site w"
  shows "site_stages e cl site w = (SaveStatus False site (getCtrlResultWithRecheckInterval (en_clock e 7) site) None, w)"
proof -
  have flags: "st_state site = StateComplete" "su_db_created (st_status site)" "su_db_initialised (st_status site)"
    "su_db_migrated (st_status site)" "su_configs (st_status site)" "su_workloads (st_status site)" "su_networking (st_status site)"
    using status by (simp_all add: complete_status_def)
  have same: "on_status (\<lambda>s. s\<lparr>su_state := StateComplete\<rparr>) site = site"
    by (rule on_status_same) (use flags(1) in simp)
  show ?thesis
    by (simp add: site_stages_def site_database_stages_def site_workload_stages_def flags same backup
        database_stage_settled[OF settled(1)] job_stages_settled[OF settled(2)] object_stages_settled[OF settled(3)])
qed

text \<open>
  C6. A settled site is a fixed point. Let a site be Complete, its status up to date, and let every
  handler of the site controller, for databases, config maps, init jobs, migrations, deployments,
  services and ingresses, find its own objects as they should be. Then the reconcile call, which
  runs all of them one after the other, changes nothing in the cluster, not even the status of the
  site, returns no error, and asks to be called when the next deadline or backup is due.
\<close>

theorem settled_site_left_alone:
  assumes "cl_get (sk_sites cl) ns name w = Inr site" "om_deletion (st_meta site) = None"
    and "SiteFinalizerName \<in> set (om_finalizers (st_meta site))"
    and "ensureStatusIsUpToDate e cl site w = ((None, False, site), w)" "complete_status (st_status site)"
    and "databases_settled (en_x e) cl site w" "jobs_settled (en_x e) cl site w" "objects_settled (en_x e) cl site w"
    and "\<not> overdue (su_delete_at (st_status site)) (en_clock e 3)"
    and "\<not> overdue (su_next_backup (st_status site)) (en_clock e 4)"
  shows "Site_doReconcile e cl ns name w = ((getCtrlResultWithRecheckInterval (en_clock e 7) site, None), w)"
proof -
  have "resetStatusErrors site = site" using assms(5) by (simp add: resetStatusErrors_def complete_status_def)
  then have "site_live e cl site w = (SaveStatus False site (getCtrlResultWithRecheckInterval (en_clock e 7) site) None, w)"
    using assms(4,9) stages_settled[OF assms(5,10,6-8)] by (simp add: site_live_def Let_def)
  then show ?thesis
    using assms(1-3)
    by (simp add: Site_doReconcile_def SliceContainsString_iff finish_reconcile_def fail_if_final_def
        Site_SaveStatusUpdatesIfObjectChanged_def SaveStatusUpdatesIfObjectChanged_def)
qed

section \<open>A settled site\<close>

definition toy_running :: deployment_status where
  "toy_running = \<lparr>ds_ready_replicas = 1, ds_rest = []\<rparr>"

definition toy_settled_site :: staging_site where
  "toy_settled_site = toy_ready_site\<lparr>st_status := (st_status toy_ready_site)
     \<lparr>su_state := StateComplete, su_health := WorkloadHealthHealthy, su_db_created := True, su_db_initialised := True,
      su_db_migrated := True, su_configs := True, su_networking := True, su_workloads := True,
      su_services := [(''shop'', (new_service_status toy_md5 toy_db_site (toy_service ''shop'' ''sh''))
        \<lparr>sst_deployment := toy_running\<rparr>)]\<rparr>\<rparr>"

definition toy_settled_clients :: "deployment list site_clients" where
  "toy_settled_clients = toy_stage_clients\<lparr>sk_sites := static_client st_meta [toy_settled_site]\<rparr>"

definition toy_shop_labels :: "string gomap" where
  "toy_shop_labels = [(labels_Site, ''my-site''), (labels_Service, ''shop'')]"

definition toy_settled_world :: "deployment list" where
  "toy_settled_world = [\<lparr>dp_meta = new_meta ''my-site-sh'' ''ns'' toy_shop_labels, dp_replicas = Some 1,
     dp_selector = toy_shop_labels, dp_pod_labels = toy_shop_labels,
     dp_pod = \<lparr>ps_containers = [], ps_restart_policy = [], ps_rest = []\<rparr>, dp_status = toy_running\<rparr>]"

lemma toy_settled_facts:
  "cl_get (sk_sites toy_settled_clients) ''ns'' ''my-site'' w = Inr toy_settled_site"
  "om_deletion (st_meta toy_settled_site) = None" "SiteFinalizerName \<in> set (om_finalizers (st_meta toy_settled_site))"
  "complete_status (st_status toy_settled_site)"
  "su_delete_at (st_status toy_settled_site) = None" "su_next_backup (st_status toy_settled_site) = None"
  by (simp_all add: toy_settled_clients_def toy_settled_site_def toy_ready_site_def static_client_def obj_key_def complete_status_def
     toy_db_site_def toy_site_def GetDummySite_def)

lemma toy_settled_listed:
  "databases_ready toy_settled_clients toy_settled_site w" "init_jobs_done toy_settled_clients toy_settled_site w"
  "migrations_done toy_settled_clients toy_settled_site w"
  by (simp_all add: databases_ready_def init_jobs_done_def migrations_done_def all_in_def toy_settled_clients_def toy_stage_clients_def static_client_def)

lemma toy_status_settled:
  "ensureStatusIsUpToDate toy_site_env toy_settled_clients toy_settled_site toy_settled_world = ((None, False, toy_settled_site), toy_settled_world)"
  by code_simp

lemma toy_databases_settled: "databases_settled (en_x toy_site_env) toy_settled_clients toy_settled_site toy_settled_world"
  unfolding databases_settled_def by (intro conjI toy_settled_listed; code_simp)

lemma toy_jobs_settled: "jobs_settled (en_x toy_site_env) toy_settled_clients toy_settled_site toy_settled_world"
  unfolding jobs_settled_def by (intro conjI toy_settled_listed; code_simp)

lemma toy_objects_settled: "objects_settled (en_x toy_site_env) toy_settled_clients toy_settled_site toy_settled_world"
  unfolding objects_settled_def by (intro conjI; code_simp)

theorem settled_site_left_alone_witness:
  "snd (Site_doReconcile toy_site_env toy_settled_clients ''ns'' ''my-site'' toy_settled_world) = toy_settled_world"
  using settled_site_left_alone[OF toy_settled_facts(1-3) toy_status_settled toy_settled_facts(4) toy_databases_settled
      toy_jobs_settled toy_objects_settled]
  by (simp add: toy_settled_facts(5,6) overdue_def)

end
