(* ===== verification/Spec2Isabelle.thy ===== *)
theory Spec2Isabelle
  imports DbInitProperties DbMigrationProperties BackupProperties KubernetesLists SiteStatus MetricsCollector Startup
    RedisProperties
    JobProperties SiteDefault TaskControllerProperties SiteHandlerProperties SiteFailures
    WorkloadProperties WebhookProperties NetworkingProperties JobProgress SiteFixpoint
begin

text \<open>
  Staging sites on Kubernetes: a verification development of the operator.

  The program. A \<^verbatim>\<open>StagingSite\<close> asks for a copy of an application: services with their image tags, each
  with databases on shared MySQL, MongoDB and Redis servers. The operator is a set of controllers
  over the Kubernetes API that talk to each other only through resources they create and read:

    - admission webhooks (\<^verbatim>\<open>handlers/webhook\<close>, \<^verbatim>\<open>apis/site/v1/stagingsite_webhook.go\<close>) complete and
      check a site before it is stored, label it with everything it uses, and refuse the deletion of
      a configuration that a stored site uses;
    - the site controller (\<^verbatim>\<open>controllers/site\<close>) runs the site through stages: status, databases and
      config maps, initialisation, migration, workloads and networking. Its handlers compare expected
      with existing objects and write the difference: \<^verbatim>\<open>handlers/task\<close> for database resources,
      \<^verbatim>\<open>handlers/job\<close> for init jobs, migration jobs and backups, \<^verbatim>\<open>handlers/site\<close> for config maps,
      deployments, services and ingresses. \<^verbatim>\<open>handlers/template\<close> and \<^verbatim>\<open>helpers/template.go\<close> fill in the
      values that the objects refer to, \<^verbatim>\<open>apis/helpers.go\<close> makes the names;
    - the task controllers (\<^verbatim>\<open>controllers/task\<close>) bring the database servers in line with a database
      resource through \<^verbatim>\<open>handlers/database\<close>, and hold it with a finalizer until its data is removed;
    - the job controllers (\<^verbatim>\<open>controllers/job\<close>) create a batch job for an init job, a migration job or
      each service of a backup, and watch it until it ends or its deadline passes;
    - \<^verbatim>\<open>main.go\<close> reads the configuration and wires all of this to the manager, and
      \<^verbatim>\<open>internal/metrics/collector.go\<close> reports the inventory.
\<close>

section \<open>Where the code is\<close>

text \<open>
  Definitions have the names of the functions and types they model. A prefix tells apart functions of
  one name in different packages (\<open>Mysql_EnsureDatabasesAreCreated\<close>, \<open>DbInit_doReconcile\<close>). A long
  function is split at the blocks of its source, and a loop is a function of its own.

    - \<open>Prelude\<close>: Go maps, ranging, loops of calls, the string functions of the standard library.
      \<open>Errors\<close>: \<^verbatim>\<open>helpers/errors\<close>. \<open>Kube\<close>: object metadata and the client of controller-runtime.
      \<open>GoTime\<close>: the part of package \<^verbatim>\<open>time\<close> that the sources use, with civil dates and RFC 3339.
    - \<open>StringHelper\<close>, \<open>Template\<close>, \<open>KubernetesLists\<close>, \<open>PodSpec\<close>, \<open>Naming\<close>: \<^verbatim>\<open>helpers\<close> and
      \<^verbatim>\<open>apis/helpers.go\<close>. \<open>SiteTemplate\<close>: \<^verbatim>\<open>handlers/template/site.go\<close>.
    - \<open>SiteTypes\<close>, \<open>TaskTypes\<close>, \<open>JobTypes\<close>, \<open>ConfigTypes\<close>: the resources under \<^verbatim>\<open>apis\<close> as records, with
      their helper methods. \<open>SiteDefault\<close>: the defaulting webhook.
    - \<open>Reconcile\<close>: the comparison of expected and existing objects, which the handlers of \<^verbatim>\<open>handlers/task\<close>,
      \<^verbatim>\<open>handlers/job\<close> and \<^verbatim>\<open>handlers/site\<close> repeat; \<open>Converge\<close>: what one pass over an API server
      achieves. \<open>TaskHandlers\<close>, \<open>JobHandlers\<close>, \<open>SiteHandlers\<close>, \<open>NetworkingHandler\<close>: the handlers.
    - \<open>Controllers\<close>: \<^verbatim>\<open>controllers/helpers.go\<close> and what the controllers share.
      \<open>DbInitController\<close>, \<open>DbMigrationController\<close>, \<open>BackupController\<close>: \<^verbatim>\<open>controllers/job\<close>.
      \<open>DatabaseHandlers\<close>, \<open>TaskControllers\<close>: \<^verbatim>\<open>handlers/database\<close> and \<^verbatim>\<open>controllers/task\<close>.
      \<open>SiteController\<close>: \<^verbatim>\<open>controllers/site\<close>. \<open>Webhooks\<close>: \<^verbatim>\<open>handlers/webhook\<close>.
      \<open>MetricsCollector\<close>: the collector. \<open>Startup\<close>: \<^verbatim>\<open>main.go\<close>.
\<close>

section \<open>How the code is modelled\<close>

text \<open>
  State. The world is a type variable \<open>'w\<close>. An operation that writes takes a world and returns its
  result with the next world; one that only reads takes a world. Clients of the API server, the
  SQL connection and the Mongo and Redis drivers are records of functions over \<open>'w\<close>, one per call the
  sources make, and nothing is assumed about them: each call may fail at any time. Where a theorem needs
  a call to behave as documented it says so with a named predicate (\<open>kube_store\<close> for an API server
  that accepts well-formed writes, \<open>mysql_user_laws\<close> and the like for a server), and a witness
  instantiates it with a concrete store. \<open>kube_store\<close> shows every write in the next read and stores the
  object as it was sent. The program reads through the cache of the manager, which lags behind, and an object
  comes back from JSON, which may turn an empty map into none: the theorems over \<open>kube_store\<close> speak of
  reads that have caught up. Where a handler reads back its own writes within one call, the Redis
  creation loop, the theorem assumes only that (\<open>shows_writes\<close>), and \<open>cached_lists_repeat_numbers\<close> shows
  what a lagging cache does. The handlers of a database speak to one server; the reconcilers pick it by the
  data source name of the configuration.

  Errors. A function that returns an error returns a sum with the error on the left, or the error
  next to a result where Go returns both. A nil dereference and the like is the error value
  \<open>Panic\<close>, so that its absence can be stated.

  Data. A struct is a record with the fields the sources read, an enumeration a datatype. A Go map is
  an association list with distinct keys; a nil map and an empty one are both \<open>[]\<close>, except where
  the sources tell them apart (the data of a config map is an option). Every \<^verbatim>\<open>range\<close> over a map
  goes through \<open>go_range\<close> with an \<open>order\<close> and a label of the loop: the order is arbitrary, may
  differ from loop to loop, and the theorems hold for all of them or say what they need. Machine
  integers are words (\<open>32 word\<close> counters, \<open>64 word\<close> intervals, the \<open>16 word\<close> ports), with the wrap-around of
  Go. Instants and durations are integers of nanoseconds; a clock reading is an argument, with one
  label for every place that reads the clock, so that no two readings are taken to be equal. The local
  zone of the process is an argument too, the offset from UTC in seconds at each instant: the date of
  the next backup and the annotation with the time of the last change are read off the local clock. The
  interval to the next check stops at the longest duration of Go (\<open>time_sub\<close>).

  Parameters. The MD5 digest, the owner reference, the YAML codec of pod, service and ingress specs,
  the sort of environment variables, \<^verbatim>\<open>sort.Slice\<close> on backups (which leaves equal elements in any
  order), the random password and the drivers are not code of the repository; they are arguments of the
  definitions that use them.

  Loops. Loops over a list recurse on it. Loops bounded by data have a measure (the scan for template
  references, the search for the next backup day). The paging loop depends on the server and is a
  \<open>partial_function\<close> into an option: \<open>paging_complete\<close> proves that it returns against a server with
  finitely many pages, and \<open>paging_without_token_diverges\<close> shows a server against which it does not. No
  definition uses fuel. The only other bound is the limit of failed look-ups of a batch job, which is
  the code's own constant of five.
\<close>

section \<open>Interfaces\<close>

text \<open>
  A contract that several components share is a locale, interpreted on the definitions of each.

    - \<open>diff_kind\<close> and \<open>store_kind\<close>: how objects are keyed, compared and updated. Inside, the plan of a
      pass is shown exact, and one pass over a \<open>kube_store\<close> is shown to establish what is
      expected, in the order of the task handlers, of the site handlers, and without a loop of
      updates. Interpretations: \<open>mysql\<close>, \<open>mongo\<close>, \<open>redis\<close> (task handlers), \<open>dbinit\<close>, \<open>migration\<close>
      (job handlers), \<open>configmap\<close>, \<open>kservice\<close>, \<open>kingress\<close> (site handlers).
    - \<open>completing\<close>: a reconciler that reports Complete only without an error, with the
      interpretations \<open>mysql_reconciler\<close> and \<open>mongo_reconciler\<close>.
    - \<open>environment_kind\<close>: the label prefix and index of one kind of environment, for the admission and
      the deletion handlers, with one interpretation for each of the three kinds.
    - \<open>watched_job\<close>: a controller that watches a batch job, with \<open>init_watch\<close> and
      \<open>migration_watch\<close>.
\<close>

section \<open>What is shown\<close>

text \<open>
  The whole site. \<open>SiteStages\<close> and \<open>SiteStatus\<close>: no workload is written before the databases are created,
  initialised and migrated; in the state Complete everything that the spec asks for was seen in place
  (\<open>SiteCompletion\<close> says what each handler has found); the status
  computed twice is the same, and says of services, times and backups what is the case. \<open>SiteBackups\<close>,
  \<open>SiteFailures\<close>: retention, release of a deleted site after its final backup, failure of a site by a
  failed job. \<open>SiteFixpoint\<close>: a finished site is a fixed point of the complete reconcile call.
  \<open>SiteControllerProperties\<close>: the next backup and the next check.

  Controllers over time. \<open>DatabaseProvisioning\<close> composes the handler of the site controller with
  the MySQL controller: after any schedule of its work queue with two turns for each database, the
  server has the users, databases and rights, and the handler reports the databases ready.
  \<open>TaskControllerProperties\<close>: as users create and delete resources and calls fail, no MySQL database
  loses its resource, but for those that a change of the spec abandons; what this needs of the
  reconcilers is shown of their code, from laws of single statements that promise no success, and
  reads are taken to be current. \<open>DbInitProperties\<close>, \<open>DbMigrationProperties\<close>: the job controllers refine an
  abstract life cycle, given as a step relation. \<open>JobProgress\<close>: after its deadline a running job ends
  with the sixth look at the latest that can list the batch jobs, each status being saved.
  \<open>BackupProperties\<close>: a complete backup has all services of
  the site.

  Handlers. \<open>TaskProperties\<close>, \<open>RedisProperties\<close>, \<open>JobProperties\<close>, \<open>SiteHandlerProperties\<close>,
  \<open>NetworkingProperties\<close>, \<open>WorkloadProperties\<close>: one pass converges, what is reported complete is what
  the site asks for, Redis numbers are exclusive, health is the state of the deployments, a
  disabled site runs nothing. \<open>DatabaseProperties\<close>: the effect of the statements on a server.

  Admission. \<open>WebhookProperties\<close>: an admitted site has only services and environments that exist,
  admission is idempotent, a configuration in use cannot be deleted, short names stay unique. A stored
  site is taken to have passed admission, which the deployed configuration enforces by its failure policy.

  Text. \<open>TemplateMeaning\<close>: the replacement of one name after the other is the simultaneous
  substitution when values have no dollar sign, in every order. \<open>Naming\<close>, \<open>StringHelper\<close>: lengths and
  injectivity of names. \<open>GoTime\<close>: printing and parsing of instants are inverse.

  Lemmas that are counterexamples (among them \<open>redis_update_shares_number\<close>, \<open>long_interval_wraps\<close>,
  \<open>tag_change_passes_before_migration\<close>, \<open>recheck_lost_at_due_time\<close>, \<open>database_names_collide_across_sites\<close>,
  \<open>east_of_utc_skips_a_day\<close>, \<open>renamed_database_stays\<close>, \<open>cached_lists_repeat_numbers\<close>)
  record where the code does not do what it is meant to do.
\<close>

section \<open>Not modelled\<close>

text \<open>
  Log output, events sent to Sentry, and the counters and histograms of \<^verbatim>\<open>internal/metrics/metrics.go\<close>:
  the sources write them and never read them. The generated deep copies (\<^verbatim>\<open>zz_generated.deepcopy.go\<close>):
  values of the model are never shared, so a copy is the identity. The registration of types with
  the scheme and the tails of the functions \<^verbatim>\<open>SetupWithManager\<close>: calls of controller-runtime
  without a decision of their own; the functions registered with the field indexer are modelled. Command line flags
  and the build information in \<^verbatim>\<open>main.go\<close>. The helpers of the tests (\<^verbatim>\<open>internal/testutil\<close>,
  \<^verbatim>\<open>internal/metricstest\<close>). The drivers of the database servers and controller-runtime itself, which are
  parameters.
\<close>

end
